(* ===== verification/Prelude.thy ===== *)
theory Prelude
  imports Main "HOL-Library.Word"
begin

text \<open>
  The prelude of the development: Go's fixed-width integers, time values and
  byte strings as the components use them, and the list lemmas they share.

  \<^item> A signed integer of width 32 or 64 is an \<^typ>\<open>int\<close>; every arithmetic operation
    of the source that can leave the range is followed by \<open>int32\<close> or \<open>int64\<close>, the
    two's complement wrap-around.
  \<^item> A \<open>time.Time\<close> is the number of nanoseconds since Go's zero time (1 January of
    year 1), so \<open>IsZero\<close> is comparison with 0. A \<open>time.Duration\<close> is a number of
    nanoseconds in 64 bits. \<open>Time.Sub\<close>, \<open>time.Since\<close> and \<open>time.Until\<close> saturate.
  \<^item> A Go string is a sequence of bytes, hence \<^typ>\<open>string\<close>.
\<close>

named_theorems go_defs \<open>unfolding rules for the Go primitives\<close>

section \<open>Fixed-width integers\<close>

definition int32 :: "int \<Rightarrow> int" where
  "int32 x = (x + 2 ^ 31) mod 2 ^ 32 - 2 ^ 31"

definition int64 :: "int \<Rightarrow> int" where
  "int64 x = (x + 2 ^ 63) mod 2 ^ 64 - 2 ^ 63"

definition in_int32 :: "int \<Rightarrow> bool" where
  "in_int32 x \<longleftrightarrow> - (2 ^ 31) \<le> x \<and> x < 2 ^ 31"

definition in_int64 :: "int \<Rightarrow> bool" where
  "in_int64 x \<longleftrightarrow> - (2 ^ 63) \<le> x \<and> x < 2 ^ 63"

lemma int32_id: "in_int32 x \<Longrightarrow> int32 x = x"
  by (simp add: int32_def in_int32_def)

lemma int64_id: "in_int64 x \<Longrightarrow> int64 x = x"
  by (simp add: int64_def in_int64_def)

lemma in_int32_int32 [simp, intro]: "in_int32 (int32 x)"
  by (simp add: int32_def in_int32_def)

lemma in_int64_int64 [simp, intro]: "in_int64 (int64 x)"
  by (simp add: int64_def in_int64_def)

lemma int64_minus_plus: "int64 (int64 (x + y) + - y) = int64 x"
proof -
  have "(x + y + 2 ^ 63) mod 2 ^ 64 - 2 ^ 63 + - y + 2 ^ 63 = (x + y + 2 ^ 63) mod 2 ^ 64 - y"
    by simp
  then show ?thesis
    by (simp add: int64_def mod_simps algebra_simps)
qed

lemma int32_add_left [simp]: "int32 (int32 x + y) = int32 (x + y)"
proof -
  have "(x + 2 ^ 31) mod 2 ^ 32 - 2 ^ 31 + y + 2 ^ 31 = (x + 2 ^ 31) mod 2 ^ 32 + y"
    by simp
  then show ?thesis
    by (simp add: int32_def mod_simps algebra_simps)
qed

lemma int32_diff_left [simp]: "int32 (int32 x - y) = int32 (x - y)"
  using int32_add_left [of x "- y"] by simp

lemma int64_add_left [simp]: "int64 (int64 x + y) = int64 (x + y)"
proof -
  have "(x + 2 ^ 63) mod 2 ^ 64 - 2 ^ 63 + y + 2 ^ 63 = (x + 2 ^ 63) mod 2 ^ 64 + y"
    by simp
  then show ?thesis
    by (simp add: int64_def mod_simps algebra_simps)
qed

lemma int64_add_right [simp]: "int64 (x + int64 y) = int64 (x + y)"
  using int64_add_left [of y x] by (simp add: add.commute)

lemma int64_eq_iff: "int64 x = int64 y \<longleftrightarrow> x mod 2 ^ 64 = y mod 2 ^ 64"
proof -
  have "int64 x = int64 y \<longleftrightarrow> (x + 2 ^ 63) mod 2 ^ 64 = (y + 2 ^ 63) mod 2 ^ 64" by (simp add: int64_def)
  also have "\<dots> \<longleftrightarrow> x mod 2 ^ 64 = y mod 2 ^ 64" by (simp only: mod_eq_dvd_iff) simp
  finally show ?thesis .
qed

lemma int64_mod: "int64 x mod 2 ^ 64 = x mod 2 ^ 64"
  using int64_add_left [of x 0] by (simp only: int64_eq_iff add_0_right)

lemma int64_idem [simp]: "int64 (int64 x) = int64 x"
  by (simp only: int64_eq_iff int64_mod)

lemma int64_diff_right [simp]: "int64 (x - int64 y) = int64 (x - y)"
proof -
  have "(x - int64 y) mod 2 ^ 64 = (x - int64 y mod 2 ^ 64) mod 2 ^ 64" by (rule mod_diff_right_eq [symmetric])
  also have "\<dots> = (x - y) mod 2 ^ 64" unfolding int64_mod by (rule mod_diff_right_eq)
  finally show ?thesis by (simp only: int64_eq_iff)
qed

lemma int64_diff_left [simp]: "int64 (int64 x - y) = int64 (x - y)"
  using int64_add_left [of x "- y"] by simp

section \<open>Time\<close>

type_synonym gotime = int
type_synonym duration = int

abbreviation Second :: duration where "Second \<equiv> 1000000000"
abbreviation Minute :: duration where "Minute \<equiv> 60000000000"
abbreviation Hour :: duration where "Hour \<equiv> 3600000000000"

text \<open>\<open>Time.Sub\<close> returns the greatest or least duration where the difference does not
  fit; \<open>time.Since t\<close> and \<open>time.Until t\<close> are \<open>Sub\<close> with the clock reading.\<close>

definition time_sub :: "gotime \<Rightarrow> gotime \<Rightarrow> duration" where
  "time_sub t u = max (- (2 ^ 63)) (min (2 ^ 63 - 1) (t - u))"

lemma time_sub_le_0_iff: "time_sub t u \<le> 0 \<longleftrightarrow> t \<le> u"
  by (auto simp: time_sub_def)

lemma time_sub_ge_iff: "- (2 ^ 63) < d \<Longrightarrow> d < 2 ^ 63 \<Longrightarrow> d \<le> time_sub t u \<longleftrightarrow> d \<le> t - u"
  by (auto simp: time_sub_def)

section \<open>Strings\<close>

text \<open>\<open>strings.Index\<close>: the first position at which the second string occurs, or -1.\<close>

fun str_index_from :: "nat \<Rightarrow> string \<Rightarrow> string \<Rightarrow> int" where
  "str_index_from i [] p = (if p = [] then int i else -1)"
| "str_index_from i (c # s) p =
     (if take (length p) (c # s) = p then int i else str_index_from (Suc i) s p)"

definition str_index :: "string \<Rightarrow> string \<Rightarrow> int" where
  "str_index s p = str_index_from 0 s p"

definition has_suffix :: "string \<Rightarrow> string \<Rightarrow> bool" where
  "has_suffix s p \<longleftrightarrow> length p \<le> length s \<and> drop (length s - length p) s = p"

lemma has_suffix_append [simp]: "has_suffix (s @ p) p"
  by (simp add: has_suffix_def)

lemma has_suffixE:
  assumes "has_suffix s p"
  obtains q where "s = q @ p"
  using assms append_take_drop_id [of "length s - length p" s] by (metis has_suffix_def)

lemma str_index_from_neg_or_ge: "str_index_from i s p = -1 \<or> int i \<le> str_index_from i s p"
  by (induction i s p rule: str_index_from.induct) auto

lemma str_index_from_found:
  "str_index_from i s p = k \<Longrightarrow> k \<noteq> -1 \<Longrightarrow>
   take (length p) (drop (nat k - i) s) = p \<and> nat k - i + length p \<le> length s"
proof (induction i s p rule: str_index_from.induct)
  case (1 i p)
  then show ?case by (auto split: if_splits)
next
  case (2 i c s p)
  show ?case
  proof (cases "take (length p) (c # s) = p")
    case True
    then have "length p \<le> length (c # s)" by (metis length_take min.cobounded1)
    with True "2.prems" show ?thesis by auto
  next
    case False
    with "2.prems" have eq: "str_index_from (Suc i) s p = k" by simp
    with "2.prems"(2) have "int (Suc i) \<le> k"
      using str_index_from_neg_or_ge [of "Suc i" s p] by auto
    then have "nat k - i = Suc (nat k - Suc i)" by auto
    with "2.IH" [OF False eq "2.prems"(2)] show ?thesis by simp
  qed
qed

lemma str_index_found:
  assumes "str_index s p \<noteq> -1"
  shows "take (length p) (drop (nat (str_index s p)) s) = p"
    and "nat (str_index s p) + length p \<le> length s"
  using str_index_from_found [of 0 s p, OF refl] assms by (auto simp: str_index_def)

lemma str_indexE:
  assumes "str_index s p \<noteq> -1"
  obtains k where "str_index s p = int k" "take (length p) (drop k s) = p" "k + length p \<le> length s"
proof -
  have "0 \<le> str_index s p"
    using str_index_from_neg_or_ge [of 0 s p] assms by (auto simp: str_index_def)
  then have "str_index s p = int (nat (str_index s p))" by simp
  with str_index_found [OF assms] that show thesis by blast
qed

lemma str_index_from_prefix: "str_index_from i (p @ s) p = int i"
proof (cases "p @ s")
  case (Cons c r)
  then have "take (length p) (c # r) = p" by (metis append_eq_conv_conj)
  with Cons show ?thesis by simp
qed simp

lemma str_index_prefix [simp]: "str_index (p @ s) p = 0"
  by (simp add: str_index_def str_index_from_prefix)

text \<open>The conversion \<open>string(b)\<close> of a byte encodes the code point \<open>b\<close> in UTF-8: two bytes from 128 on.\<close>

definition string_of_byte :: "char \<Rightarrow> string" where
  "string_of_byte c = (let n = of_char c :: nat in
     if n < 128 then [c] else [char_of (192 + n div 64), char_of (128 + n mod 64)])"

lemma string_of_byte_ascii: "(of_char c :: nat) < 128 \<Longrightarrow> string_of_byte c = [c]"
  by (simp add: string_of_byte_def)

lemma length_string_of_byte: "length (string_of_byte c) \<le> 2"
  by (simp add: string_of_byte_def Let_def)

section \<open>Slices\<close>

text \<open>A Go slice expression \<open>s[a:b]\<close> panics outside \<open>0 \<le> a \<le> b \<le> len s\<close>, here \<open>None\<close>.\<close>

definition slice :: "string \<Rightarrow> int \<Rightarrow> int \<Rightarrow> string option" where
  "slice s a b = (if 0 \<le> a \<and> a \<le> b \<and> b \<le> int (length s)
     then Some (take (nat (b - a)) (drop (nat a) s)) else None)"

lemma slice_from: "0 \<le> a \<Longrightarrow> a \<le> int (length s) \<Longrightarrow> slice s a (int (length s)) = Some (drop (nat a) s)"
  by (simp add: slice_def)

lemma slice_to: "0 \<le> b \<Longrightarrow> b \<le> int (length s) \<Longrightarrow> slice s 0 b = Some (take (nat b) s)"
  by (simp add: slice_def)

lemma slice_mid:
  "a = int (length p) \<Longrightarrow> b = int (length p + length m) \<Longrightarrow> slice (p @ m @ s) a b = Some m"
  by (simp add: slice_def)

lemma slice_drop: "k + n \<le> length s \<Longrightarrow> slice s (int k + int n) (int (length s)) = Some (drop (k + n) s)"
  using slice_from [of "int (k + n)" s] by (simp only: of_nat_add [symmetric] nat_int)

lemma slice_strip: "n \<le> length s \<Longrightarrow> slice s 0 (int (length s) - int n) = Some (take (length s - n) s)"
  using slice_to [of "int (length s - n)" s] by (simp only: of_nat_diff [symmetric] nat_int)

section \<open>Decimal rendering\<close>

text \<open>The \<open>%d\<close> verb of \<open>fmt.Sprintf\<close>.\<close>

definition digit :: "nat \<Rightarrow> char" where
  "digit n = char_of (48 + n)"

fun nat_dec :: "nat \<Rightarrow> string" where
  "nat_dec n = (if n < 10 then [digit n] else nat_dec (n div 10) @ [digit (n mod 10)])"

declare nat_dec.simps [simp del]

definition itoa :: "int \<Rightarrow> string" where
  "itoa i = (if i < 0 then CHR ''-'' # nat_dec (nat (- i)) else nat_dec (nat i))"

lemma digit_inj: "m < 10 \<Longrightarrow> n < 10 \<Longrightarrow> digit m = digit n \<longleftrightarrow> m = n"
proof -
  assume "m < 10" "n < 10"
  then have "of_char (digit m) = 48 + m" "of_char (digit n) = 48 + n"
    by (simp_all add: digit_def)
  then show "digit m = digit n \<longleftrightarrow> m = n" by (metis add_left_cancel)
qed

lemma nat_dec_not_Nil [simp]: "nat_dec n \<noteq> []"
  by (subst nat_dec.simps) simp

lemma nat_dec_inj: "nat_dec m = nat_dec n \<Longrightarrow> m = n"
proof (induction m arbitrary: n rule: nat_dec.induct)
  case (1 m)
  show ?case
  proof (cases "m < 10 \<or> n < 10")
    case True
    with "1.prems" show ?thesis
      by (auto simp: nat_dec.simps [of m] nat_dec.simps [of n] digit_inj
          append_eq_Cons_conv Cons_eq_append_conv split: if_splits)
  next
    case False
    with "1.prems" have "nat_dec (m div 10) = nat_dec (n div 10)" "digit (m mod 10) = digit (n mod 10)"
      by (simp_all add: nat_dec.simps [of m] nat_dec.simps [of n])
    with "1.IH" False have "m div 10 = n div 10" "m mod 10 = n mod 10"
      by (simp_all add: digit_inj)
    then show ?thesis by (metis mult_div_mod_eq)
  qed
qed

lemma digit_chars: "n < 10 \<Longrightarrow> of_char (digit n) = (48 + n :: nat)"
  by (simp add: digit_def)

lemma nat_dec_digits: "c \<in> set (nat_dec n) \<Longrightarrow> 48 \<le> (of_char c :: nat) \<and> (of_char c :: nat) < 58"
proof (induction n rule: nat_dec.induct)
  case (1 n)
  show ?case
  proof (cases "n < 10")
    case True
    with "1.prems" show ?thesis by (simp add: nat_dec.simps [of n] digit_chars)
  next
    case False
    with "1.prems" have "c \<in> set (nat_dec (n div 10)) \<or> c = digit (n mod 10)"
      by (auto simp: nat_dec.simps [of n])
    with "1.IH" False show ?thesis by (auto simp: digit_chars)
  qed
qed

section \<open>Lists\<close>

text \<open>The linear scan that returns an index or -1.\<close>

fun find_from :: "('a \<Rightarrow> bool) \<Rightarrow> nat \<Rightarrow> 'a list \<Rightarrow> int" where
  "find_from P i [] = -1"
| "find_from P i (x # xs) = (if P x then int i else find_from P (Suc i) xs)"

lemma find_from_cases:
  "find_from P i xs = -1 \<and> (\<forall>x \<in> set xs. \<not> P x)
   \<or> (\<exists>k < length xs. find_from P i xs = int (i + k) \<and> P (xs ! k) \<and> (\<forall>j < k. \<not> P (xs ! j)))"
proof (induction P i xs rule: find_from.induct)
  case (2 P i x xs)
  show ?case
  proof (cases "P x")
    case False
    with 2 consider "find_from P (Suc i) xs = -1" "\<forall>x \<in> set xs. \<not> P x"
      | k where "k < length xs" "find_from P (Suc i) xs = int (Suc i + k)" "P (xs ! k)"
          "\<forall>j < k. \<not> P (xs ! j)" by blast
    then show ?thesis
    proof cases
      case (2 k)
      with False have "Suc k < length (x # xs) \<and> find_from P i (x # xs) = int (i + Suc k) \<and>
          P ((x # xs) ! Suc k) \<and> (\<forall>j < Suc k. \<not> P ((x # xs) ! j))"
        by (auto simp: less_Suc_eq_0_disj)
      then show ?thesis by blast
    qed (use False in simp)
  qed force
qed simp

lemma find_from_neq_iff: "find_from P i xs \<noteq> -1 \<longleftrightarrow> (\<exists>x \<in> set xs. P x)"
  using find_from_cases [of P i xs] by (auto intro: nth_mem)

lemma find_from_0_found:
  assumes "find_from P 0 xs \<noteq> -1"
  shows "nat (find_from P 0 xs) < length xs" and "P (xs ! nat (find_from P 0 xs))"
  using find_from_cases [of P 0 xs] assms by auto

text \<open>\<open>strings.Cut\<close> at the first occurrence of a byte, \<open>strings.TrimPrefix\<close> and \<open>strings.TrimSuffix\<close>.\<close>

fun cut_at :: "char \<Rightarrow> string \<Rightarrow> (string \<times> string) option" where
  "cut_at sep [] = None"
| "cut_at sep (c # cs) = (if c = sep then Some ([], cs) else map_option (\<lambda>(a, b). (c # a, b)) (cut_at sep cs))"

lemma cut_at_append: "sep \<notin> set a \<Longrightarrow> cut_at sep (a @ sep # b) = Some (a, b)"
  by (induction a) auto

definition trim_prefix :: "string \<Rightarrow> string \<Rightarrow> string" where
  "trim_prefix s p = (if take (length p) s = p then drop (length p) s else s)"

definition trim_suffix :: "string \<Rightarrow> string \<Rightarrow> string" where
  "trim_suffix s p = (if has_suffix s p then take (length s - length p) s else s)"

section \<open>Iteration over Go maps\<close>

text \<open>The runtime visits every key of a map once, in an order of its own; \<open>iter\<close> gives the order.\<close>

definition iterates :: "(('a \<rightharpoonup> 'b) \<Rightarrow> 'a list) \<Rightarrow> bool" where
  "iterates iter \<longleftrightarrow> (\<forall>m. finite (dom m) \<longrightarrow> distinct (iter m) \<and> set (iter m) = dom m)"

definition map_entries :: "(('a \<rightharpoonup> 'b) \<Rightarrow> 'a list) \<Rightarrow> ('a \<rightharpoonup> 'b) \<Rightarrow> ('a \<times> 'b) list" where
  "map_entries iter m = List.map_filter (\<lambda>k. map_option (Pair k) (m k)) (iter m)"

lemma map_entries_set: "iterates iter \<Longrightarrow> finite (dom m) \<Longrightarrow> set (map_entries iter m) = {(k, v). m k = Some v}"
  by (force simp: map_entries_def iterates_def List.map_filter_def image_iff)

lemma map_entries_distinct:
  assumes "iterates iter" and "finite (dom m)"
  shows "distinct (map fst (map_entries iter m))"
proof -
  have "map fst (map_entries iter m) = filter (\<lambda>k. k \<in> dom m) (iter m)"
    by (auto simp: map_entries_def List.map_filter_def comp_def domIff intro!: map_idI [THEN trans] filter_cong)
  with assms show ?thesis by (simp add: iterates_def)
qed

end
