(* ===== verification/Api_Types.thy ===== *)
theory Api_Types
  imports Prelude
begin

text \<open>
  The vocabulary the components exchange.

  \<^item> The fields of the Kubernetes API objects that the source reads and writes
    (\<open>pod\<close>, \<open>container\<close>, \<open>probe\<close>, \<open>pod_status\<close>): plain data, one record per
    Go struct, a nil pointer as \<open>None\<close>. A resource request is kept as the number
    \<open>MilliValue\<close> (CPU) or \<open>Value\<close> (memory) returns for it.
  \<^item> The \<open>Fact\<close> and \<open>Effect\<close> interfaces of \<open>internal/types/types.go\<close>: sealed Go
    interfaces, hence datatypes with one constructor per implementing struct.
  \<^item> The status payload of \<open>UpdateStatus\<close>.
\<close>

section \<open>Kubernetes API objects\<close>

type_synonym PodPhase = string

abbreviation PodPending :: PodPhase where "PodPending \<equiv> ''Pending''"
abbreviation PodRunning :: PodPhase where "PodRunning \<equiv> ''Running''"
abbreviation PodSucceeded :: PodPhase where "PodSucceeded \<equiv> ''Succeeded''"
abbreviation PodFailed :: PodPhase where "PodFailed \<equiv> ''Failed''"

type_synonym RestartPolicy = string

abbreviation RestartPolicyAlways :: RestartPolicy where "RestartPolicyAlways \<equiv> ''Always''"
abbreviation RestartPolicyOnFailure :: RestartPolicy where "RestartPolicyOnFailure \<equiv> ''OnFailure''"
abbreviation RestartPolicyNever :: RestartPolicy where "RestartPolicyNever \<equiv> ''Never''"

abbreviation EventTypeNormal :: string where "EventTypeNormal \<equiv> ''Normal''"
abbreviation EventTypeWarning :: string where "EventTypeWarning \<equiv> ''Warning''"
abbreviation ConditionTrue :: string where "ConditionTrue \<equiv> ''True''"
abbreviation ConditionFalse :: string where "ConditionFalse \<equiv> ''False''"
abbreviation PodReady :: string where "PodReady \<equiv> ''Ready''"

record http_get_action =
  h_Scheme :: string
  h_Host :: string
  h_Port :: string
  h_Path :: string

record tcp_socket_action =
  t_Host :: string
  t_Port :: string

record probe =
  p_InitialDelaySeconds :: int
  p_PeriodSeconds :: int
  p_TimeoutSeconds :: int
  p_SuccessThreshold :: int
  p_FailureThreshold :: int
  p_HTTPGet :: "http_get_action option"
  p_TCPSocket :: "tcp_socket_action option"
  p_Exec :: "string list option"

text \<open>The handler of a lifecycle hook and the sources of environment variables. A selector of a
  config map or secret is its name, the key and the \<open>Optional\<close> pointer.\<close>

record lifecycle_handler =
  lh_Exec :: "string list option"
  lh_HTTPGet :: "http_get_action option"
  lh_SleepSeconds :: "int option"

record key_selector =
  sel_Name :: string
  sel_Key :: string
  sel_Optional :: "bool option"

record env_var_source =
  evs_ConfigMapKeyRef :: "key_selector option"
  evs_SecretKeyRef :: "key_selector option"
  evs_FieldRef :: "(string \<times> string) option"
  evs_ResourceFieldRef :: bool

record env_var =
  ev_Name :: string
  ev_Value :: string
  ev_ValueFrom :: "env_var_source option"

record env_from_source =
  ef_Prefix :: string
  ef_ConfigMapRef :: "(string \<times> bool option) option"
  ef_SecretRef :: "(string \<times> bool option) option"

text \<open>Volumes and their mounts: a pointer to a source is an option, \<open>vol_EmptyDir\<close> tells whether it is set.
  A projected token carries its path and audience, a downward item its path and the field path.\<close>

record key_to_path =
  kp_Key :: string
  kp_Path :: string

record projection =
  prj_Token :: "(string \<times> string) option"
  prj_ConfigMap :: "(string \<times> key_to_path list) option"
  prj_DownwardAPI :: "(string \<times> string option) list option"
  prj_Secret :: "(string \<times> key_to_path list) option"

record volume =
  vol_Name :: string
  vol_HostPath :: "(string \<times> string option) option"
  vol_EmptyDir :: bool
  vol_ConfigMap :: "(string \<times> key_to_path list) option"
  vol_Secret :: "(string \<times> key_to_path list) option"
  vol_PVC :: "(string \<times> bool) option"
  vol_Projected :: "projection list option"

record volume_mount =
  vmt_Name :: string
  vmt_MountPath :: string
  vmt_ReadOnly :: bool
  vmt_Propagation :: "string option"

record container =
  c_Name :: string
  c_Image :: string
  c_ReadinessProbe :: "probe option"
  c_LivenessProbe :: "probe option"
  c_StartupProbe :: "probe option"
  c_RequestCPU :: "int option"
  c_RequestMemory :: "int option"
  c_LimitCPU :: "int option"
  c_LimitMemory :: "int option"
  c_ResourcesSet :: bool
  c_SidecarAlways :: bool
  c_ImagePullPolicy :: string
  c_Privileged :: "bool option"
  c_RunAsUser :: "int option"
  c_RunAsGroup :: "int option"
  c_PostStart :: "lifecycle_handler option"
  c_PreStop :: "lifecycle_handler option"
  c_Env :: "env_var list"
  c_EnvFrom :: "env_from_source list"
  c_VolumeMounts :: "volume_mount list"

record state_terminated =
  st_ExitCode :: int
  st_Reason :: string
  st_StartedAt :: gotime
  st_FinishedAt :: gotime

record container_state_v1 =
  Waiting :: "string option"
  Running :: "gotime option"
  Terminated :: "state_terminated option"

record container_status =
  s_Name :: string
  s_Image :: string
  s_Ready :: bool
  s_RestartCount :: int
  s_State :: container_state_v1

record pod_status =
  ps_Phase :: PodPhase
  ps_Reason :: string
  ps_Message :: string
  ps_Conditions :: "(string \<times> string) list"
  ps_ContainerStatuses :: "container_status list"
  ps_InitContainerStatuses :: "container_status list"
  ps_HostIP :: string
  ps_PodIP :: string
  ps_PodIPs :: "string list"
  ps_StartTime :: "gotime option"

text \<open>The remaining fields of the pod: metadata and specification.\<close>

record pod_spec =
  sp_Labels :: "string \<rightharpoonup> string"
  sp_Annotations :: "string \<rightharpoonup> string"
  sp_NodeName :: string
  sp_ServiceAccountName :: string
  sp_EnableServiceLinks :: "bool option"
  sp_HostNetwork :: bool
  sp_TerminationGracePeriodSeconds :: "int option"
  sp_HostPID :: bool
  sp_RequestCPU :: "int option"
  sp_RunAsUser :: "int option"
  sp_RunAsGroup :: "int option"
  sp_LimitCPU :: "int option"
  sp_LimitMemory :: "int option"
  sp_Volumes :: "volume list"

record pod =
  pod_UID :: string
  pod_Namespace :: string
  pod_Name :: string
  pod_RestartPolicy :: RestartPolicy
  pod_Containers :: "container list"
  pod_InitContainers :: "container list"
  pod_Status :: pod_status
  pod_Spec :: pod_spec

section \<open>Machine states\<close>

text \<open>The constants of type \<open>MachineState\<close>. Every \<open>switch\<close> over it treats a string that
  is none of them as \<open>StateUnknown\<close>.\<close>

datatype MachineState = StateUnknown | StateRunning | StateExited | StateFailed | StateCreating

section \<open>Facts\<close>

text \<open>\<open>UID\<close> is the method of the interface. The arguments, in order: unit name, substate
  and exit code; container, machine state and exit code; container, exit code, reason and
  \<open>WillRestart\<close>; container, probe type, \<open>Success\<close>, \<open>Ready\<close>, \<open>StartupPassed\<close> and the two
  thresholds; namespace, name and the pod (which may be nil); namespace, name, pod IP and
  the pod (an admitted pod is never nil); the container name. The timestamps of \<open>UnitFact\<close> and \<open>ExitFact\<close> are read by
  no code and left out.\<close>

datatype Fact =
    UnitFact (UID: string) string string int
  | ContainerStateFact (UID: string) string MachineState int
  | ExitFact (UID: string) string int string bool
  | ProbeFact (UID: string) string string bool bool bool int int
  | SpecFact (UID: string) string string "pod option"
  | PodAdmitFact (UID: string) string string string pod
  | PodEvictFact (UID: string)
  | MarkRunningFact (UID: string) string
  | BackoffResetFact (UID: string) string

section \<open>Effects\<close>

record TerminatedPayload =
  tp_ExitCode :: int
  tp_Reason :: string
  tp_StartedAt :: gotime
  tp_FinishedAt :: gotime

text \<open>The tagged union of \<open>ContainerStatePayload\<close> keeps Go's three nilable pointers.\<close>

record ContainerStatePayload =
  csp_Waiting :: "string option"
  csp_Running :: "gotime option"
  csp_Terminated :: "TerminatedPayload option"

record ContainerStatusPayload =
  cp_Name :: string
  cp_Image :: string
  cp_Ready :: bool
  cp_RestartCount :: int
  cp_State :: ContainerStatePayload

record PodStatusPayload =
  pp_Phase :: PodPhase
  pp_Conditions :: "(string \<times> string) list"
  pp_ContainerStatuses :: "ContainerStatusPayload list"
  pp_HostIP :: string
  pp_PodIP :: string

record ContainerInitPayload =
  ci_Name :: string
  ci_HasReadinessProbe :: bool

datatype Effect =
    UpdateStatus string string string PodStatusPayload
  | RestartContainer string string string string int duration
  | SetPodPhase string PodPhase
  | ResetUnit string string
  | RecordEvent string string string string
  | PersistPodState string
  | InitRestartState string string string "ContainerInitPayload list"

primrec effect_uid :: "Effect \<Rightarrow> string" where
  "effect_uid (UpdateStatus u _ _ _) = u"
| "effect_uid (RestartContainer u _ _ _ _ _) = u"
| "effect_uid (SetPodPhase u _) = u"
| "effect_uid (ResetUnit u _) = u"
| "effect_uid (RecordEvent u _ _ _) = u"
| "effect_uid (PersistPodState u) = u"
| "effect_uid (InitRestartState u _ _ _) = u"

primrec is_restart :: "Effect \<Rightarrow> bool" where
  "is_restart (UpdateStatus _ _ _ _) = False"
| "is_restart (RestartContainer _ _ _ _ _ _) = True"
| "is_restart (SetPodPhase _ _) = False"
| "is_restart (ResetUnit _ _) = False"
| "is_restart (RecordEvent _ _ _ _) = False"
| "is_restart (PersistPodState _) = False"
| "is_restart (InitRestartState _ _ _ _) = False"

section \<open>A sample pod\<close>

text \<open>A pod with containers without probes, used by the closed instances of theorems.\<close>

definition sample_container :: "string \<Rightarrow> container" where
  "sample_container n = \<lparr>c_Name = n, c_Image = ''nginx'', c_ReadinessProbe = None,
     c_LivenessProbe = None, c_StartupProbe = None, c_RequestCPU = Some 100, c_RequestMemory = Some 64,
     c_LimitCPU = None, c_LimitMemory = None, c_ResourcesSet = True, c_SidecarAlways = False, c_ImagePullPolicy = [], c_Privileged = None,
     c_RunAsUser = None, c_RunAsGroup = None, c_PostStart = None, c_PreStop = None, c_Env = [], c_EnvFrom = [], c_VolumeMounts = []\<rparr>"

definition empty_status :: pod_status where
  "empty_status = \<lparr>ps_Phase = [], ps_Reason = [], ps_Message = [], ps_Conditions = [],
     ps_ContainerStatuses = [], ps_InitContainerStatuses = [], ps_HostIP = [], ps_PodIP = [],
     ps_PodIPs = [], ps_StartTime = None\<rparr>"

definition empty_spec :: pod_spec where
  "empty_spec = \<lparr>sp_Labels = Map.empty, sp_Annotations = Map.empty, sp_NodeName = [], sp_ServiceAccountName = [],
     sp_EnableServiceLinks = None, sp_HostNetwork = False, sp_TerminationGracePeriodSeconds = None,
     sp_HostPID = False, sp_RequestCPU = None, sp_RunAsUser = None, sp_RunAsGroup = None, sp_LimitCPU = None,
     sp_LimitMemory = None, sp_Volumes = []\<rparr>"

definition sample_pod :: "string \<Rightarrow> string list \<Rightarrow> pod" where
  "sample_pod policy names = \<lparr>pod_UID = ''u1'', pod_Namespace = ''default'', pod_Name = ''web'',
     pod_RestartPolicy = policy, pod_Containers = map sample_container names,
     pod_InitContainers = [], pod_Status = empty_status, pod_Spec = empty_spec\<rparr>"

end
