(* ===== verification/Unit_Names.thy ===== *)
theory Unit_Names
  imports Api_Types
begin

text \<open>
  The systemd unit name of a container: how \<open>internal/runtime/systemd/runtime.go\<close>
  builds it (\<open>wrapperUnitName\<close>), how the node package takes it apart for a known pawn
  (\<open>ParseUnitName\<close> in \<open>node/gambit.go\<close>) and how the state machine does without knowing
  the pawn (\<open>ParseContainerFromUnit\<close> in \<open>internal/foci/reduce.go\<close>).
  The parsers return \<open>None\<close> where a slice expression panics, and the lemmas show that
  they never do. The second half is the escaping of unit names in D-Bus object paths.
\<close>

section \<open>Building and parsing\<close>

definition wrapperUnitName :: "string \<Rightarrow> string \<Rightarrow> string \<Rightarrow> string" where
  "wrapperUnitName pawnName podUID containerName =
     ''perigeos-'' @ pawnName @ ''-pod-'' @ podUID @ ''-'' @ containerName @ ''.service''"

definition ParseUnitName :: "string \<Rightarrow> string \<Rightarrow> (string \<times> string) option" where
  "ParseUnitName pawnName unitName =
     (let prefix = ''perigeos-'' @ pawnName @ ''-pod-''; suffix = ''.service'' in
      if take (length prefix) unitName \<noteq> prefix \<or> \<not> has_suffix unitName suffix then Some ([], [])
      else case slice unitName (int (length prefix)) (int (length unitName) - int (length suffix)) of
        None \<Rightarrow> None
      | Some inner \<Rightarrow>
          if length inner < 38 then Some ([], [])
          else (case slice inner 0 36 of
              None \<Rightarrow> None
            | Some u \<Rightarrow> (case slice inner 37 (int (length inner)) of
                None \<Rightarrow> None
              | Some c \<Rightarrow> Some (u, c))))"

definition ParseContainerFromUnit_go :: "string \<Rightarrow> string option" where
  "ParseContainerFromUnit_go unitName =
     (let suffix = ''.service'' in
      if \<not> has_suffix unitName suffix then Some []
      else let prefix = ''perigeos-''; idx = str_index unitName prefix in
      if idx = -1 then Some []
      else case slice unitName (idx + int (length prefix)) (int (length unitName)) of
        None \<Rightarrow> None
      | Some rest \<Rightarrow>
          let podIdx = str_index rest ''-pod-'' in
          if podIdx = -1 then Some []
          else case slice rest (podIdx + 5) (int (length rest)) of
            None \<Rightarrow> None
          | Some afterPod0 \<Rightarrow>
              case slice afterPod0 0 (int (length afterPod0) - int (length suffix)) of
                None \<Rightarrow> None
              | Some afterPod \<Rightarrow>
                  if length afterPod < 38 then Some []
                  else slice afterPod 37 (int (length afterPod)))"

text \<open>Since the parser never panics (\<open>ParseContainerFromUnit_go_total\<close> below), the
  state machine uses its result as a plain string.\<close>

definition ParseContainerFromUnit :: "string \<Rightarrow> string" where
  "ParseContainerFromUnit unitName =
     (case ParseContainerFromUnit_go unitName of None \<Rightarrow> [] | Some c \<Rightarrow> c)"

section \<open>No slice is out of range\<close>

text \<open>A match that ends in \<open>-\<close> lies before the suffix \<open>.service\<close>, which has no such byte.\<close>

lemma match_before_suffix:
  assumes s: "s = q @ ''.service''" and m: "take n (drop k s) = w @ ''-''"
    and n: "n = Suc (length w)" "k + n \<le> length s"
  shows "k + n \<le> length q"
proof (rule ccontr)
  assume neg: "\<not> k + n \<le> length q"
  have "s ! (k + length w) = (take n (drop k s)) ! length w"
    using n by simp
  also have "\<dots> = CHR ''-''" by (simp add: m)
  finally have "s ! (k + length w) = CHR ''-''" .
  moreover from neg n have "s ! (k + length w) = ''.service'' ! (k + length w - length q)"
    by (simp add: s nth_append)
  moreover have "''.service'' ! (k + length w - length q) \<in> set ''.service''"
    using n neg s by (intro nth_mem) simp
  ultimately show False by simp
qed

lemma prefix_before_suffix:
  assumes "take (length (p @ ''-'')) s = p @ ''-''" and "has_suffix s ''.service''"
  shows "length (p @ ''-'') + 8 \<le> length s"
proof -
  from assms(2) obtain q where s: "s = q @ ''.service''" by (rule has_suffixE)
  from assms(1) have "length (p @ ''-'') \<le> length s"
    by (metis length_take min.cobounded1)
  then have "0 + Suc (length p) \<le> length q"
    by (intro match_before_suffix [OF s _ refl]) (use assms(1) in simp_all)
  moreover have "length s = length q + 8" by (simp add: s)
  ultimately show ?thesis by simp
qed

lemma ParseUnitName_total_aux: "\<exists>r. ParseUnitName pawn u = Some r"
proof (cases "take (length (''perigeos-'' @ pawn @ ''-pod-'')) u \<noteq> ''perigeos-'' @ pawn @ ''-pod-''
    \<or> \<not> has_suffix u ''.service''")
  case True
  then show ?thesis unfolding ParseUnitName_def Let_def by (simp only: if_True) blast
next
  case False
  have "length ((''perigeos-'' @ pawn @ ''-pod'') @ ''-'') + 8 \<le> length u"
    by (rule prefix_before_suffix) (use False in simp_all)
  then show ?thesis
    using False by (auto simp: ParseUnitName_def Let_def slice_def)
qed

lemma ParseContainerFromUnit_go_total: "\<exists>c. ParseContainerFromUnit_go u = Some c"
proof (cases "has_suffix u ''.service'' \<and> str_index u ''perigeos-'' \<noteq> -1")
  case False
  then show ?thesis by (auto simp: ParseContainerFromUnit_go_def Let_def)
next
  case True
  then obtain q where u: "u = q @ ''.service''" by (auto elim: has_suffixE)
  from True obtain k where k: "str_index u ''perigeos-'' = int k" "k + length ''perigeos-'' \<le> length u"
    by (auto elim: str_indexE)
  define rest where "rest = drop (k + length ''perigeos-'') u"
  note s1 = slice_drop [OF k(2), folded rest_def]
  show ?thesis
  proof (cases "str_index rest ''-pod-'' = -1")
    case True
    then show ?thesis
      using k(1) s1 by (simp add: ParseContainerFromUnit_go_def Let_def)
  next
    case False
    then obtain m where m: "str_index rest ''-pod-'' = int m" "take 5 (drop m rest) = ''-pod'' @ ''-''"
        "m + 5 \<le> length rest"
      by (rule str_indexE) (simp add: eval_nat_numeral)
    let ?n = "k + length ''perigeos-'' + m"
    have "?n + 5 \<le> length q"
    proof (rule match_before_suffix [OF u])
      show "take 5 (drop ?n u) = ''-pod'' @ ''-''"
        using m(2) by (simp add: rest_def add.commute add.left_commute)
      show "?n + 5 \<le> length u" using m(3) k(2) by (simp add: rest_def)
    qed simp
    then have len: "length ''.service'' \<le> length (drop (m + 5) rest)"
      by (simp add: rest_def u)
    note s2 = slice_drop [OF m(3), simplified]
    note s3 = slice_strip [OF len]
    have s4: "\<not> length a < 38 \<Longrightarrow> \<exists>c. slice a 37 (int (length a)) = Some c" for a
      by (simp add: slice_def)
    show ?thesis
      unfolding ParseContainerFromUnit_go_def Let_def k(1) s1 option.case m(1) s2 s3
      using s4 by (simp only: option.case if_False if_True split: if_split) blast
  qed
qed

section \<open>Parsing is the inverse of building\<close>

lemma ParseUnitName_wrapper:
  assumes "length uid = 36" and "c \<noteq> []"
  shows "ParseUnitName pawn (wrapperUnitName pawn uid c) = Some (uid, c)"
proof -
  let ?u = "wrapperUnitName pawn uid c"
  have u: "?u = (''perigeos-'' @ pawn @ ''-pod-'') @ ((uid @ ''-'' @ c) @ ''.service'')"
    by (simp add: wrapperUnitName_def)
  have "has_suffix ?u ''.service''"
    unfolding u append_assoc [symmetric] by (rule has_suffix_append)
  moreover have "slice ?u (int (length (''perigeos-'' @ pawn @ ''-pod-'')))
      (int (length ?u) - 8) = Some (uid @ ''-'' @ c)"
    unfolding u by (rule slice_mid) simp_all
  moreover have "slice (uid @ ''-'' @ c) 0 36 = Some uid"
    and "slice (uid @ ''-'' @ c) 37 (int (length (uid @ ''-'' @ c))) = Some c"
    using assms by (simp_all add: slice_def)
  moreover have "38 \<le> length (uid @ ''-'' @ c)"
    using assms by (cases c) auto
  moreover have "take (length (''perigeos-'' @ pawn @ ''-pod-'')) ?u = ''perigeos-'' @ pawn @ ''-pod-''"
    by (simp add: u)
  ultimately show ?thesis
    unfolding ParseUnitName_def Let_def by simp
qed

lemma str_index_from_extend:
  "str_index_from i (a @ p) p = int (i + length a) \<Longrightarrow>
   str_index_from i (a @ p @ b) p = int (i + length a)"
proof (induction a arbitrary: i)
  case Nil
  show ?case by (simp add: str_index_from_prefix)
next
  case (Cons x a)
  have tk: "take (length p) (x # a @ p @ b) = take (length p) (x # a @ p)"
    using take_append [of "length p" "x # a @ p" b] by simp
  from Cons.prems have "take (length p) (x # a @ p) \<noteq> p" by (auto split: if_splits)
  with Cons.prems Cons.IH [of "Suc i"] tk show ?case by simp
qed

lemma ParseContainerFromUnit_wrapper:
  assumes "length uid = 36" and "c \<noteq> []"
    and "str_index (pawn @ ''-pod-'') ''-pod-'' = int (length pawn)"
  shows "ParseContainerFromUnit (wrapperUnitName pawn uid c) = c"
proof -
  let ?u = "wrapperUnitName pawn uid c"
  let ?rest = "pawn @ ''-pod-'' @ uid @ ''-'' @ c @ ''.service''"
  let ?after = "uid @ ''-'' @ c @ ''.service''"
  have u: "?u = ''perigeos-'' @ ?rest" by (simp add: wrapperUnitName_def)
  have "has_suffix ?u ''.service''"
    using has_suffix_append [of "''perigeos-'' @ pawn @ ''-pod-'' @ uid @ ''-'' @ c" "''.service''"]
    by (simp only: wrapperUnitName_def append_assoc)
  moreover have "str_index ?u ''perigeos-'' = 0" unfolding u by (rule str_index_prefix)
  moreover have "slice ?u 9 (int (length ?u)) = Some ?rest" by (simp add: u slice_def)
  moreover have "str_index ?rest ''-pod-'' = int (length pawn)"
    using str_index_from_extend [of 0 pawn "''-pod-''" ?after] assms(3) by (simp add: str_index_def)
  moreover have "slice ?rest (int (length pawn) + 5) (int (length ?rest)) = Some ?after"
    by (simp add: slice_def nat_add_distrib)
  moreover have "slice ?after 0 (int (length ?after) - 8) = Some (uid @ ''-'' @ c)"
    by (simp add: slice_def nat_add_distrib)
  moreover have "slice (uid @ ''-'' @ c) 37 (int (length (uid @ ''-'' @ c))) = Some c"
    using assms by (simp add: slice_def)
  moreover have "\<not> length (uid @ ''-'' @ c) < 38"
    using assms by (cases c) auto
  ultimately have "ParseContainerFromUnit_go ?u = Some c"
    by (simp add: ParseContainerFromUnit_go_def Let_def)
  then show ?thesis by (simp add: ParseContainerFromUnit_def)
qed

text \<open>C40: neither parser of unit names panics on any input; parsing the unit name of a container
  gives back the UID and the container, and the parser that does not know the pawn gives back the
  container provided \<open>-pod-\<close> first occurs in the name right after the pawn.\<close>

theorem unit_name_roundtrip:
  assumes "length uid = 36" and "c \<noteq> []" and "str_index (pawn @ ''-pod-'') ''-pod-'' = int (length pawn)"
  shows "ParseUnitName pawn (wrapperUnitName pawn uid c) = Some (uid, c) \<and>
    ParseContainerFromUnit (wrapperUnitName pawn uid c) = c \<and>
    ParseUnitName pawn u \<noteq> None \<and> ParseContainerFromUnit_go u \<noteq> None"
  using ParseUnitName_wrapper [OF assms(1,2)] ParseContainerFromUnit_wrapper [OF assms]
    ParseUnitName_total_aux [of pawn u] ParseContainerFromUnit_go_total [of u] by simp

theorem unit_name_roundtrip_witness:
  "ParseUnitName ''node-1'' (wrapperUnitName ''node-1'' ''01234567-89ab-cdef-0123-456789abcdef'' ''web'') =
     Some (''01234567-89ab-cdef-0123-456789abcdef'', ''web'')"
  using unit_name_roundtrip [of "''01234567-89ab-cdef-0123-456789abcdef''" "''web''" "''node-1''" "[]"]
  by (simp add: str_index_def)

section \<open>D-Bus object paths\<close>

definition byte :: "char \<Rightarrow> nat" where "byte c = of_char c"

definition is_alpha :: "char \<Rightarrow> bool" where
  "is_alpha c \<longleftrightarrow> 97 \<le> byte c \<and> byte c \<le> 122 \<or> 65 \<le> byte c \<and> byte c \<le> 90"

definition is_digit :: "char \<Rightarrow> bool" where
  "is_digit c \<longleftrightarrow> 48 \<le> byte c \<and> byte c \<le> 57"

text \<open>The verb \<open>%02x\<close> for a byte.\<close>

definition hex_digit :: "nat \<Rightarrow> char" where
  "hex_digit n = char_of (if n < 10 then 48 + n else 87 + n)"

definition hex2 :: "char \<Rightarrow> string" where
  "hex2 c = [hex_digit (byte c div 16), hex_digit (byte c mod 16)]"

fun dbus_escape_from :: "nat \<Rightarrow> string \<Rightarrow> string" where
  "dbus_escape_from i [] = []"
| "dbus_escape_from i (c # cs) = (if is_alpha c \<or> is_digit c \<and> i > 0 then [c] else CHR ''_'' # hex2 c)
     @ dbus_escape_from (Suc i) cs"

definition dbusUnitEscape :: "string \<Rightarrow> string" where
  "dbusUnitEscape name = dbus_escape_from 0 name"

definition unhex :: "char \<Rightarrow> int" where
  "unhex c = (if 48 \<le> byte c \<and> byte c \<le> 57 then int (byte c) - 48
     else if 97 \<le> byte c \<and> byte c \<le> 102 then int (byte c) - 97 + 10
     else if 65 \<le> byte c \<and> byte c \<le> 70 then int (byte c) - 65 + 10
     else -1)"

fun dbus_unescape_loop :: "string \<Rightarrow> string" where
  "dbus_unescape_loop [] = []"
| "dbus_unescape_loop (c # cs) =
     (if c = CHR ''_'' then
        (case cs of
           h # l # rest \<Rightarrow> if 0 \<le> unhex h \<and> 0 \<le> unhex l
             then char_of (nat (unhex h * 16 + unhex l)) # dbus_unescape_loop rest
             else c # dbus_unescape_loop cs
         | _ \<Rightarrow> c # dbus_unescape_loop cs)
      else c # dbus_unescape_loop cs)"

definition dbusUnitUnescape :: "string \<Rightarrow> string" where
  "dbusUnitUnescape escaped = (if escaped = ''_'' then [] else dbus_unescape_loop escaped)"

lemma unhex_hex_digit: "n < 16 \<Longrightarrow> unhex (hex_digit n) = int n"
  by (simp add: unhex_def hex_digit_def byte_def)

lemma byte_less: "byte c < 256"
  by (simp add: byte_def)

lemma unescape_hex2: "dbus_unescape_loop (CHR ''_'' # hex2 c @ s) = c # dbus_unescape_loop s"
proof -
  have "byte c div 16 < 16" using byte_less [of c] by simp
  moreover have "nat (int (byte c div 16) * 16 + int (byte c mod 16)) = byte c"
    using div_mult_mod_eq [of "byte c" 16] by linarith
  then have "char_of (nat (int (byte c div 16) * 16 + int (byte c mod 16))) = c" by (simp add: byte_def)
  ultimately show ?thesis by (simp add: hex2_def unhex_hex_digit)
qed

lemma underscore_escaped: "\<not> is_alpha CHR ''_''" "\<not> is_digit CHR ''_''"
  by (simp_all add: is_alpha_def is_digit_def byte_def)

lemma unescape_escape_from: "dbus_unescape_loop (dbus_escape_from i s) = s"
proof (induction i s rule: dbus_escape_from.induct)
  case (2 i c cs)
  have "c \<noteq> CHR ''_''" if "is_alpha c \<or> is_digit c \<and> i > 0"
    using that underscore_escaped by blast
  with 2 unescape_hex2 [of c "dbus_escape_from (Suc i) cs"] show ?case by simp
qed simp

text \<open>Unescaping a D-Bus object path component undoes escaping, for every unit name; the
  escaped name consists of letters, digits and underscores and does not begin with a digit.\<close>

lemma dbus_roundtrip:
  "dbusUnitUnescape (dbusUnitEscape name) = name \<and>
   list_all (\<lambda>c. is_alpha c \<or> is_digit c \<or> c = CHR ''_'') (dbusUnitEscape name) \<and>
   (dbusUnitEscape name = [] \<or> \<not> is_digit (hd (dbusUnitEscape name)))"
proof (intro conjI)
  show "dbusUnitUnescape (dbusUnitEscape name) = name"
  proof (cases "dbusUnitEscape name = ''_''")
    case True
    then show ?thesis by (cases name) (auto simp: dbusUnitEscape_def hex2_def underscore_escaped split: if_splits)
  qed (simp add: dbusUnitUnescape_def dbusUnitEscape_def unescape_escape_from)
  have h: "is_alpha (hex_digit n) \<or> is_digit (hex_digit n)" if "n < 16" for n
    using that by (simp add: hex_digit_def is_alpha_def is_digit_def byte_def)
  have "list_all (\<lambda>c. is_alpha c \<or> is_digit c \<or> c = CHR ''_'') (dbus_escape_from i s)" for i s
  proof (induction i s rule: dbus_escape_from.induct)
    case (2 i c cs)
    have "byte c div 16 < 16" using byte_less [of c] by simp
    with 2 h [of "byte c div 16"] h [of "byte c mod 16"] show ?case by (auto simp: hex2_def)
  qed simp
  then show "list_all (\<lambda>c. is_alpha c \<or> is_digit c \<or> c = CHR ''_'') (dbusUnitEscape name)"
    by (simp add: dbusUnitEscape_def)
  have "\<not> is_digit c" if "is_alpha c" for c using that by (auto simp: is_alpha_def is_digit_def)
  then show "dbusUnitEscape name = [] \<or> \<not> is_digit (hd (dbusUnitEscape name))"
    by (cases name) (auto simp: dbusUnitEscape_def underscore_escaped)
qed

theorem dbus_roundtrip_witness:
  "dbusUnitUnescape (dbusUnitEscape ''1a.service'') = ''1a.service'' \<and>
   dbusUnitEscape ''1a.service'' \<noteq> [] \<and> \<not> is_digit (hd (dbusUnitEscape ''1a.service''))"
  using dbus_roundtrip [of "''1a.service''"]
  by (auto simp: dbusUnitEscape_def hex2_def)

end
