(* ===== verification/Foci_State.thy ===== *)
theory Foci_State
  imports Unit_Names
begin

text \<open>
  The flat per-pod state of the state machine (\<open>internal/foci/state.go\<close>), its creation
  from an admitted pod, and its conversion to the status that is written to Kubernetes
  (\<open>internal/foci/convert.go\<close>). A clock reading of the source (\<open>time.Now()\<close>) is an
  argument of the definition.
\<close>

section \<open>Container and pod state\<close>

datatype ContainerPhase = PhaseCreating | PhaseRunning | PhaseTerminated | PhaseCrashLoopBackOff

fun ContainerPhase_String :: "ContainerPhase \<Rightarrow> string" where
  "ContainerPhase_String PhaseCreating = ''ContainerCreating''"
| "ContainerPhase_String PhaseRunning = ''Running''"
| "ContainerPhase_String PhaseTerminated = ''Terminated''"
| "ContainerPhase_String PhaseCrashLoopBackOff = ''CrashLoopBackOff''"

record ProbeSpec =
  InitialDelaySeconds :: int
  PeriodSeconds :: int
  TimeoutSeconds :: int
  SuccessThreshold :: int
  FailureThreshold :: int

definition zero_ProbeSpec :: ProbeSpec where
  "zero_ProbeSpec = \<lparr>InitialDelaySeconds = 0, PeriodSeconds = 0, TimeoutSeconds = 0,
     SuccessThreshold = 0, FailureThreshold = 0\<rparr>"

record ContainerSpec =
  cs_Name :: string
  cs_Image :: string
  cs_HasReadinessProbe :: bool
  cs_HasLivenessProbe :: bool
  cs_HasStartupProbe :: bool
  cs_ReadinessProbe :: ProbeSpec
  cs_LivenessProbe :: ProbeSpec
  cs_StartupProbe :: ProbeSpec

record PodSpec =
  spec_RestartPolicy :: RestartPolicy
  spec_Containers :: "ContainerSpec list"

record ContainerState =
  cv_Name :: string
  cv_Image :: string
  cv_Phase :: ContainerPhase
  cv_Ready :: bool
  cv_RestartCount :: int
  cv_SeenRunning :: bool
  cv_Restarting :: bool
  cv_Backoff :: duration
  cv_LastStarted :: gotime
  cv_ExitCode :: int
  cv_ExitReason :: string
  cv_StartupPassed :: bool

record PodState =
  st_UID :: string
  st_Namespace :: string
  st_Name :: string
  st_PodIP :: string
  st_Spec :: PodSpec
  st_Phase :: PodPhase
  st_Containers :: "ContainerState list"

text \<open>The zero value of \<open>PodState\<close>: what a Go map returns for a key it does not have.\<close>

definition zero_PodState :: PodState where
  "zero_PodState = \<lparr>st_UID = [], st_Namespace = [], st_Name = [], st_PodIP = [],
     st_Spec = \<lparr>spec_RestartPolicy = [], spec_Containers = []\<rparr>, st_Phase = [], st_Containers = []\<rparr>"

definition FindContainer :: "PodState \<Rightarrow> string \<Rightarrow> int" where
  "FindContainer s name = find_from (\<lambda>c. cv_Name c = name) 0 (st_Containers s)"

definition FindSpec :: "PodState \<Rightarrow> string \<Rightarrow> int" where
  "FindSpec s name = find_from (\<lambda>c. cs_Name c = name) 0 (spec_Containers (st_Spec s))"

definition RestartBackoffInit :: duration where "RestartBackoffInit = 10 * Second"
definition MaxBackoff :: duration where "MaxBackoff = 5 * Minute"
definition RestartBackoffReset :: duration where "RestartBackoffReset = 10 * Minute"

lemmas backoff_consts = RestartBackoffInit_def MaxBackoff_def RestartBackoffReset_def

section \<open>Admission\<close>

definition probe_spec :: "probe \<Rightarrow> ProbeSpec" where
  "probe_spec p = \<lparr>InitialDelaySeconds = p_InitialDelaySeconds p, PeriodSeconds = p_PeriodSeconds p,
     TimeoutSeconds = p_TimeoutSeconds p, SuccessThreshold = p_SuccessThreshold p,
     FailureThreshold = p_FailureThreshold p\<rparr>"

definition container_spec :: "container \<Rightarrow> ContainerSpec" where
  "container_spec c = \<lparr>
     cs_Name = c_Name c, cs_Image = c_Image c,
     cs_HasReadinessProbe = (c_ReadinessProbe c \<noteq> None),
     cs_HasLivenessProbe = (c_LivenessProbe c \<noteq> None),
     cs_HasStartupProbe = (c_StartupProbe c \<noteq> None),
     cs_ReadinessProbe = (case c_ReadinessProbe c of None \<Rightarrow> zero_ProbeSpec | Some p \<Rightarrow> probe_spec p),
     cs_LivenessProbe = (case c_LivenessProbe c of None \<Rightarrow> zero_ProbeSpec | Some p \<Rightarrow> probe_spec p),
     cs_StartupProbe = (case c_StartupProbe c of None \<Rightarrow> zero_ProbeSpec | Some p \<Rightarrow> probe_spec p)\<rparr>"

definition NewPodSpec :: "pod \<Rightarrow> PodSpec" where
  "NewPodSpec pod = \<lparr>spec_RestartPolicy = pod_RestartPolicy pod,
     spec_Containers = map container_spec (pod_Containers pod)\<rparr>"

definition new_container :: "gotime \<Rightarrow> ContainerSpec \<Rightarrow> ContainerState" where
  "new_container now cs = \<lparr>cv_Name = cs_Name cs, cv_Image = cs_Image cs, cv_Phase = PhaseCreating,
     cv_Ready = (\<not> cs_HasReadinessProbe cs), cv_RestartCount = 0, cv_SeenRunning = False,
     cv_Restarting = False, cv_Backoff = RestartBackoffInit, cv_LastStarted = now,
     cv_ExitCode = 0, cv_ExitReason = [], cv_StartupPassed = False\<rparr>"

definition NewPodState :: "gotime \<Rightarrow> string \<Rightarrow> string \<Rightarrow> string \<Rightarrow> string \<Rightarrow> pod \<Rightarrow> PodState" where
  "NewPodState now uid namespace name podIP pod = (let spec = NewPodSpec pod in
     \<lparr>st_UID = uid, st_Namespace = namespace, st_Name = name, st_PodIP = podIP, st_Spec = spec,
      st_Phase = PodPending, st_Containers = map (new_container now) (spec_Containers spec)\<rparr>)"

section \<open>Conversion to the API status\<close>

definition containerStateToPayload :: "gotime \<Rightarrow> ContainerState \<Rightarrow> ContainerStatePayload" where
  "containerStateToPayload now cv = (case cv_Phase cv of
     PhaseCreating \<Rightarrow>
       \<lparr>csp_Waiting = Some ''ContainerCreating'', csp_Running = None, csp_Terminated = None\<rparr>
   | PhaseRunning \<Rightarrow>
       \<lparr>csp_Waiting = None, csp_Running = Some (cv_LastStarted cv), csp_Terminated = None\<rparr>
   | PhaseTerminated \<Rightarrow>
       \<lparr>csp_Waiting = None, csp_Running = None, csp_Terminated = Some
         \<lparr>tp_ExitCode = cv_ExitCode cv, tp_Reason = cv_ExitReason cv,
          tp_StartedAt = cv_LastStarted cv, tp_FinishedAt = now\<rparr>\<rparr>
   | PhaseCrashLoopBackOff \<Rightarrow>
       \<lparr>csp_Waiting = Some ''CrashLoopBackOff'', csp_Running = None, csp_Terminated = None\<rparr>)"

definition container_payload :: "gotime \<Rightarrow> ContainerState \<Rightarrow> ContainerStatusPayload" where
  "container_payload now cv = \<lparr>cp_Name = cv_Name cv, cp_Image = cv_Image cv, cp_Ready = cv_Ready cv,
     cp_RestartCount = cv_RestartCount cv, cp_State = containerStateToPayload now cv\<rparr>"

definition BuildPodStatusPayload :: "gotime \<Rightarrow> PodState \<Rightarrow> PodStatusPayload" where
  "BuildPodStatusPayload now state =
     (let containerStatuses = map (container_payload now) (st_Containers state);
          readyCondition = (if list_all cp_Ready containerStatuses then ConditionTrue else ConditionFalse)
      in \<lparr>pp_Phase = st_Phase state, pp_Conditions = [(PodReady, readyCondition)],
          pp_ContainerStatuses = containerStatuses,
          pp_HostIP = st_PodIP state, pp_PodIP = st_PodIP state\<rparr>)"

definition payloadToContainerState :: "ContainerStatePayload \<Rightarrow> container_state_v1" where
  "payloadToContainerState p = (case csp_Waiting p of
     Some r \<Rightarrow> \<lparr>Waiting = Some r, Running = None, Terminated = None\<rparr>
   | None \<Rightarrow> (case csp_Running p of
       Some t \<Rightarrow> \<lparr>Waiting = None, Running = Some t, Terminated = None\<rparr>
     | None \<Rightarrow> (case csp_Terminated p of
         Some t \<Rightarrow> \<lparr>Waiting = None, Running = None, Terminated = Some
           \<lparr>st_ExitCode = tp_ExitCode t, st_Reason = tp_Reason t,
            st_StartedAt = tp_StartedAt t, st_FinishedAt = tp_FinishedAt t\<rparr>\<rparr>
       | None \<Rightarrow> \<lparr>Waiting = Some ''ContainerCreating'', Running = None, Terminated = None\<rparr>)))"

definition payload_container_status :: "ContainerStatusPayload \<Rightarrow> container_status" where
  "payload_container_status cs = \<lparr>s_Name = cp_Name cs, s_Image = cp_Image cs, s_Ready = cp_Ready cs,
     s_RestartCount = cp_RestartCount cs, s_State = payloadToContainerState (cp_State cs)\<rparr>"

definition PodStatusPayloadToCorev1 :: "PodStatusPayload \<Rightarrow> pod_status" where
  "PodStatusPayloadToCorev1 payload = \<lparr>ps_Phase = pp_Phase payload, ps_Reason = [], ps_Message = [],
     ps_Conditions = map (\<lambda>c. (fst c, snd c)) (pp_Conditions payload),
     ps_ContainerStatuses = map payload_container_status (pp_ContainerStatuses payload),
     ps_InitContainerStatuses = [], ps_HostIP = pp_HostIP payload, ps_PodIP = pp_PodIP payload,
     ps_PodIPs = [], ps_StartTime = None\<rparr>"

section \<open>Searching the container list\<close>

lemma FindContainer_found:
  assumes "FindContainer s n \<noteq> -1"
  shows "nat (FindContainer s n) < length (st_Containers s)"
    and "cv_Name (st_Containers s ! nat (FindContainer s n)) = n"
  using find_from_0_found [of "\<lambda>c. cv_Name c = n" "st_Containers s"] assms
  by (simp_all add: FindContainer_def)

lemma FindContainer_iff: "FindContainer s n \<noteq> -1 \<longleftrightarrow> n \<in> cv_Name ` set (st_Containers s)"
  by (auto simp: FindContainer_def find_from_neq_iff)

section \<open>The state invariant\<close>

text \<open>
  \<open>aligned\<close> is the comment of \<open>PodState.Containers\<close>: indexed the same as
  \<open>Spec.Containers\<close>. \<open>wf_container\<close> bounds what a container accumulates: the backoff
  stays between its initial value and its cap, the counters stay in 32 bits.
\<close>

definition wf_container :: "ContainerState \<Rightarrow> bool" where
  "wf_container cv \<longleftrightarrow> RestartBackoffInit \<le> cv_Backoff cv \<and> cv_Backoff cv \<le> MaxBackoff
     \<and> in_int32 (cv_RestartCount cv)"

definition aligned :: "PodState \<Rightarrow> bool" where
  "aligned s \<longleftrightarrow> map cv_Name (st_Containers s) = map cs_Name (spec_Containers (st_Spec s))"

definition wf_PodState :: "PodState \<Rightarrow> bool" where
  "wf_PodState s \<longleftrightarrow> aligned s \<and> list_all wf_container (st_Containers s)"

lemma wf_new_container [simp]: "wf_container (new_container now cs)"
  by (simp add: wf_container_def new_container_def backoff_consts in_int32_def)

lemma new_container_Name [simp]: "cv_Name (new_container now cs) = cs_Name cs"
  by (simp add: new_container_def)

lemma wf_zero_PodState [simp]: "wf_PodState zero_PodState"
  by (simp add: wf_PodState_def aligned_def zero_PodState_def)

lemma wf_NewPodState [simp]: "wf_PodState (NewPodState now uid ns n ip p)"
  by (auto simp: wf_PodState_def aligned_def NewPodState_def Let_def list_all_iff)

section \<open>Properties of the conversion\<close>

definition one_state :: "container_state_v1 \<Rightarrow> bool" where
  "one_state s \<longleftrightarrow> length (filter id [Waiting s \<noteq> None, Running s \<noteq> None, Terminated s \<noteq> None]) = 1"

lemma container_roundtrip:
  "payload_container_status (container_payload now cv) =
   \<lparr>s_Name = cv_Name cv, s_Image = cv_Image cv, s_Ready = cv_Ready cv,
    s_RestartCount = cv_RestartCount cv,
    s_State = (case cv_Phase cv of
       PhaseCreating \<Rightarrow> \<lparr>Waiting = Some ''ContainerCreating'', Running = None, Terminated = None\<rparr>
     | PhaseRunning \<Rightarrow> \<lparr>Waiting = None, Running = Some (cv_LastStarted cv), Terminated = None\<rparr>
     | PhaseTerminated \<Rightarrow> \<lparr>Waiting = None, Running = None, Terminated = Some
         \<lparr>st_ExitCode = cv_ExitCode cv, st_Reason = cv_ExitReason cv,
          st_StartedAt = cv_LastStarted cv, st_FinishedAt = now\<rparr>\<rparr>
     | PhaseCrashLoopBackOff \<Rightarrow> \<lparr>Waiting = Some ''CrashLoopBackOff'', Running = None, Terminated = None\<rparr>)\<rparr>"
  by (cases "cv_Phase cv")
    (simp_all add: payload_container_status_def container_payload_def containerStateToPayload_def
      payloadToContainerState_def)

end
