(* ===== verification/Foci_Reduce.thy ===== *)
theory Foci_Reduce
  imports Foci_State
begin

text \<open>
  The transition function of the pod state machine, \<open>internal/foci/reduce.go\<close>: one
  definition per \<open>reduce...Fact\<close> function, \<open>recomputePhase\<close>, \<open>shouldRestart\<close> and the
  dispatcher \<open>Reduce\<close>. The source reads the clock; \<open>t0\<close> is the first reading of a call
  (\<open>LastStarted\<close>), \<open>t1\<close> the later one (the \<open>time.Since\<close> of the poll path, the
  \<open>FinishedAt\<close> of the status payload).

  The source updates the container through a pointer into the slice; the model replaces
  the element in the list and returns the new state.
\<close>

section \<open>Helpers\<close>

definition shouldRestart :: "RestartPolicy \<Rightarrow> int \<Rightarrow> bool" where
  "shouldRestart policy exitCode =
     (if policy = RestartPolicyAlways then True
      else if policy = RestartPolicyOnFailure then exitCode \<noteq> 0
      else False)"

definition min_duration :: "duration \<Rightarrow> duration \<Rightarrow> duration" where
  "min_duration a b = (if a < b then a else b)"

definition set_container :: "PodState \<Rightarrow> nat \<Rightarrow> ContainerState \<Rightarrow> PodState" where
  "set_container s i cv = s\<lparr>st_Containers := (st_Containers s)[i := cv]\<rparr>"

text \<open>The three statements every restart decision shares: mark the container restarting,
  count the restart (in 32 bits) and double the backoff (in 64 bits) up to the cap.\<close>

definition bump_restart :: "ContainerState \<Rightarrow> ContainerState" where
  "bump_restart cv = cv\<lparr>cv_Restarting := True, cv_RestartCount := int32 (cv_RestartCount cv + 1),
     cv_Backoff := min_duration (int64 (cv_Backoff cv * 2)) MaxBackoff\<rparr>"

definition restart_effect :: "PodState \<Rightarrow> string \<Rightarrow> ContainerState \<Rightarrow> Effect" where
  "restart_effect s name cv = RestartContainer (st_UID s) (st_Namespace s) (st_Name s) name
     (cv_RestartCount cv) (cv_Backoff cv)"

section \<open>Phase computation\<close>

record phase_flags =
  anyRunning :: bool
  anyCreating :: bool
  anyRestarting :: bool
  allTerminated :: bool
  allSucceeded :: bool

definition phase_flags_step :: "ContainerState \<Rightarrow> phase_flags \<Rightarrow> phase_flags" where
  "phase_flags_step cv f = (case cv_Phase cv of
     PhaseRunning \<Rightarrow> f\<lparr>anyRunning := True, allTerminated := False\<rparr>
   | PhaseCreating \<Rightarrow> f\<lparr>anyCreating := True, allTerminated := False\<rparr>
   | PhaseCrashLoopBackOff \<Rightarrow> f\<lparr>anyRestarting := True, allTerminated := False, allSucceeded := False\<rparr>
   | PhaseTerminated \<Rightarrow> (if cv_ExitCode cv \<noteq> 0 then f\<lparr>allSucceeded := False\<rparr> else f))"

definition scan_phases :: "ContainerState list \<Rightarrow> phase_flags" where
  "scan_phases cvs = fold phase_flags_step cvs
     \<lparr>anyRunning = False, anyCreating = False, anyRestarting = False,
      allTerminated = True, allSucceeded = True\<rparr>"

definition compute_phase :: "ContainerState list \<Rightarrow> PodPhase \<Rightarrow> PodPhase" where
  "compute_phase cvs current = (let f = scan_phases cvs in
     if anyRunning f then PodRunning
     else if anyCreating f then PodPending
     else if anyRestarting f then PodRunning
     else if allTerminated f then (if allSucceeded f then PodSucceeded else PodFailed)
     else current)"

definition recomputePhase :: "gotime \<Rightarrow> PodState \<Rightarrow> PodState \<times> Effect list" where
  "recomputePhase t1 s = (let prevPhase = st_Phase s;
       s' = s\<lparr>st_Phase := compute_phase (st_Containers s) (st_Phase s)\<rparr>;
       status = BuildPodStatusPayload t1 s'
     in (s', [UpdateStatus (st_UID s') (st_Namespace s') (st_Name s') status]
         @ (if (st_Phase s' = PodSucceeded \<or> st_Phase s' = PodFailed) \<and> prevPhase \<noteq> st_Phase s'
            then SetPodPhase (st_UID s') (st_Phase s')
                 # map (\<lambda>cv. ResetUnit (st_UID s') (cv_Name cv)) (st_Containers s')
            else [])
         @ [PersistPodState (st_UID s')]))"

text \<open>The end of a handler: recompute and append the status effects if asked to.\<close>

definition finish :: "gotime \<Rightarrow> bool \<Rightarrow> PodState \<Rightarrow> Effect list \<Rightarrow> PodState \<times> Effect list" where
  "finish t1 changed s effects = (if changed
     then (case recomputePhase t1 s of (s', statusEff) \<Rightarrow> (s', effects @ statusEff))
     else (s, effects))"

section \<open>Handlers\<close>

definition reduceUnitFact ::
  "gotime \<Rightarrow> gotime \<Rightarrow> PodState \<Rightarrow> string \<Rightarrow> string \<Rightarrow> int \<Rightarrow> PodState \<times> Effect list" where
  "reduceUnitFact t0 t1 state unitName subState exitCode =
    (let containerName = ParseContainerFromUnit unitName in
     if containerName = [] then (state, [])
     else let idx = FindContainer state containerName in
     if idx = -1 then (state, [])
     else let i = nat idx; cv = st_Containers state ! i; prevPhase = cv_Phase cv in
     if subState = ''running'' then
       let cv1 = cv\<lparr>cv_Phase := PhaseRunning, cv_SeenRunning := True, cv_Restarting := False,
                    cv_LastStarted := t0\<rparr>;
           effects = (if prevPhase \<noteq> PhaseRunning
             then [RecordEvent (st_UID state) EventTypeNormal ''Started''
                     (''Container '' @ containerName @ '' started'')]
             else [])
       in finish t1 (prevPhase \<noteq> cv_Phase cv1 \<or> cv_Phase cv1 = PhaseRunning)
            (set_container state i cv1) effects
     else if subState = ''failed'' then
       let cv1 = cv\<lparr>cv_Phase := PhaseCrashLoopBackOff, cv_ExitCode := exitCode\<rparr>;
           effects = (if prevPhase \<noteq> PhaseCrashLoopBackOff
             then [RecordEvent (st_UID state) EventTypeWarning ''Failed''
                     (''Container '' @ containerName @ '' exited with error (code '' @ itoa exitCode @ '')'')]
             else []);
           restart = shouldRestart (spec_RestartPolicy (st_Spec state)) (cv_ExitCode cv1);
           cv2 = (if restart then bump_restart cv1 else cv1)
       in finish t1 (prevPhase \<noteq> cv_Phase cv2 \<or> cv_Phase cv2 = PhaseRunning)
            (set_container state i cv2)
            (effects @ (if restart then [restart_effect state containerName cv2] else []))
     else if subState = ''start-pre'' \<or> subState = ''start'' \<or> subState = ''start-post'' then
       let cv1 = cv\<lparr>cv_Phase := PhaseCreating\<rparr>
       in finish t1 (prevPhase \<noteq> cv_Phase cv1 \<or> cv_Phase cv1 = PhaseRunning)
            (set_container state i cv1) []
     else if subState = ''stop-sigterm'' \<or> subState = ''stop-watchdog'' then
       (state, [RecordEvent (st_UID state) EventTypeNormal ''Killing''
          (''Container '' @ containerName @ '' received SIGTERM, waiting for graceful exit'')])
     else if subState = ''stop-sigkill'' \<or> subState = ''stop-kill'' then
       (state, [RecordEvent (st_UID state) EventTypeWarning ''Killing''
          (''Container '' @ containerName @ '' grace period expired, sending SIGKILL'')])
     else (state, []))"

definition exit_event :: "PodState \<Rightarrow> string \<Rightarrow> int \<Rightarrow> Effect" where
  "exit_event state container exitCode = (if exitCode = 0
     then RecordEvent (st_UID state) EventTypeNormal ''Completed''
            (''Container '' @ container @ '' exited with code '' @ itoa exitCode)
     else RecordEvent (st_UID state) EventTypeWarning ''Failed''
            (''Container '' @ container @ '' exited with error (code '' @ itoa exitCode @ '')''))"

text \<open>The poll path. A restart is started only if none is under way.\<close>

definition reduceContainerStateFact ::
  "gotime \<Rightarrow> gotime \<Rightarrow> PodState \<Rightarrow> string \<Rightarrow> MachineState \<Rightarrow> int \<Rightarrow> PodState \<times> Effect list" where
  "reduceContainerStateFact t0 t1 state container mstate exitCode =
    (let idx = FindContainer state container in
     if idx = -1 then (state, [])
     else let i = nat idx; cv = st_Containers state ! i; prevPhase = cv_Phase cv in
     (case mstate of
       StateRunning \<Rightarrow>
         let cv1 = cv\<lparr>cv_Phase := PhaseRunning, cv_SeenRunning := True, cv_Restarting := False,
                      cv_LastStarted := t0\<rparr>;
             cv2 = (if cv_LastStarted cv1 \<noteq> 0 \<and> time_sub t1 (cv_LastStarted cv1) > RestartBackoffReset
                    then cv1\<lparr>cv_Backoff := RestartBackoffInit\<rparr> else cv1)
         in finish t1 (prevPhase \<noteq> cv_Phase cv2) (set_container state i cv2) []
     | StateCreating \<Rightarrow>
         let cv1 = cv\<lparr>cv_Phase := PhaseCreating\<rparr>
         in finish t1 (prevPhase \<noteq> cv_Phase cv1) (set_container state i cv1) []
     | StateFailed \<Rightarrow>
         let cv1 = cv\<lparr>cv_ExitCode := exitCode\<rparr>;
             restart = shouldRestart (spec_RestartPolicy (st_Spec state)) exitCode;
             bump = restart \<and> \<not> cv_Restarting cv1;
             cv2 = (if restart
                    then (let c = cv1\<lparr>cv_Phase := PhaseCrashLoopBackOff\<rparr> in if bump then bump_restart c else c)
                    else cv1\<lparr>cv_Phase := PhaseTerminated, cv_ExitReason := ''Error''\<rparr>);
             effects = (if bump then [restart_effect state container cv2] else [])
               @ (if prevPhase \<noteq> PhaseCrashLoopBackOff
                  then [RecordEvent (st_UID state) EventTypeWarning ''Failed''
                    (''Container '' @ container @ '' exited with error (code '' @ itoa exitCode @ '')'')]
                  else [])
         in finish t1 (prevPhase \<noteq> cv_Phase cv2) (set_container state i cv2) effects
     | StateExited \<Rightarrow>
         let cv1 = cv\<lparr>cv_ExitCode := exitCode\<rparr>;
             restart = (spec_RestartPolicy (st_Spec state) = RestartPolicyAlways);
             bump = restart \<and> \<not> cv_Restarting cv1;
             cv2 = (if restart
                    then (let c = cv1\<lparr>cv_Phase := PhaseCrashLoopBackOff\<rparr> in if bump then bump_restart c else c)
                    else cv1\<lparr>cv_Phase := PhaseTerminated,
                             cv_ExitReason := (if exitCode = 0 then ''Completed'' else ''Error'')\<rparr>);
             effects = (if bump then [restart_effect state container cv2] else [])
               @ (if prevPhase \<noteq> PhaseTerminated \<and> prevPhase \<noteq> PhaseCrashLoopBackOff
                  then [exit_event state container exitCode] else [])
         in finish t1 (prevPhase \<noteq> cv_Phase cv2) (set_container state i cv2) effects
     | StateUnknown \<Rightarrow>
         if cv_Restarting cv then (state, [])
         else if cv_SeenRunning cv then
           let cv1 = cv\<lparr>cv_Phase := PhaseTerminated, cv_ExitCode := 0, cv_ExitReason := ''Completed''\<rparr>
           in finish t1 (prevPhase \<noteq> cv_Phase cv1) (set_container state i cv1) []
         else (state, [])))"

definition reduceExitFact ::
  "gotime \<Rightarrow> PodState \<Rightarrow> string \<Rightarrow> int \<Rightarrow> string \<Rightarrow> bool \<Rightarrow> PodState \<times> Effect list" where
  "reduceExitFact t1 state container exitCode reason willRestart =
    (let idx = FindContainer state container in
     if idx = -1 then (state, [])
     else let i = nat idx; cv = st_Containers state ! i in
     if \<not> cv_SeenRunning cv then (set_container state i (cv\<lparr>cv_Phase := PhaseCreating\<rparr>), [])
     else let prevPhase = cv_Phase cv;
       cv1 = (if willRestart
              then bump_restart (cv\<lparr>cv_Phase := PhaseCrashLoopBackOff\<rparr>)
              else cv\<lparr>cv_Phase := PhaseTerminated, cv_ExitCode := exitCode,
                      cv_ExitReason := (if reason = []
                        then (if exitCode = 0 then ''Completed'' else ''Error'') else reason)\<rparr>);
       effects = (if willRestart then [restart_effect state container cv1] else [])
     in finish t1 (prevPhase \<noteq> cv_Phase cv1) (set_container state i cv1) effects)"

definition reduceProbeFact ::
  "gotime \<Rightarrow> PodState \<Rightarrow> string \<Rightarrow> string \<Rightarrow> bool \<Rightarrow> bool \<Rightarrow> PodState \<times> Effect list" where
  "reduceProbeFact t1 state container probeType ready startupPassed =
    (let idx = FindContainer state container in
     if idx = -1 then (state, [])
     else let i = nat idx; cv = st_Containers state ! i; wasReady = cv_Ready cv;
       cv1 = (if probeType = ''readiness'' then cv\<lparr>cv_Ready := ready\<rparr>
              else if probeType = ''startup'' then cv\<lparr>cv_StartupPassed := startupPassed\<rparr>
              else cv);
       effects = (if wasReady \<noteq> cv_Ready cv1 \<and> cv_Ready cv1
         then [RecordEvent (st_UID state) EventTypeNormal ''ProbeReady''
                 (''Container '' @ container @ '' passed readiness probe'')]
         else [])
     in finish t1 (wasReady \<noteq> cv_Ready cv1) (set_container state i cv1) effects)"

definition sync_container :: "gotime \<Rightarrow> PodState \<Rightarrow> ContainerSpec \<Rightarrow> ContainerState" where
  "sync_container t0 state cs = (let idx = FindContainer state (cs_Name cs) in
     if idx \<noteq> -1 then (st_Containers state ! nat idx)\<lparr>cv_Image := cs_Image cs\<rparr>
     else new_container t0 cs)"

definition reduceSpecFact ::
  "gotime \<Rightarrow> gotime \<Rightarrow> PodState \<Rightarrow> pod option \<Rightarrow> PodState \<times> Effect list" where
  "reduceSpecFact t0 t1 state pod = (case pod of
     None \<Rightarrow> (state, [])
   | Some p \<Rightarrow> let newSpec = NewPodSpec p; s1 = state\<lparr>st_Spec := newSpec\<rparr>;
       newContainers = map (sync_container t0 s1) (spec_Containers newSpec)
     in recomputePhase t1 (s1\<lparr>st_Containers := newContainers\<rparr>))"

definition reducePodAdmitFact ::
  "gotime \<Rightarrow> gotime \<Rightarrow> PodState \<Rightarrow> string \<Rightarrow> string \<Rightarrow> string \<Rightarrow> string \<Rightarrow> pod \<Rightarrow> PodState \<times> Effect list" where
  "reducePodAdmitFact t0 t1 state uid namespace name podIP pod =
    (if st_UID state \<noteq> [] then reduceSpecFact t0 t1 state (Some pod)
     else let newState = NewPodState t0 uid namespace name podIP pod;
       containers = map (\<lambda>cs. \<lparr>ci_Name = cs_Name cs, ci_HasReadinessProbe = cs_HasReadinessProbe cs\<rparr>)
                      (spec_Containers (st_Spec newState))
     in (newState, [InitRestartState uid namespace name containers, PersistPodState uid]))"

definition reducePodEvictFact :: "PodState \<Rightarrow> PodState \<times> Effect list" where
  "reducePodEvictFact state =
     (zero_PodState, map (\<lambda>cv. ResetUnit (st_UID state) (cv_Name cv)) (st_Containers state))"

definition reduceMarkRunningFact :: "PodState \<Rightarrow> string \<Rightarrow> PodState \<times> Effect list" where
  "reduceMarkRunningFact state containerName = (let idx = FindContainer state containerName in
     if idx = -1 then (state, [])
     else (set_container state (nat idx) ((st_Containers state ! nat idx)\<lparr>cv_SeenRunning := True\<rparr>), []))"

definition reduceBackoffResetFact :: "PodState \<Rightarrow> string \<Rightarrow> PodState \<times> Effect list" where
  "reduceBackoffResetFact state containerName = (let idx = FindContainer state containerName in
     if idx = -1 then (state, [])
     else (set_container state (nat idx)
             ((st_Containers state ! nat idx)\<lparr>cv_Backoff := RestartBackoffInit\<rparr>), []))"

definition Reduce :: "gotime \<Rightarrow> gotime \<Rightarrow> PodState \<Rightarrow> Fact \<Rightarrow> PodState \<times> Effect list" where
  "Reduce t0 t1 state f = (if st_UID state = [] then (state, []) else (case f of
     UnitFact uid u sub ec \<Rightarrow> reduceUnitFact t0 t1 state u sub ec
   | ContainerStateFact uid c ms ec \<Rightarrow> reduceContainerStateFact t0 t1 state c ms ec
   | ExitFact uid c ec r wr \<Rightarrow> reduceExitFact t1 state c ec r wr
   | ProbeFact uid c pt succ ready sp st ft \<Rightarrow> reduceProbeFact t1 state c pt ready sp
   | SpecFact uid ns n p \<Rightarrow> reduceSpecFact t0 t1 state p
   | PodAdmitFact uid ns n ip p \<Rightarrow> reducePodAdmitFact t0 t1 state uid ns n ip p
   | PodEvictFact uid \<Rightarrow> reducePodEvictFact state
   | MarkRunningFact uid c \<Rightarrow> reduceMarkRunningFact state c
   | BackoffResetFact uid c \<Rightarrow> reduceBackoffResetFact state c))"

end
