(* ===== verification/Foci_Props.thy ===== *)
theory Foci_Props
  imports Foci_Reduce
begin

text \<open>
  Properties of the pod state machine. The library part describes every handler by one
  of two shapes: it returns the state unchanged, or it replaces the one container the
  fact names and possibly the pod phase (\<open>container_update\<close>). The invariant, the frame
  properties and the effect properties follow from the shapes.
\<close>

section \<open>Building blocks\<close>

lemma set_container_sel [simp]:
  "st_UID (set_container s i cv) = st_UID s"
  "st_Namespace (set_container s i cv) = st_Namespace s"
  "st_Name (set_container s i cv) = st_Name s"
  "st_PodIP (set_container s i cv) = st_PodIP s"
  "st_Spec (set_container s i cv) = st_Spec s"
  "st_Phase (set_container s i cv) = st_Phase s"
  "st_Containers (set_container s i cv) = (st_Containers s)[i := cv]"
  by (simp_all add: set_container_def)

lemma bump_restart_sel [simp]:
  "cv_Name (bump_restart cv) = cv_Name cv"
  "cv_Phase (bump_restart cv) = cv_Phase cv"
  "cv_Restarting (bump_restart cv)"
  "cv_ExitCode (bump_restart cv) = cv_ExitCode cv"
  by (simp_all add: bump_restart_def)

lemma min_duration_min [simp]: "min_duration a b = min a b"
  by (simp add: min_duration_def min_def)

lemma bump_backoff: "wf_container cv \<Longrightarrow> cv_Backoff (bump_restart cv) = min (2 * cv_Backoff cv) MaxBackoff"
  using int64_id [of "cv_Backoff cv * 2"]
  by (simp add: bump_restart_def wf_container_def in_int64_def backoff_consts mult.commute)

lemma wf_bump_restart: "wf_container cv \<Longrightarrow> wf_container (bump_restart cv)"
  using bump_backoff [of cv] by (auto simp: wf_container_def bump_restart_def backoff_consts)

lemma recomputePhase_state: "fst (recomputePhase t s) = s\<lparr>st_Phase := compute_phase (st_Containers s) (st_Phase s)\<rparr>"
  by (simp add: recomputePhase_def Let_def)

lemma finish_state:
  "fst (finish t b s effs) = (if b then s\<lparr>st_Phase := compute_phase (st_Containers s) (st_Phase s)\<rparr> else s)"
  by (simp add: finish_def recomputePhase_state split: prod.split) (metis fst_conv recomputePhase_state)

lemma finish_effects:
  "snd (finish t b s effs) = effs @ (if b then snd (recomputePhase t s) else [])"
  by (simp add: finish_def split: prod.split)

lemmas finish_simps = finish_state finish_effects

lemma recomputePhase_uid: "e \<in> set (snd (recomputePhase t s)) \<Longrightarrow> effect_uid e = st_UID s"
  by (auto simp: recomputePhase_def Let_def split: if_splits)

lemma recomputePhase_no_restart: "e \<in> set (snd (recomputePhase t s)) \<Longrightarrow> \<not> is_restart e"
  by (auto simp: recomputePhase_def Let_def split: if_splits)

lemma restart_effect_sel [simp]:
  "effect_uid (restart_effect s n cv) = st_UID s" "is_restart (restart_effect s n cv)"
  by (simp_all add: restart_effect_def)

lemma exit_event_sel [simp]:
  "effect_uid (exit_event s n ec) = st_UID s" "\<not> is_restart (exit_event s n ec)"
  by (simp_all add: exit_event_def)

section \<open>The shape of a handler\<close>

definition container_update :: "PodState \<Rightarrow> string \<Rightarrow> PodState \<Rightarrow> bool" where
  "container_update s n s' \<longleftrightarrow> FindContainer s n \<noteq> -1 \<and>
     (\<exists>cv ph. cv_Name cv = n \<and>
        (wf_container (st_Containers s ! nat (FindContainer s n)) \<longrightarrow> wf_container cv) \<and>
        s' = s\<lparr>st_Containers := (st_Containers s)[nat (FindContainer s n) := cv], st_Phase := ph\<rparr>)"

lemma container_updateI:
  assumes "FindContainer s n \<noteq> -1" and "cv_Name cv = n"
    and "wf_container (st_Containers s ! nat (FindContainer s n)) \<Longrightarrow> wf_container cv"
  shows "container_update s n (fst (finish t b (set_container s (nat (FindContainer s n)) cv) effs))"
proof -
  let ?s = "set_container s (nat (FindContainer s n)) cv"
  have "fst (finish t b ?s effs) = s\<lparr>st_Containers := (st_Containers s)[nat (FindContainer s n) := cv],
      st_Phase := (if b then compute_phase (st_Containers ?s) (st_Phase s) else st_Phase s)\<rparr>"
    by (simp add: finish_state set_container_def)
  with assms show ?thesis unfolding container_update_def by blast
qed

lemma container_updateI_plain:
  assumes "FindContainer s n \<noteq> -1" and "cv_Name cv = n"
    and "wf_container (st_Containers s ! nat (FindContainer s n)) \<Longrightarrow> wf_container cv"
  shows "container_update s n (set_container s (nat (FindContainer s n)) cv)"
  using container_updateI [OF assms, where b = False] by (simp add: finish_def)

definition unchanged_or :: "PodState \<Rightarrow> string \<Rightarrow> PodState \<Rightarrow> bool" where
  "unchanged_or s n s' \<longleftrightarrow> s' = s \<or> container_update s n s'"

lemma wf_container_simps [simp]:
  "wf_container (cv\<lparr>cv_Phase := p\<rparr>) = wf_container cv"
  "wf_container (cv\<lparr>cv_SeenRunning := b\<rparr>) = wf_container cv"
  "wf_container (cv\<lparr>cv_Restarting := b\<rparr>) = wf_container cv"
  "wf_container (cv\<lparr>cv_LastStarted := t\<rparr>) = wf_container cv"
  "wf_container (cv\<lparr>cv_ExitCode := e\<rparr>) = wf_container cv"
  "wf_container (cv\<lparr>cv_ExitReason := r\<rparr>) = wf_container cv"
  "wf_container (cv\<lparr>cv_Ready := b\<rparr>) = wf_container cv"
  "wf_container (cv\<lparr>cv_StartupPassed := b\<rparr>) = wf_container cv"
  "wf_container (cv\<lparr>cv_Image := im\<rparr>) = wf_container cv"
  by (simp_all add: wf_container_def)

lemma wf_container_reset: "wf_container cv \<Longrightarrow> wf_container (cv\<lparr>cv_Backoff := RestartBackoffInit\<rparr>)"
  by (simp add: wf_container_def backoff_consts)

lemma wf_container_bump [simp]: "wf_container cv \<Longrightarrow> wf_container (bump_restart cv)"
  by (rule wf_bump_restart)

lemma unchanged_or_refl: "unchanged_or s n (fst (s, effs))"
  by (simp add: unchanged_or_def)

lemma unchanged_or_finish:
  assumes "FindContainer s n \<noteq> -1" and "cv_Name cv = n"
    and "wf_container (st_Containers s ! nat (FindContainer s n)) \<Longrightarrow> wf_container cv"
  shows "unchanged_or s n (fst (finish t b (set_container s (nat (FindContainer s n)) cv) effs))"
  using container_updateI [OF assms] by (simp add: unchanged_or_def)

lemma unchanged_or_plain:
  assumes "FindContainer s n \<noteq> -1" and "cv_Name cv = n"
    and "wf_container (st_Containers s ! nat (FindContainer s n)) \<Longrightarrow> wf_container cv"
  shows "unchanged_or s n (fst (set_container s (nat (FindContainer s n)) cv, effs))"
  using container_updateI_plain [OF assms] by (simp add: unchanged_or_def)

lemma unchanged_or_if:
  "(b \<Longrightarrow> unchanged_or s n (fst x)) \<Longrightarrow> (\<not> b \<Longrightarrow> unchanged_or s n (fst y)) \<Longrightarrow>
   unchanged_or s n (fst (if b then x else y))"
  by simp

lemmas handler_shape = unchanged_or_if unchanged_or_refl unchanged_or_finish unchanged_or_plain

lemma reduceUnitFact_shape:
  "unchanged_or s (ParseContainerFromUnit u) (fst (reduceUnitFact t0 t1 s u sub ec))"
  unfolding reduceUnitFact_def Let_def
  by (intro handler_shape) (simp_all add: FindContainer_found wf_container_reset split: if_split)

lemma reduceContainerStateFact_shape:
  "unchanged_or s n (fst (reduceContainerStateFact t0 t1 s n ms ec))"
  unfolding reduceContainerStateFact_def Let_def
  by (cases ms; simp only: MachineState.case; intro handler_shape)
    (simp_all add: FindContainer_found wf_container_reset split: if_split)

lemma reduceExitFact_shape: "unchanged_or s n (fst (reduceExitFact t1 s n ec r wr))"
  unfolding reduceExitFact_def Let_def
  by (intro handler_shape) (simp_all add: FindContainer_found split: if_split)

lemma reduceProbeFact_shape: "unchanged_or s n (fst (reduceProbeFact t1 s n pt b sp))"
  unfolding reduceProbeFact_def Let_def
  by (intro handler_shape) (simp_all add: FindContainer_found split: if_split)

lemma reduceMarkRunningFact_shape: "unchanged_or s n (fst (reduceMarkRunningFact s n))"
  unfolding reduceMarkRunningFact_def Let_def
  by (intro handler_shape) (simp_all add: FindContainer_found)

lemma reduceBackoffResetFact_shape: "unchanged_or s n (fst (reduceBackoffResetFact s n))"
  unfolding reduceBackoffResetFact_def Let_def
  by (intro handler_shape) (simp_all add: FindContainer_found wf_container_reset)

section \<open>The invariant\<close>

lemma container_update_wf:
  assumes "container_update s n s'" and wf: "wf_PodState s"
  shows "wf_PodState s'"
proof -
  let ?i = "nat (FindContainer s n)"
  from assms(1) obtain cv ph where f: "FindContainer s n \<noteq> -1" and nm: "cv_Name cv = n"
    and cv: "wf_container (st_Containers s ! ?i) \<longrightarrow> wf_container cv"
    and s': "s' = s\<lparr>st_Containers := (st_Containers s)[?i := cv], st_Phase := ph\<rparr>"
    by (auto simp: container_update_def)
  note i = FindContainer_found [OF f]
  have "map cv_Name ((st_Containers s)[?i := cv]) = map cv_Name (st_Containers s)"
    using i nm by (simp add: map_update list_update_same_conv)
  moreover have "list_all wf_container ((st_Containers s)[?i := cv])"
    using wf cv i(1) set_update_subset_insert [of "st_Containers s" ?i cv]
    by (auto simp: wf_PodState_def list_all_iff)
  ultimately show ?thesis using wf by (simp add: s' wf_PodState_def aligned_def)
qed

lemma unchanged_or_wf: "unchanged_or s n s' \<Longrightarrow> wf_PodState s \<Longrightarrow> wf_PodState s'"
  by (auto simp: unchanged_or_def container_update_wf)

lemma wf_phase [simp]: "wf_PodState (s\<lparr>st_Phase := p\<rparr>) = wf_PodState s"
  by (simp add: wf_PodState_def aligned_def)

lemma FindContainer_spec [simp]: "FindContainer (s\<lparr>st_Spec := sp\<rparr>) n = FindContainer s n"
  by (simp add: FindContainer_def)

lemma sync_container_Name [simp]: "cv_Name (sync_container t0 s cs) = cs_Name cs"
  by (simp add: sync_container_def Let_def FindContainer_found)

lemma sync_container_wf: "wf_PodState s \<Longrightarrow> wf_container (sync_container t0 (s\<lparr>st_Spec := sp\<rparr>) cs)"
  using FindContainer_found(1) [of s "cs_Name cs"]
  by (simp add: sync_container_def Let_def wf_PodState_def list_all_length)

lemma reduceSpecFact_wf: "wf_PodState s \<Longrightarrow> wf_PodState (fst (reduceSpecFact t0 t1 s p))"
  by (cases p)
    (simp_all add: reduceSpecFact_def Let_def recomputePhase_state wf_PodState_def [of "_\<lparr>st_Containers := _\<rparr>"]
      aligned_def list_all_iff sync_container_wf)

lemma reducePodAdmitFact_wf: "wf_PodState s \<Longrightarrow> wf_PodState (fst (reducePodAdmitFact t0 t1 s u ns n ip p))"
  by (simp add: reducePodAdmitFact_def Let_def reduceSpecFact_wf)

text \<open>The container a fact is about; facts about the whole pod have none.\<close>

fun fact_container :: "Fact \<Rightarrow> string option" where
  "fact_container (UnitFact _ u _ _) = Some (ParseContainerFromUnit u)"
| "fact_container (ContainerStateFact _ c _ _) = Some c"
| "fact_container (ExitFact _ c _ _ _) = Some c"
| "fact_container (ProbeFact _ c _ _ _ _ _ _) = Some c"
| "fact_container (MarkRunningFact _ c) = Some c"
| "fact_container (BackoffResetFact _ c) = Some c"
| "fact_container _ = None"

lemma Reduce_shape: "fact_container f = Some n \<Longrightarrow> unchanged_or s n (fst (Reduce t0 t1 s f))"
  by (cases f)
    (auto simp: Reduce_def unchanged_or_refl [simplified] reduceUnitFact_shape
      reduceContainerStateFact_shape reduceExitFact_shape reduceProbeFact_shape
      reduceMarkRunningFact_shape reduceBackoffResetFact_shape)

lemma wf_Reduce: "wf_PodState s \<Longrightarrow> wf_PodState (fst (Reduce t0 t1 s f))"
proof (cases "fact_container f")
  case (Some n)
  assume "wf_PodState s"
  with Reduce_shape [OF Some] show ?thesis by (rule unchanged_or_wf)
next
  case None
  assume "wf_PodState s"
  with None show ?thesis
    by (cases f) (simp_all add: Reduce_def reduceSpecFact_wf reducePodAdmitFact_wf reducePodEvictFact_def)
qed

section \<open>A sample state\<close>

definition sample_state :: "string \<Rightarrow> string list \<Rightarrow> PodState" where
  "sample_state policy names =
     NewPodState 1 ''u1'' ''default'' ''web'' ''10.0.0.2'' (sample_pod policy names)"

lemmas sample_simps = sample_state_def sample_pod_def sample_container_def NewPodState_def
  NewPodSpec_def container_spec_def new_container_def Let_def

lemma wf_sample_state [simp]: "wf_PodState (sample_state policy names)"
  by (simp add: sample_state_def)

section \<open>Frame\<close>

definition same_identity :: "PodState \<Rightarrow> PodState \<Rightarrow> bool" where
  "same_identity s s' \<longleftrightarrow> st_UID s' = st_UID s \<and> st_Namespace s' = st_Namespace s \<and>
     st_Name s' = st_Name s \<and> st_PodIP s' = st_PodIP s"

lemma container_update_frame:
  assumes "container_update s n s'"
  shows "same_identity s s' \<and> st_Spec s' = st_Spec s \<and>
    length (st_Containers s') = length (st_Containers s) \<and>
    (\<forall>i < length (st_Containers s). cv_Name (st_Containers s ! i) \<noteq> n \<longrightarrow>
       st_Containers s' ! i = st_Containers s ! i)"
  using assms FindContainer_found [of s n]
  by (auto simp: container_update_def same_identity_def nth_list_update)

text \<open>C37: a fact about one container leaves the identity and the spec of the pod and
  every other container as they were.\<close>

theorem Reduce_frame:
  assumes "fact_container f = Some n"
  shows "same_identity s (fst (Reduce t0 t1 s f)) \<and> st_Spec (fst (Reduce t0 t1 s f)) = st_Spec s \<and>
    length (st_Containers (fst (Reduce t0 t1 s f))) = length (st_Containers s) \<and>
    (\<forall>i < length (st_Containers s). cv_Name (st_Containers s ! i) \<noteq> n \<longrightarrow>
       st_Containers (fst (Reduce t0 t1 s f)) ! i = st_Containers s ! i)"
  using Reduce_shape [OF assms, of s t0 t1] container_update_frame [of s n]
  by (auto simp: unchanged_or_def same_identity_def)

theorem Reduce_frame_witness:
  "st_Containers (fst (Reduce 5 6 (sample_state ''Always'' [''a'', ''b''])
     (ContainerStateFact ''u1'' ''b'' StateFailed 1))) ! 0
   = st_Containers (sample_state ''Always'' [''a'', ''b'']) ! 0"
  using Reduce_frame [of "ContainerStateFact ''u1'' ''b'' StateFailed 1" "''b''"
      "sample_state ''Always'' [''a'', ''b'']" 5 6]
  by (simp add: sample_simps)

section \<open>Whose effects\<close>

lemma finish_uid:
  "e \<in> set (snd (finish t b s effs)) \<Longrightarrow> e \<in> set effs \<or> effect_uid e = st_UID s"
  using recomputePhase_uid by (auto simp: finish_effects split: if_splits)

definition effects_of :: "string \<Rightarrow> Effect list \<Rightarrow> bool" where
  "effects_of uid effs \<longleftrightarrow> (\<forall>e \<in> set effs. effect_uid e = uid)"

lemma effects_of_simps [simp]:
  "effects_of u []" "effects_of u (e # es) \<longleftrightarrow> effect_uid e = u \<and> effects_of u es"
  "effects_of u (es @ fs) \<longleftrightarrow> effects_of u es \<and> effects_of u fs"
  by (auto simp: effects_of_def)

lemma effects_of_recompute [simp]: "st_UID s = u \<Longrightarrow> effects_of u (snd (recomputePhase t s))"
  by (auto simp: effects_of_def recomputePhase_uid)

lemma effects_of_finish [simp]:
  "st_UID s = u \<Longrightarrow> effects_of u (snd (finish t b s effs)) = effects_of u effs"
  by (simp add: finish_effects)

lemma effects_of_if: "(b \<Longrightarrow> effects_of u (snd x)) \<Longrightarrow> (\<not> b \<Longrightarrow> effects_of u (snd y)) \<Longrightarrow>
   effects_of u (snd (if b then x else y))"
  by simp

lemma reduceUnitFact_effects: "effects_of (st_UID s) (snd (reduceUnitFact t0 t1 s u sub ec))"
  unfolding reduceUnitFact_def Let_def by (intro effects_of_if) (simp_all split: if_split)

lemma reduceContainerStateFact_effects:
  "effects_of (st_UID s) (snd (reduceContainerStateFact t0 t1 s n ms ec))"
  unfolding reduceContainerStateFact_def Let_def
  by (cases ms; simp only: MachineState.case; intro effects_of_if) (simp_all split: if_split)

lemma reduceExitFact_effects: "effects_of (st_UID s) (snd (reduceExitFact t1 s n ec r wr))"
  unfolding reduceExitFact_def Let_def by (intro effects_of_if) (simp_all split: if_split)

lemma reduceProbeFact_effects: "effects_of (st_UID s) (snd (reduceProbeFact t1 s n pt b sp))"
  unfolding reduceProbeFact_def Let_def by (intro effects_of_if) (simp_all split: if_split)

lemma reduceSpecFact_effects: "effects_of (st_UID s) (snd (reduceSpecFact t0 t1 s p))"
  by (cases p)
    (simp_all add: reduceSpecFact_def Let_def)

lemmas handler_effects = reduceUnitFact_effects reduceContainerStateFact_effects
  reduceExitFact_effects reduceProbeFact_effects reduceSpecFact_effects

text \<open>Every effect of a tracked pod carries the UID of that pod.\<close>

lemma Reduce_effects_uid: "effects_of (st_UID s) (snd (Reduce t0 t1 s f))"
  by (cases f)
    (simp_all add: Reduce_def handler_effects reducePodAdmitFact_def reducePodEvictFact_def
      reduceMarkRunningFact_def reduceBackoffResetFact_def Let_def effects_of_def [of _ "map _ _"])

section \<open>The pod phase\<close>

lemma phase_flags_step_sel:
  "anyRunning (phase_flags_step c f) \<longleftrightarrow> anyRunning f \<or> cv_Phase c = PhaseRunning"
  "anyCreating (phase_flags_step c f) \<longleftrightarrow> anyCreating f \<or> cv_Phase c = PhaseCreating"
  "anyRestarting (phase_flags_step c f) \<longleftrightarrow> anyRestarting f \<or> cv_Phase c = PhaseCrashLoopBackOff"
  "allTerminated (phase_flags_step c f) \<longleftrightarrow> allTerminated f \<and> cv_Phase c = PhaseTerminated"
  "allSucceeded (phase_flags_step c f) \<longleftrightarrow> allSucceeded f \<and> cv_Phase c \<noteq> PhaseCrashLoopBackOff \<and>
     (cv_Phase c = PhaseTerminated \<longrightarrow> cv_ExitCode c = 0)"
  by (cases "cv_Phase c"; simp add: phase_flags_step_def)+

lemma scan_fold:
  "anyRunning (fold phase_flags_step cvs f) \<longleftrightarrow> anyRunning f \<or> (\<exists>c \<in> set cvs. cv_Phase c = PhaseRunning)"
  "anyCreating (fold phase_flags_step cvs f) \<longleftrightarrow> anyCreating f \<or> (\<exists>c \<in> set cvs. cv_Phase c = PhaseCreating)"
  "anyRestarting (fold phase_flags_step cvs f) \<longleftrightarrow>
     anyRestarting f \<or> (\<exists>c \<in> set cvs. cv_Phase c = PhaseCrashLoopBackOff)"
  "allTerminated (fold phase_flags_step cvs f) \<longleftrightarrow>
     allTerminated f \<and> (\<forall>c \<in> set cvs. cv_Phase c = PhaseTerminated)"
  "allSucceeded (fold phase_flags_step cvs f) \<longleftrightarrow> allSucceeded f \<and>
     (\<forall>c \<in> set cvs. cv_Phase c \<noteq> PhaseCrashLoopBackOff \<and> (cv_Phase c = PhaseTerminated \<longrightarrow> cv_ExitCode c = 0))"
  by (induction cvs arbitrary: f) (simp_all add: phase_flags_step_sel disj_assoc conj_assoc)

text \<open>The specification of the pod phase, over the set of containers.\<close>

definition phase_spec :: "ContainerState set \<Rightarrow> PodPhase" where
  "phase_spec C = (if \<exists>c \<in> C. cv_Phase c = PhaseRunning then PodRunning
     else if \<exists>c \<in> C. cv_Phase c = PhaseCreating then PodPending
     else if \<exists>c \<in> C. cv_Phase c = PhaseCrashLoopBackOff then PodRunning
     else if \<forall>c \<in> C. cv_ExitCode c = 0 then PodSucceeded else PodFailed)"

lemma compute_phase_eq: "compute_phase cvs current = phase_spec (set cvs)"
proof -
  let ?P = "\<lambda>p. \<exists>c \<in> set cvs. cv_Phase c = p"
  have tm: "cv_Phase c = PhaseTerminated" if "c \<in> set cvs"
    "\<not> ?P PhaseRunning" "\<not> ?P PhaseCreating" "\<not> ?P PhaseCrashLoopBackOff" for c
    using that by (cases "cv_Phase c") auto
  consider "?P PhaseRunning" | "\<not> ?P PhaseRunning" "?P PhaseCreating"
    | "\<not> ?P PhaseRunning" "\<not> ?P PhaseCreating" "?P PhaseCrashLoopBackOff"
    | "\<not> ?P PhaseRunning" "\<not> ?P PhaseCreating" "\<not> ?P PhaseCrashLoopBackOff" by blast
  then show ?thesis
  proof cases
    case 4
    with tm have "\<forall>c \<in> set cvs. cv_Phase c = PhaseTerminated" by blast
    with 4 show ?thesis
      by (simp add: compute_phase_def Let_def scan_phases_def scan_fold phase_spec_def)
  qed (simp_all add: compute_phase_def Let_def scan_phases_def scan_fold phase_spec_def)
qed


text \<open>A pod with no containers is declared Succeeded; the comment of the default branch
  says its phase is kept, but that branch cannot be reached.\<close>

lemma recomputePhase_no_containers:
  "st_Phase (fst (recomputePhase t (s\<lparr>st_Containers := []\<rparr>))) = PodSucceeded"
  by (simp add: recomputePhase_state compute_phase_eq phase_spec_def)

text \<open>Entering a terminal phase emits exactly one \<open>SetPodPhase\<close> and one \<open>ResetUnit\<close> per
  container, in container order; otherwise neither is emitted. The status update comes
  first and the persist request last.\<close>

lemma recomputePhase_effects:
  "snd (recomputePhase t s) =
    (let s' = s\<lparr>st_Phase := phase_spec (set (st_Containers s))\<rparr> in
     UpdateStatus (st_UID s) (st_Namespace s) (st_Name s) (BuildPodStatusPayload t s')
     # (if (st_Phase s' = PodSucceeded \<or> st_Phase s' = PodFailed) \<and> st_Phase s \<noteq> st_Phase s'
        then SetPodPhase (st_UID s) (st_Phase s')
             # map (\<lambda>cv. ResetUnit (st_UID s) (cv_Name cv)) (st_Containers s)
        else [])
     @ [PersistPodState (st_UID s)])"
  by (simp add: recomputePhase_def Let_def compute_phase_eq)

section \<open>Looking at one container\<close>

definition container_of :: "PodState \<Rightarrow> string \<Rightarrow> ContainerState option" where
  "container_of s n = (let idx = FindContainer s n in
     if idx = -1 then None else Some (st_Containers s ! nat idx))"

lemma container_of_Some:
  "container_of s n = Some cv \<longleftrightarrow> FindContainer s n \<noteq> -1 \<and> st_Containers s ! nat (FindContainer s n) = cv"
  by (auto simp: container_of_def Let_def)

lemma container_of_Name: "container_of s n = Some cv \<Longrightarrow> cv_Name cv = n"
  by (auto simp: container_of_Some FindContainer_found)

lemma find_from_map: "find_from (\<lambda>c. g c = n) i xs = find_from (\<lambda>m. m = n) i (map g xs)"
  by (induction xs arbitrary: i) auto

lemma FindContainer_names:
  "map cv_Name (st_Containers s') = map cv_Name (st_Containers s) \<Longrightarrow> FindContainer s' n = FindContainer s n"
  by (simp add: FindContainer_def find_from_map [of cv_Name])

lemma FindContainer_set_container:
  assumes "FindContainer s n \<noteq> -1" and "cv_Name cv = n"
  shows "FindContainer (set_container s (nat (FindContainer s n)) cv) m = FindContainer s m"
  using FindContainer_found [OF assms(1)] assms(2)
  by (intro FindContainer_names) (simp add: map_update list_update_same_conv)

lemma container_of_phase [simp]: "container_of (s\<lparr>st_Phase := p\<rparr>) = container_of s"
  by (simp add: container_of_def FindContainer_def fun_eq_iff Let_def)

lemma container_of_set_container:
  assumes "FindContainer s n \<noteq> -1" and "cv_Name cv = n"
  shows "container_of (set_container s (nat (FindContainer s n)) cv) n = Some cv"
  using assms FindContainer_found [OF assms(1)]
  by (simp add: container_of_def FindContainer_set_container)

lemma container_of_finish:
  assumes "FindContainer s n \<noteq> -1" and "cv_Name cv = n"
  shows "container_of (fst (finish t b (set_container s (nat (FindContainer s n)) cv) e)) n = Some cv"
  using container_of_set_container [OF assms] by (simp add: finish_state)

end
