(* ===== verification/Foci_Restart.thy ===== *)
theory Foci_Restart
  imports Foci_Props
begin

text \<open>
  Restart decisions, backoff, probes, eviction and spec updates of the state machine.
\<close>

section \<open>Backoff\<close>

fun reduce_all :: "PodState \<Rightarrow> (gotime \<times> gotime \<times> Fact) list \<Rightarrow> PodState" where
  "reduce_all s [] = s"
| "reduce_all s ((t0, t1, f) # fs) = reduce_all (fst (Reduce t0 t1 s f)) fs"

text \<open>C1: from the admission of a pod on, every sequence of facts keeps the state invariant:
  the container list stays indexed like the spec, backoffs stay between 10 seconds and
  5 minutes, restart counters stay in 32 bits.\<close>

theorem reduce_all_wf: "wf_PodState (reduce_all (NewPodState now uid ns name ip p) fs)"
proof -
  have "wf_PodState s \<Longrightarrow> wf_PodState (reduce_all s fs)" for s
    by (induction s fs rule: reduce_all.induct) (simp_all add: wf_Reduce)
  then show ?thesis by simp
qed

lemma reduceExitFact_restart:
  assumes "container_of s n = Some cv" and "cv_SeenRunning cv"
  shows "container_of (fst (reduceExitFact t1 s n ec r True)) n =
    Some (bump_restart (cv\<lparr>cv_Phase := PhaseCrashLoopBackOff\<rparr>))"
  using assms container_of_Name [OF assms(1)]
  by (simp add: reduceExitFact_def Let_def container_of_Some container_of_finish)

lemma Reduce_uid_container:
  "fact_container f = Some n \<Longrightarrow> st_UID (fst (Reduce t0 t1 s f)) = st_UID s"
  using Reduce_shape [of f n s t0 t1] by (auto simp: unchanged_or_def container_update_def)

lemma wf_container_of: "wf_PodState s \<Longrightarrow> container_of s n = Some cv \<Longrightarrow> wf_container cv"
  using FindContainer_found(1) [of s n] by (auto simp: container_of_Some wf_PodState_def list_all_length)

definition restart_exit :: "string \<Rightarrow> Fact \<Rightarrow> bool" where
  "restart_exit n f \<longleftrightarrow> (\<exists>u ec r. f = ExitFact u n ec r True)"

lemma restart_exit_step:
  assumes "restart_exit n f" and "st_UID s \<noteq> []" and "container_of s n = Some cv" and "cv_SeenRunning cv"
  shows "container_of (fst (Reduce t0 t1 s f)) n = Some (bump_restart (cv\<lparr>cv_Phase := PhaseCrashLoopBackOff\<rparr>))"
    and "st_UID (fst (Reduce t0 t1 s f)) \<noteq> []"
proof -
  from assms(1) obtain u ec r where f: "f = ExitFact u n ec r True" by (auto simp: restart_exit_def)
  show "container_of (fst (Reduce t0 t1 s f)) n = Some (bump_restart (cv\<lparr>cv_Phase := PhaseCrashLoopBackOff\<rparr>))"
    using assms by (simp add: f Reduce_def reduceExitFact_restart)
  show "st_UID (fst (Reduce t0 t1 s f)) \<noteq> []"
    using assms(2) Reduce_uid_container [of f n] by (simp add: f)
qed

lemma min_double: "0 \<le> M \<Longrightarrow> min (x * min (2 * b) M) M = min (2 * x * b) M" if "1 \<le> (x::int)" "0 \<le> b"
proof (cases "2 * b \<le> M")
  case True
  then show ?thesis by (simp add: algebra_simps)
next
  case False
  assume "0 \<le> M"
  moreover from that(1) \<open>0 \<le> M\<close> have "M \<le> x * M" by (simp add: mult_le_cancel_right1)
  moreover from that(1) False \<open>0 \<le> M\<close> have "x * M \<le> x * (2 * b)" by (intro mult_left_mono) auto
  ultimately show ?thesis using False by (simp add: mult.assoc mult.left_commute)
qed

text \<open>C19: consecutive restarting exits double the backoff up to the cap of five minutes and
  count one restart each: after \<open>k\<close> of them it is the smaller of \<open>2^k\<close> times the first
  backoff and the cap, and the counter has moved by \<open>k\<close> in 32 bits.\<close>

theorem backoff_doubles:
  assumes "st_UID s \<noteq> []" and "wf_PodState s" and "container_of s n = Some cv" and "cv_SeenRunning cv"
    and "\<forall>(t0, t1, f) \<in> set fs. restart_exit n f"
  shows "\<exists>cv'. container_of (reduce_all s fs) n = Some cv' \<and>
    cv_Backoff cv' = min (2 ^ length fs * cv_Backoff cv) MaxBackoff \<and>
    cv_RestartCount cv' = int32 (cv_RestartCount cv + int (length fs))"
  using assms
proof (induction fs arbitrary: s cv)
  case Nil
  then have "wf_container cv" by (rule_tac wf_container_of)
  with Nil show ?case by (auto simp: wf_container_def int32_id)
next
  case (Cons a fs)
  obtain t0 t1 f where a: "a = (t0, t1, f)" by (cases a)
  let ?s = "fst (Reduce t0 t1 s f)" and ?cv = "bump_restart (cv\<lparr>cv_Phase := PhaseCrashLoopBackOff\<rparr>)"
  from Cons.prems(5) have "restart_exit n f" by (simp add: a)
  note step = restart_exit_step [OF this Cons.prems(1,3,4), of t0 t1]
  have wf: "wf_container cv" using Cons.prems(2,3) by (rule wf_container_of)
  have "cv_SeenRunning ?cv" using Cons.prems(4) by (simp add: bump_restart_def)
  moreover have "\<forall>(t0, t1, f) \<in> set fs. restart_exit n f" using Cons.prems(5) by simp
  ultimately obtain cv' where cv': "container_of (reduce_all ?s fs) n = Some cv'"
      "cv_Backoff cv' = min (2 ^ length fs * cv_Backoff ?cv) MaxBackoff"
      "cv_RestartCount cv' = int32 (cv_RestartCount ?cv + int (length fs))"
    using Cons.IH [OF step(2) wf_Reduce [OF Cons.prems(2)] step(1)] by blast
  have "cv_Backoff ?cv = min (2 * cv_Backoff cv) MaxBackoff"
    using bump_backoff [of "cv\<lparr>cv_Phase := PhaseCrashLoopBackOff\<rparr>"] wf by simp
  moreover have "min (2 ^ length fs * min (2 * cv_Backoff cv) MaxBackoff) MaxBackoff
      = min (2 * 2 ^ length fs * cv_Backoff cv) MaxBackoff"
    using wf by (intro min_double) (auto simp: wf_container_def backoff_consts)
  moreover have "cv_RestartCount ?cv = int32 (cv_RestartCount cv + 1)" by (simp add: bump_restart_def)
  ultimately show ?case using cv' by (simp add: a mult.assoc add.assoc)
qed

theorem backoff_doubles_witness:
  "\<exists>cv'. container_of (reduce_all
       (fst (Reduce 2 3 (sample_state ''Always'' [''a'']) (MarkRunningFact ''u1'' ''a'')))
       (replicate 3 (4, 5, ExitFact ''u1'' ''a'' 1 [] True))) ''a'' = Some cv' \<and>
     cv_Backoff cv' = 80 * Second \<and> cv_RestartCount cv' = 3"
proof -
  let ?s = "fst (Reduce 2 3 (sample_state ''Always'' [''a'']) (MarkRunningFact ''u1'' ''a''))"
  let ?cv = "(new_container 1 (container_spec (sample_container ''a'')))\<lparr>cv_SeenRunning := True\<rparr>"
  have c: "container_of ?s ''a'' = Some ?cv" and u: "st_UID ?s \<noteq> []"
    by (simp_all add: sample_simps Reduce_def reduceMarkRunningFact_def container_of_def
        FindContainer_def set_container_def)
  have "\<forall>(t0, t1, f) \<in> set (replicate 3 (4, 5, ExitFact ''u1'' ''a'' 1 [] True)). restart_exit ''a'' f"
    by (simp add: restart_exit_def)
  from backoff_doubles [OF u wf_Reduce c _ this]
  show ?thesis by (simp add: new_container_def backoff_consts int32_def)
qed

section \<open>Restart decisions\<close>

definition no_restart :: "Effect list \<Rightarrow> bool" where
  "no_restart effs \<longleftrightarrow> (\<forall>e \<in> set effs. \<not> is_restart e)"

lemma no_restart_simps [simp]:
  "no_restart []" "no_restart (e # es) \<longleftrightarrow> \<not> is_restart e \<and> no_restart es"
  "no_restart (es @ fs) \<longleftrightarrow> no_restart es \<and> no_restart fs"
  by (auto simp: no_restart_def)

lemma no_restart_finish [simp]: "no_restart (snd (finish t b s effs)) = no_restart effs"
  using recomputePhase_no_restart [of _ t s] by (auto simp: finish_effects no_restart_def)

lemma no_restart_if: "(b \<Longrightarrow> no_restart (snd x)) \<Longrightarrow> (\<not> b \<Longrightarrow> no_restart (snd y)) \<Longrightarrow>
   no_restart (snd (if b then x else y))"
  by simp

lemma reduceUnitFact_policy:
  "\<not> shouldRestart (spec_RestartPolicy (st_Spec s)) ec \<Longrightarrow> no_restart (snd (reduceUnitFact t0 t1 s u sub ec))"
  unfolding reduceUnitFact_def Let_def by (intro no_restart_if) (simp_all split: if_split)

lemma shouldRestart_Always [simp]: "shouldRestart RestartPolicyAlways ec"
  by (simp add: shouldRestart_def)

lemma reduceContainerStateFact_policy:
  "\<not> shouldRestart (spec_RestartPolicy (st_Spec s)) ec \<Longrightarrow>
   no_restart (snd (reduceContainerStateFact t0 t1 s n ms ec))"
proof -
  assume a: "\<not> shouldRestart (spec_RestartPolicy (st_Spec s)) ec"
  then have "spec_RestartPolicy (st_Spec s) \<noteq> RestartPolicyAlways"
    using shouldRestart_Always [of ec] by metis
  with a show ?thesis
    unfolding reduceContainerStateFact_def Let_def
    by (cases ms; simp only: MachineState.case; intro no_restart_if) (simp_all split: if_split)
qed

text \<open>C15: a systemd signal or a poll result restarts a container only where the restart policy
  of the pod allows it: never under \<open>Never\<close>, and under \<open>OnFailure\<close> only for a non-zero exit
  code.\<close>

theorem restart_respects_policy:
  assumes "f = UnitFact uid u sub ec \<or> f = ContainerStateFact uid n ms ec"
    and "RestartContainer x ns p c k d \<in> set (snd (Reduce t0 t1 s f))"
  shows "spec_RestartPolicy (st_Spec s) = RestartPolicyAlways \<or>
    (spec_RestartPolicy (st_Spec s) = RestartPolicyOnFailure \<and> ec \<noteq> 0)"
proof (rule ccontr)
  assume "\<not> ?thesis"
  then have "\<not> shouldRestart (spec_RestartPolicy (st_Spec s)) ec" by (auto simp: shouldRestart_def)
  then have "no_restart (snd (Reduce t0 t1 s f))"
    using assms(1) by (auto simp: Reduce_def reduceUnitFact_policy reduceContainerStateFact_policy)
  with assms(2) show False by (auto simp: no_restart_def)
qed

theorem restart_respects_policy_witness:
  "RestartContainer ''u1'' ''default'' ''web'' ''a'' 1 (20 * Second) \<in> set (snd (Reduce 5 6
      (sample_state ''OnFailure'' [''a'']) (ContainerStateFact ''u1'' ''a'' StateFailed 1)))
   \<and> (''OnFailure'' = RestartPolicyAlways \<or> ''OnFailure'' = RestartPolicyOnFailure \<and> (1::int) \<noteq> 0)"
proof -
  have m: "RestartContainer ''u1'' ''default'' ''web'' ''a'' 1 (20 * Second) \<in> set (snd (Reduce 5 6
      (sample_state ''OnFailure'' [''a'']) (ContainerStateFact ''u1'' ''a'' StateFailed 1)))"
    by (simp add: sample_simps Reduce_def reduceContainerStateFact_def FindContainer_def finish_effects
        shouldRestart_def restart_effect_def bump_restart_def backoff_consts int32_def int64_def)
  show ?thesis
    using m restart_respects_policy [OF _ m, of "''u1''" "''unit''" "''failed''" 1 "''a''" StateFailed]
    by (simp add: sample_simps)
qed

text \<open>The poll path starts a restart once: while a container is marked as restarting, no
  further poll result for it, whatever its state and exit code, emits another
  \<open>RestartContainer\<close> or counts another restart.\<close>

lemma poll_restarts_once:
  assumes "container_of s n = Some cv" and "cv_Restarting cv"
  shows "no_restart (snd (Reduce t0 t1 s (ContainerStateFact uid n ms ec))) \<and>
    map_option cv_RestartCount (container_of (fst (Reduce t0 t1 s (ContainerStateFact uid n ms ec))) n)
      = Some (cv_RestartCount cv)"
proof
  have r: "cv_Restarting (st_Containers s ! nat (FindContainer s n))" and f: "FindContainer s n \<noteq> -1"
    and cv: "cv = st_Containers s ! nat (FindContainer s n)"
    using assms by (auto simp: container_of_Some)
  show "no_restart (snd (Reduce t0 t1 s (ContainerStateFact uid n ms ec)))"
    using r by (cases ms) (simp_all add: Reduce_def reduceContainerStateFact_def Let_def split: if_split)
  show "map_option cv_RestartCount (container_of (fst (Reduce t0 t1 s (ContainerStateFact uid n ms ec))) n)
      = Some (cv_RestartCount cv)"
    using r f assms(1) FindContainer_found(2) [OF f]
    by (cases ms)
      (simp_all add: Reduce_def reduceContainerStateFact_def Let_def container_of_finish cv split: if_split)
qed

theorem poll_restarts_once_witness:
  "no_restart (snd (Reduce 7 8 (fst (Reduce 5 6 (sample_state ''Always'' [''a''])
      (ContainerStateFact ''u1'' ''a'' StateFailed 1))) (ContainerStateFact ''u1'' ''a'' StateFailed 1)))"
proof -
  let ?s = "fst (Reduce 5 6 (sample_state ''Always'' [''a'']) (ContainerStateFact ''u1'' ''a'' StateFailed 1))"
  have "container_of ?s ''a'' = Some (bump_restart ((new_container 1
      (container_spec (sample_container ''a'')))\<lparr>cv_ExitCode := 1, cv_Phase := PhaseCrashLoopBackOff\<rparr>))"
    by (simp add: sample_simps Reduce_def reduceContainerStateFact_def FindContainer_def finish_state
        container_of_def set_container_def shouldRestart_def)
  from poll_restarts_once [OF this] show ?thesis by simp
qed

end
