(* ===== verification/Foci_Facts.thy ===== *)
theory Foci_Facts
  imports Foci_Restart
begin

text \<open>
  The behaviour of single facts (failed units, poll results, probes, spec updates) and
  what the written status says about the state machine.
\<close>

section \<open>Lookup as a search\<close>

lemma find_from_find: "(if find_from P 0 xs = -1 then None else Some (xs ! nat (find_from P 0 xs))) = find P xs"
proof -
  from find_from_cases [of P 0 xs]
  consider "find_from P 0 xs = -1" "\<forall>x \<in> set xs. \<not> P x"
    | k where "k < length xs" "find_from P 0 xs = int k" "P (xs ! k)" "\<forall>j < k. \<not> P (xs ! j)" by auto
  then show ?thesis
  proof cases
    case 1
    then have "find P xs = None" by (auto simp: find_None_iff)
    with 1 show ?thesis by simp
  next
    case (2 k)
    then have "find P xs = Some (xs ! k)" by (auto simp: find_Some_iff)
    with 2 show ?thesis by simp
  qed
qed

lemma container_of_find: "container_of s n = find (\<lambda>cv. cv_Name cv = n) (st_Containers s)"
  using find_from_find [of "\<lambda>cv. cv_Name cv = n" "st_Containers s"]
  by (simp add: container_of_def FindContainer_def Let_def)

lemma find_map_eq: "find P (map f xs) = map_option f (find (\<lambda>x. P (f x)) xs)"
  by (induction xs) auto

section \<open>Failed units under the policy Never\<close>

lemma single_container:
  assumes "st_Containers s = [cv]" and "cv_Name cv = n"
  shows "FindContainer s n = 0"
  using assms by (simp add: FindContainer_def)

text \<open>The two paths that observe the same failure disagree. For a pod with policy \<open>Never\<close>
  and one container, the poll result Failed makes the pod Failed; the systemd signal
  \<open>failed\<close> puts the container into CrashLoopBackOff without restarting it and leaves the
  pod Running.\<close>

lemma never_policy_disagreement:
  assumes "st_UID s \<noteq> []" and "spec_RestartPolicy (st_Spec s) = RestartPolicyNever"
    and "st_Containers s = [cv]" and "cv_Name cv = ParseContainerFromUnit u"
    and "ParseContainerFromUnit u \<noteq> []" and "cv_Phase cv = PhaseRunning" and "ec \<noteq> 0"
  shows "st_Phase (fst (Reduce t0 t1 s (UnitFact uid u ''failed'' ec))) = PodRunning \<and>
    no_restart (snd (Reduce t0 t1 s (UnitFact uid u ''failed'' ec))) \<and>
    st_Phase (fst (Reduce t0 t1 s (ContainerStateFact uid (cv_Name cv) StateFailed ec))) = PodFailed"
  using assms single_container [OF assms(3,4)]
  by (simp add: Reduce_def reduceUnitFact_def reduceContainerStateFact_def Let_def shouldRestart_def
      finish_state compute_phase_eq phase_spec_def)

lemma sample_unit_name:
  "ParseContainerFromUnit (wrapperUnitName ''p1'' (replicate 36 CHR ''0'') ''a'') = ''a''"
  by (rule ParseContainerFromUnit_wrapper) (simp_all add: str_index_def)

definition running_never :: PodState where
  "running_never = fst (Reduce 2 3 (sample_state ''Never'' [''a''])
     (ContainerStateFact ''u1'' ''a'' StateRunning 0))"

theorem never_policy_disagreement_witness:
  "st_Phase (fst (Reduce 5 6 running_never
      (UnitFact ''u1'' (wrapperUnitName ''p1'' (replicate 36 CHR ''0'') ''a'') ''failed'' 1))) = PodRunning"
proof -
  let ?cv = "(new_container 1 (container_spec (sample_container ''a'')))
    \<lparr>cv_Phase := PhaseRunning, cv_SeenRunning := True, cv_LastStarted := 2\<rparr>"
  have s: "st_UID running_never = ''u1''" "spec_RestartPolicy (st_Spec running_never) = ''Never''"
    "st_Containers running_never = [?cv]"
    by (simp_all add: running_never_def sample_simps Reduce_def reduceContainerStateFact_def FindContainer_def
        finish_state set_container_def time_sub_def backoff_consts)
  from never_policy_disagreement [of running_never ?cv
      "wrapperUnitName ''p1'' (replicate 36 CHR ''0'') ''a''" 1 5 6 "''u1''"] s sample_unit_name
  show ?thesis by (simp add: sample_container_def container_spec_def)
qed

section \<open>The poll path and the backoff\<close>

text \<open>A poll result Running never resets the backoff, however long the container has been
  running: \<open>LastStarted\<close> is overwritten with the current time just before its age is
  tested, so the reset would need ten minutes to pass between the two clock readings.\<close>

lemma poll_running_keeps_backoff:
  assumes "container_of s n = Some cv" and "t1 - t0 \<le> RestartBackoffReset"
  shows "map_option cv_Backoff (container_of (fst (Reduce t0 t1 s (ContainerStateFact uid n StateRunning ec))) n)
    = Some (cv_Backoff cv)"
proof -
  have f: "FindContainer s n \<noteq> -1" and cv: "st_Containers s ! nat (FindContainer s n) = cv"
    using assms(1) by (auto simp: container_of_Some)
  have "\<not> RestartBackoffReset < time_sub t1 t0"
    using assms(2) by (simp add: time_sub_def backoff_consts)
  then show ?thesis
    using assms(1) f cv FindContainer_found(2) [OF f]
    by (simp add: Reduce_def reduceContainerStateFact_def Let_def container_of_finish)
qed

lemma poll_running_keeps_backoff_witness:
  "map_option cv_Backoff (container_of (fst (Reduce (10 ^ 20) (10 ^ 20 + 1) (sample_state ''Always'' [''a''])
     (ContainerStateFact ''u1'' ''a'' StateRunning 0))) ''a'') = Some RestartBackoffInit"
proof -
  have "container_of (sample_state ''Always'' [''a'']) ''a''
      = Some (new_container 1 (container_spec (sample_container ''a'')))"
    by (simp add: sample_simps container_of_find)
  from poll_running_keeps_backoff [OF this, of "10 ^ 20 + 1" "10 ^ 20" "''u1''" 0]
  show ?thesis by (simp add: new_container_def backoff_consts)
qed

section \<open>Probe results\<close>

text \<open>A liveness result changes nothing and emits nothing, so no liveness failure is ever
  turned into a restart by the state machine.\<close>

lemma liveness_fact_ignored:
  "Reduce t0 t1 s (ProbeFact uid n ''liveness'' succ ready startup st ft) = (s, [])"
  by (simp add: Reduce_def reduceProbeFact_def Let_def finish_def set_container_def)

text \<open>A readiness result sets the readiness of the container, and status effects are
  emitted exactly when the readiness changed.\<close>

lemma readiness_fact:
  assumes "st_UID s \<noteq> []" and "container_of s n = Some cv"
  shows "container_of (fst (Reduce t0 t1 s (ProbeFact uid n ''readiness'' succ ready startup st ft))) n
      = Some (cv\<lparr>cv_Ready := ready\<rparr>) \<and>
    (snd (Reduce t0 t1 s (ProbeFact uid n ''readiness'' succ ready startup st ft)) = [] \<longleftrightarrow> ready = cv_Ready cv)"
proof -
  have f: "FindContainer s n \<noteq> -1" and cv: "st_Containers s ! nat (FindContainer s n) = cv"
    using assms(2) by (auto simp: container_of_Some)
  have "snd (recomputePhase t s') \<noteq> []" for t s'
    by (simp add: recomputePhase_def Let_def)
  then show ?thesis
    using assms(1) f cv FindContainer_found(2) [OF f]
    by (auto simp: Reduce_def reduceProbeFact_def Let_def container_of_finish finish_effects)
qed

theorem readiness_fact_witness:
  "container_of (fst (Reduce 2 3 (sample_state ''Always'' [''a''])
      (ProbeFact ''u1'' ''a'' ''readiness'' False False False 1 3))) ''a''
    = Some ((new_container 1 (container_spec (sample_container ''a'')))\<lparr>cv_Ready := False\<rparr>)"
  using readiness_fact [of "sample_state ''Always'' [''a'']" "''a''"
      "new_container 1 (container_spec (sample_container ''a''))" 2 3 "''u1''" False False False 1 3]
  by (simp add: sample_simps container_of_find)

section \<open>Spec updates\<close>

text \<open>A spec update keeps the running state of every container that stays (only its image
  changes), starts new containers in Creating and drops the others; where a name repeats
  the first entry counts.\<close>

lemma spec_update_containers:
  assumes "st_UID s \<noteq> []"
  shows "container_of (fst (Reduce t0 t1 s (SpecFact uid ns nm (Some p)))) n =
    (case find (\<lambda>c. c_Name c = n) (pod_Containers p) of
       None \<Rightarrow> None
     | Some c \<Rightarrow> Some (case container_of s n of
         Some cv \<Rightarrow> cv\<lparr>cv_Image := c_Image c\<rparr>
       | None \<Rightarrow> new_container t0 (container_spec c)))"
proof -
  let ?s = "s\<lparr>st_Spec := NewPodSpec p\<rparr>"
  have sync: "sync_container t0 ?s (container_spec c) = (case container_of s n of
         Some cv \<Rightarrow> cv\<lparr>cv_Image := c_Image c\<rparr>
       | None \<Rightarrow> new_container t0 (container_spec c))" if "c_Name c = n" for c
    using that by (simp add: sync_container_def container_of_def Let_def container_spec_def)
  have "container_of (fst (Reduce t0 t1 s (SpecFact uid ns nm (Some p)))) n =
      find (\<lambda>cv. cv_Name cv = n) (map (sync_container t0 ?s) (map container_spec (pod_Containers p)))"
    using assms by (simp add: Reduce_def reduceSpecFact_def Let_def recomputePhase_state container_of_find NewPodSpec_def)
  also have "\<dots> = map_option (\<lambda>c. sync_container t0 ?s (container_spec c))
      (find (\<lambda>c. c_Name c = n) (pod_Containers p))"
    by (simp add: find_map_eq option.map_comp comp_def container_spec_def)
  finally show ?thesis
    using sync by (auto simp: find_Some_iff split: option.split)
qed

theorem spec_update_containers_witness:
  "container_of (fst (Reduce 2 3 (sample_state ''Always'' [''a''])
      (SpecFact ''u1'' ''default'' ''web'' (Some (sample_pod ''Always'' [''b'', ''a'']))))) ''b''
    = Some (new_container 2 (container_spec (sample_container ''b'')))"
  using spec_update_containers [of "sample_state ''Always'' [''a'']" 2 3 "''u1''" "''default''" "''web''"
      "sample_pod ''Always'' [''b'', ''a'']" "''b''"]
  by (simp add: sample_simps container_of_find)

section \<open>The written status\<close>

definition decode_phase :: "container_state_v1 \<Rightarrow> ContainerPhase" where
  "decode_phase c = (if Waiting c = Some ''CrashLoopBackOff'' then PhaseCrashLoopBackOff
     else if Waiting c \<noteq> None then PhaseCreating
     else if Running c \<noteq> None then PhaseRunning else PhaseTerminated)"

lemma container_status_decode:
  "decode_phase (s_State (payload_container_status (container_payload t cv))) = cv_Phase cv"
  "one_state (s_State (payload_container_status (container_payload t cv)))"
  "s_Name (payload_container_status (container_payload t cv)) = cv_Name cv"
  "s_RestartCount (payload_container_status (container_payload t cv)) = cv_RestartCount cv"
  by (cases "cv_Phase cv"; simp add: container_roundtrip decode_phase_def one_state_def)+


end
