(* ===== verification/Mailbox.thy ===== *)
theory Mailbox
  imports Main
begin

text \<open>
  The contract of a bounded, closable, non-blocking inbox, as Syzygy and Horizon both
  have one: a message is accepted exactly when the inbox is open and not full, accepted
  messages keep their order, and closing changes nothing but the flag.
\<close>

locale mailbox =
  fixes send :: "'m \<Rightarrow> 's \<Rightarrow> bool \<times> 's"
    and close :: "'s \<Rightarrow> 's"
    and content :: "'s \<Rightarrow> 'm list"
    and closed :: "'s \<Rightarrow> bool"
    and cap :: nat
  assumes send_ok: "fst (send m s) \<longleftrightarrow> \<not> closed s \<and> length (content s) < cap"
    and send_content: "content (snd (send m s)) = (if fst (send m s) then content s @ [m] else content s)"
    and send_closed: "closed (snd (send m s)) = closed s"
    and close_content: "content (close s) = content s"
    and close_closed: "closed (close s)"
begin

fun send_all :: "'m list \<Rightarrow> 's \<Rightarrow> 's" where
  "send_all [] s = s"
| "send_all (m # ms) s = send_all ms (snd (send m s))"

lemma send_bounded: "length (content s) \<le> cap \<Longrightarrow> length (content (snd (send m s))) \<le> cap"
  using send_ok [of m s] by (auto simp: send_content)

lemma send_full: "cap \<le> length (content s) \<Longrightarrow> content (snd (send m s)) = content s"
  using send_ok [of m s] by (auto simp: send_content)

lemma closed_rejects: "closed s \<Longrightarrow> \<not> fst (send m s) \<and> content (snd (send m s)) = content s"
  using send_ok [of m s] by (auto simp: send_content)

text \<open>A burst of messages: the longest prefix that fits is accepted in order, the rest is dropped.\<close>

lemma send_all_open:
  "\<not> closed s \<Longrightarrow> length (content s) \<le> cap \<Longrightarrow>
   content (send_all ms s) = content s @ take (cap - length (content s)) ms"
proof (induction ms arbitrary: s)
  case (Cons m ms)
  then have IH: "content (send_all ms (snd (send m s))) = content (snd (send m s))
      @ take (cap - length (content (snd (send m s)))) ms"
    by (intro Cons.IH) (simp_all add: send_closed send_bounded)
  show ?case
  proof (cases "length (content s) < cap")
    case True
    with Cons.prems(1) have "fst (send m s)" by (simp add: send_ok)
    then have "content (snd (send m s)) = content s @ [m]" by (simp add: send_content)
    moreover have "take (cap - length (content s)) (m # ms) = m # take (cap - Suc (length (content s))) ms"
      using True by (simp add: take_Cons' Suc_diff_Suc [symmetric])
    ultimately show ?thesis using IH by simp
  next
    case False
    with Cons.prems IH show ?thesis by (simp add: send_full)
  qed
qed simp

lemma send_all_closed: "closed s \<Longrightarrow> content (send_all ms s) = content s"
  by (induction ms arbitrary: s) (simp_all add: send_closed closed_rejects)

end

end
