(* ===== verification/Horizon.thy ===== *)
theory Horizon
  imports Foci_State Mailbox
begin

text \<open>
  The executor of Kubernetes effects, \<open>internal/horizon/horizon.go\<close>. The API server is not
  part of the source: \<open>get\<close> and \<open>update\<close> (the \<open>Get\<close> and \<open>UpdateStatus\<close> calls of the typed
  client) are arguments over an arbitrary world, which they may change. What the code sends
  to the outside is returned as a list: the pods passed to \<open>UpdateStatus\<close>, and the calls
  of the injected callbacks.
\<close>

section \<open>The inbox\<close>

record Horizon =
  hz_inbox :: "Effect list"
  hz_closed :: bool

definition horizon_cap :: nat where "horizon_cap = 1024"

definition NewHorizon :: Horizon where
  "NewHorizon = \<lparr>hz_inbox = [], hz_closed = False\<rparr>"

text \<open>\<open>Send\<close> reads the closed flag under the lock, then offers the effect to the channel; a
  send on a channel that was closed in between panics and is recovered. The first argument
  is the flag that was read.\<close>

definition Horizon_Send_at :: "bool \<Rightarrow> Effect \<Rightarrow> Horizon \<Rightarrow> bool \<times> Horizon" where
  "Horizon_Send_at closed eff h = (if closed then (False, h)
     else if hz_closed h then (False, h)
     else if length (hz_inbox h) < horizon_cap then (True, h\<lparr>hz_inbox := hz_inbox h @ [eff]\<rparr>)
     else (False, h))"

definition Horizon_Send :: "Effect \<Rightarrow> Horizon \<Rightarrow> bool \<times> Horizon" where
  "Horizon_Send eff h = Horizon_Send_at (hz_closed h) eff h"

definition Horizon_close :: "Horizon \<Rightarrow> Horizon" where
  "Horizon_close h = (if \<not> hz_closed h then h\<lparr>hz_closed := True\<rparr> else h)"

interpretation hz: mailbox Horizon_Send Horizon_close hz_inbox hz_closed horizon_cap
  by unfold_locales (simp_all add: Horizon_Send_def Horizon_Send_at_def Horizon_close_def)

text \<open>The flag read earlier does not matter: closing is final, so the result is that of an
  atomic send at the moment of the channel operation.\<close>

lemma Horizon_Send_at_atomic: "(closed \<Longrightarrow> hz_closed h) \<Longrightarrow> Horizon_Send_at closed eff h = Horizon_Send eff h"
  by (auto simp: Horizon_Send_def Horizon_Send_at_def)

section \<open>Writing the pod status\<close>

datatype api_error = NotFound | Conflict | OtherError string

definition maxRetries :: nat where "maxRetries = 5"

fun writePodStatus_from ::
  "('w \<Rightarrow> string \<Rightarrow> string \<Rightarrow> (api_error + pod) \<times> 'w) \<Rightarrow> ('w \<Rightarrow> pod \<Rightarrow> (api_error + pod) \<times> 'w) \<Rightarrow>
   string \<Rightarrow> string \<Rightarrow> string \<Rightarrow> pod_status \<Rightarrow> nat list \<Rightarrow> 'w \<Rightarrow> api_error option \<times> pod list \<times> 'w" where
  "writePodStatus_from get update uid ns name status [] w = (None, [], w)"
| "writePodStatus_from get update uid ns name status (attempt # attempts) w =
     (case get w ns name of
        (Inl err, w1) \<Rightarrow> (if err = NotFound then (None, [], w1) else (Some err, [], w1))
      | (Inr current, w1) \<Rightarrow>
          if pod_UID current \<noteq> uid then (None, [], w1)
          else let upd = current\<lparr>pod_Status := status\<rparr> in
          (case update w1 upd of
             (Inr _, w2) \<Rightarrow> (None, [upd], w2)
           | (Inl err, w2) \<Rightarrow>
               if err = NotFound then (None, [upd], w2)
               else if err = Conflict then
                 (if attempt < maxRetries - 1
                  then (case writePodStatus_from get update uid ns name status attempts w2 of
                      (r, sent, w3) \<Rightarrow> (r, upd # sent, w3))
                  else (None, [upd], w2))
               else (Some err, [upd], w2)))"

definition writePodStatus ::
  "('w \<Rightarrow> string \<Rightarrow> string \<Rightarrow> (api_error + pod) \<times> 'w) \<Rightarrow> ('w \<Rightarrow> pod \<Rightarrow> (api_error + pod) \<times> 'w) \<Rightarrow>
   string \<Rightarrow> string \<Rightarrow> string \<Rightarrow> pod_status \<Rightarrow> 'w \<Rightarrow> api_error option \<times> pod list \<times> 'w" where
  "writePodStatus get update uid ns name status w =
     writePodStatus_from get update uid ns name status [0..<maxRetries] w"

section \<open>Executing effects\<close>

text \<open>The calls of the injected callbacks.\<close>

datatype HorizonCall =
    CallRestartContainer string string string string int duration
  | CallResetUnit string string
  | CallRecordEvent string string string string

definition executeEffect ::
  "('w \<Rightarrow> string \<Rightarrow> string \<Rightarrow> (api_error + pod) \<times> 'w) \<Rightarrow> ('w \<Rightarrow> pod \<Rightarrow> (api_error + pod) \<times> 'w) \<Rightarrow>
   Effect \<Rightarrow> 'w \<Rightarrow> HorizonCall list \<times> pod list \<times> 'w" where
  "executeEffect get update eff w = (case eff of
     UpdateStatus uid ns name status \<Rightarrow>
       (case writePodStatus get update uid ns name (PodStatusPayloadToCorev1 status) w of
          (_, sent, w') \<Rightarrow> ([], sent, w'))
   | RestartContainer uid ns p c count backoff \<Rightarrow> ([CallRestartContainer uid ns p c count backoff], [], w)
   | ResetUnit uid c \<Rightarrow> ([CallResetUnit uid c], [], w)
   | RecordEvent uid ty r m \<Rightarrow> ([CallRecordEvent uid ty r m], [], w)
   | SetPodPhase _ _ \<Rightarrow> ([], [], w)
   | PersistPodState _ \<Rightarrow> ([], [], w)
   | InitRestartState _ _ _ _ \<Rightarrow> ([], [], w))"

text \<open>\<open>EventRecorderAdapter\<close>: an event for an unknown pod is dropped.\<close>

definition EventRecorderAdapter ::
  "(string \<Rightarrow> pod option) \<Rightarrow> string \<Rightarrow> string \<Rightarrow> string \<Rightarrow> string \<Rightarrow> (pod \<times> string \<times> string \<times> string) option" where
  "EventRecorderAdapter getPod uid eventType reason message = (case getPod uid of
     None \<Rightarrow> None | Some p \<Rightarrow> Some (p, eventType, reason, message))"

section \<open>Properties of the status write\<close>

definition guarded :: "string \<Rightarrow> pod_status \<Rightarrow> pod list \<Rightarrow> bool" where
  "guarded uid status sent \<longleftrightarrow> list_all (\<lambda>p. pod_UID p = uid \<and> pod_Status p = status) sent"

lemma guarded_simps [simp]:
  "guarded uid st []" "guarded uid st (p # ps) \<longleftrightarrow> pod_UID p = uid \<and> pod_Status p = st \<and> guarded uid st ps"
  by (simp_all add: guarded_def)

lemma writePodStatus_from_sent:
  "writePodStatus_from get update uid ns name status as w = (r, sent, w') \<Longrightarrow>
   guarded uid status sent \<and> length sent \<le> length as"
  by (induction get update uid ns name status as w arbitrary: r sent w' rule: writePodStatus_from.induct)
    (auto simp: Let_def split: prod.splits sum.splits if_splits)

lemma writePodStatus_from_error:
  "writePodStatus_from get update uid ns name status as w = (Some e, sent, w') \<Longrightarrow> e \<noteq> NotFound"
  by (induction get update uid ns name status as w arbitrary: sent w' rule: writePodStatus_from.induct)
    (auto simp: Let_def split: prod.splits sum.splits if_splits)

text \<open>C16: a status write sends at most five updates, each of them to a pod that had the UID of
  the effect when it was read and each carrying exactly the computed status; so a pod that was
  replaced under the same name is never written.\<close>

theorem writePodStatus_guard:
  "case writePodStatus get update uid ns name status w of
     (r, sent, w') \<Rightarrow> guarded uid status sent \<and> length sent \<le> 5 \<and> r \<noteq> Some NotFound"
  using writePodStatus_from_sent [of get update uid ns name status "[0..<maxRetries]" w]
    writePodStatus_from_error [of get update uid ns name status "[0..<maxRetries]" w NotFound]
  by (auto simp: writePodStatus_def maxRetries_def split: prod.splits)

lemma writePodStatus_from_conflict:
  assumes "\<And>w. \<exists>p w'. get w ns name = (Inr p, w') \<and> pod_UID p = uid" and "\<And>w p. \<exists>w'. update w p = (Inl Conflict, w')"
    and "as = [k..<maxRetries]" and "k < maxRetries"
  shows "\<exists>sent w'. writePodStatus_from get update uid ns name status as w = (None, sent, w')
    \<and> length sent = maxRetries - k"
  using assms(3,4)
proof (induction as arbitrary: k w)
  case (Cons a as)
  from Cons.prems have a: "a = k" "as = [Suc k..<maxRetries]" by (auto simp: upt_conv_Cons)
  obtain p w1 where g: "get w ns name = (Inr p, w1)" "pod_UID p = uid" using assms(1) by blast
  obtain w2 where u: "update w1 (p\<lparr>pod_Status := status\<rparr>) = (Inl Conflict, w2)" using assms(2) by blast
  show ?case
  proof (cases "k < maxRetries - 1")
    case True
    then have "Suc k < maxRetries" by simp
    then obtain sent w' where "writePodStatus_from get update uid ns name status as w2 = (None, sent, w')"
        "length sent = maxRetries - Suc k" using Cons.IH [OF a(2)] by blast
    with True g u a Cons.prems(2) show ?thesis by (simp add: Let_def)
  next
    case False
    with Cons.prems(2) have "maxRetries - k = 1" by simp
    with False g u a show ?thesis by (simp add: Let_def)
  qed
qed (simp add: upt_conv_Cons)

text \<open>Against a server that answers every update with a conflict the write gives up after
  exactly five attempts and reports success.\<close>

lemma writePodStatus_gives_up:
  assumes "\<And>w. \<exists>p w'. get w ns name = (Inr p, w') \<and> pod_UID p = uid"
    and "\<And>w p. \<exists>w'. update w p = (Inl Conflict, w')"
  shows "\<exists>sent w'. writePodStatus get update uid ns name status w = (None, sent, w') \<and> length sent = 5"
  using writePodStatus_from_conflict [of get ns name uid update "[0..<maxRetries]" 0 status w] assms
  by (simp add: writePodStatus_def maxRetries_def)

lemma writePodStatus_gives_up_witness:
  "\<exists>sent w'. writePodStatus (\<lambda>w ns n. (Inr (sample_pod ''Always'' [''a'']), Suc w)) (\<lambda>w p. (Inl Conflict, w))
      ''u1'' ''default'' ''web'' empty_status (0::nat) = (None, sent, w') \<and> length sent = 5"
  by (rule writePodStatus_gives_up) (auto simp: sample_pod_def)

end
