(* ===== verification/Syzygy.thy ===== *)
theory Syzygy
  imports Foci_Props Horizon
begin

text \<open>
  The event loop that owns all pod states, \<open>internal/syzygy/syzygy.go\<close>: the inbox of
  facts, the map from pod UID to state, the bounded effects channel, and the routing of
  effects to the local callbacks or to Horizon. The loop \<open>Run\<close>, its worker pool and the
  Horizon inbox are a step relation; an effect taken by a worker stays in flight until
  that worker dispatches it, so workers can overtake each other.
\<close>

section \<open>State and operations\<close>

record Syzygy =
  sz_inbox :: "Fact list"
  sz_effects :: "Effect list"
  sz_closed :: bool
  sz_states :: "string \<rightharpoonup> PodState"

definition inbox_cap :: nat where "inbox_cap = 2048"
definition effectsBuf :: nat where "effectsBuf = 16384"
definition defaultEffectWorkers :: nat where "defaultEffectWorkers = 4"

definition NewSyzygy :: Syzygy where
  "NewSyzygy = \<lparr>sz_inbox = [], sz_effects = [], sz_closed = False, sz_states = Map.empty\<rparr>"

text \<open>As in Horizon, the first argument is the closed flag read before the channel operation.\<close>

definition Syzygy_Send_at :: "bool \<Rightarrow> Fact \<Rightarrow> Syzygy \<Rightarrow> bool \<times> Syzygy" where
  "Syzygy_Send_at closed f s = (if closed then (False, s)
     else if sz_closed s then (False, s)
     else if length (sz_inbox s) < inbox_cap then (True, s\<lparr>sz_inbox := sz_inbox s @ [f]\<rparr>)
     else (False, s))"

definition Syzygy_Send :: "Fact \<Rightarrow> Syzygy \<Rightarrow> bool \<times> Syzygy" where
  "Syzygy_Send f s = Syzygy_Send_at (sz_closed s) f s"

definition Syzygy_close :: "Syzygy \<Rightarrow> Syzygy" where
  "Syzygy_close s = (if \<not> sz_closed s then s\<lparr>sz_closed := True\<rparr> else s)"

interpretation sz: mailbox Syzygy_Send Syzygy_close sz_inbox sz_closed inbox_cap
  by unfold_locales (simp_all add: Syzygy_Send_def Syzygy_Send_at_def Syzygy_close_def)

text \<open>The non-blocking push into the effects channel.\<close>

definition push_effect :: "Effect \<Rightarrow> Syzygy \<Rightarrow> Syzygy" where
  "push_effect eff s = (if length (sz_effects s) < effectsBuf
     then s\<lparr>sz_effects := sz_effects s @ [eff]\<rparr> else s)"

definition processFact :: "gotime \<Rightarrow> gotime \<Rightarrow> Fact \<Rightarrow> Syzygy \<Rightarrow> Syzygy" where
  "processFact t0 t1 f s = (let uid = UID f in
     if uid = [] then s
     else let currentState = (case sz_states s uid of None \<Rightarrow> zero_PodState | Some p \<Rightarrow> p) in
     case Reduce t0 t1 currentState f of (newState, effects) \<Rightarrow>
       fold push_effect effects
         (if st_UID newState = [] then s\<lparr>sz_states := (sz_states s)(uid := None)\<rparr>
          else s\<lparr>sz_states := (sz_states s)(uid \<mapsto> newState)\<rparr>))"

text \<open>The local callbacks, and the routing of an effect to them or to Horizon.\<close>

datatype LocalCall =
    CallSetPodPhase string PodPhase
  | CallPersistPodState string
  | CallInitRestartState string string string "ContainerInitPayload list"

definition dispatchEffect :: "Effect \<Rightarrow> Horizon \<Rightarrow> LocalCall list \<times> Horizon" where
  "dispatchEffect eff h = (case eff of
     SetPodPhase uid p \<Rightarrow> ([CallSetPodPhase uid p], h)
   | PersistPodState uid \<Rightarrow> ([CallPersistPodState uid], h)
   | InitRestartState uid ns n cs \<Rightarrow> ([CallInitRestartState uid ns n cs], h)
   | UpdateStatus _ _ _ _ \<Rightarrow> ([], snd (Horizon_Send eff h))
   | RestartContainer _ _ _ _ _ _ \<Rightarrow> ([], snd (Horizon_Send eff h))
   | ResetUnit _ _ \<Rightarrow> ([], snd (Horizon_Send eff h))
   | RecordEvent _ _ _ _ \<Rightarrow> ([], snd (Horizon_Send eff h)))"

definition Syzygy_PodState :: "Syzygy \<Rightarrow> string \<Rightarrow> PodState option" where
  "Syzygy_PodState s uid = sz_states s uid"

section \<open>The contract the loop needs from the state machine\<close>

text \<open>
  A keyed machine: a state knows its key, the state with the empty key is untracked and
  ignores everything, a step keeps the key or drops it, keeps a well-formedness
  predicate, and its outputs belong to the key.
\<close>

locale keyed_machine =
  fixes reduce :: "'st \<Rightarrow> 'f \<Rightarrow> 'st \<times> 'e list"
    and key :: "'st \<Rightarrow> string"
    and zero :: 'st
    and ok :: "'st \<Rightarrow> bool"
    and owner :: "'e \<Rightarrow> string"
  assumes key_zero: "key zero = []"
    and ok_zero: "ok zero"
    and untracked: "key s = [] \<Longrightarrow> reduce s f = (s, [])"
    and key_kept: "key (fst (reduce s f)) = key s \<or> key (fst (reduce s f)) = []"
    and ok_kept: "ok s \<Longrightarrow> ok (fst (reduce s f))"
    and owned: "e \<in> set (snd (reduce s f)) \<Longrightarrow> owner e = key s"
begin

definition look :: "(string \<rightharpoonup> 'st) \<Rightarrow> string \<Rightarrow> 'st" where
  "look m u = (case m u of None \<Rightarrow> zero | Some s \<Rightarrow> s)"

definition advance :: "(string \<rightharpoonup> 'st) \<Rightarrow> string \<Rightarrow> 'f \<Rightarrow> (string \<rightharpoonup> 'st)" where
  "advance m u f = (let s = fst (reduce (look m u) f) in if key s = [] then m(u := None) else m(u \<mapsto> s))"

definition consistent :: "(string \<rightharpoonup> 'st) \<Rightarrow> bool" where
  "consistent m \<longleftrightarrow> (\<forall>u s. m u = Some s \<longrightarrow> key s = u \<and> u \<noteq> [] \<and> ok s)"

lemma consistent_empty: "consistent Map.empty"
  by (simp add: consistent_def)

lemma look_None: "m u = None \<Longrightarrow> look m u = zero"
  by (simp add: look_def)

lemma look_key: "consistent m \<Longrightarrow> m u \<noteq> None \<Longrightarrow> key (look m u) = u \<and> ok (look m u)"
  by (auto simp: consistent_def look_def)

lemma advance_None: "m u = None \<Longrightarrow> advance m u f = m"
  by (auto simp: advance_def Let_def look_None untracked [OF key_zero] key_zero fun_upd_idem)

lemma advance_consistent: "consistent m \<Longrightarrow> consistent (advance m u f)"
proof (cases "m u = None")
  case False
  assume c: "consistent m"
  with False have "key (look m u) = u" "ok (look m u)" by (simp_all add: look_key)
  with key_kept [of "look m u" f] ok_kept [of "look m u" f] c show ?thesis
    by (auto simp: advance_def Let_def consistent_def)
qed (simp add: advance_None)

lemma advance_other: "v \<noteq> u \<Longrightarrow> advance m u f v = m v"
  by (simp add: advance_def Let_def)

lemma advance_dom: "dom (advance m u f) \<subseteq> dom m"
proof (cases "m u = None")
  case False
  then show ?thesis by (auto simp: advance_def Let_def split: if_splits)
qed (simp add: advance_None)

lemma outputs_owned:
  "consistent m \<Longrightarrow> e \<in> set (snd (reduce (look m u) f)) \<Longrightarrow> owner e = u"
  using owned [of e "look m u" f] look_key [of m u] untracked [OF key_zero, of f]
  by (cases "m u") (auto simp: look_None)

end

lemma Reduce_key_kept: "st_UID (fst (Reduce t0 t1 s f)) = st_UID s \<or> st_UID (fst (Reduce t0 t1 s f)) = []"
proof (cases "fact_container f")
  case (Some n)
  then show ?thesis using Reduce_shape [OF Some, of s t0 t1] by (auto simp: unchanged_or_def container_update_def)
next
  case None
  then show ?thesis
    by (cases f) (simp_all add: Reduce_def reduceSpecFact_def reducePodAdmitFact_def reducePodEvictFact_def
        recomputePhase_state zero_PodState_def Let_def split: option.split)
qed

abbreviation timed_reduce :: "PodState \<Rightarrow> gotime \<times> gotime \<times> Fact \<Rightarrow> PodState \<times> Effect list" where
  "timed_reduce s tf \<equiv> (case tf of (t0, t1, f) \<Rightarrow> Reduce t0 t1 s f)"

lemma zero_UID [simp]: "st_UID zero_PodState = []"
  by (simp add: zero_PodState_def)

lemma Reduce_untracked: "st_UID s = [] \<Longrightarrow> Reduce t0 t1 s f = (s, [])"
  by (simp add: Reduce_def)

interpretation pods: keyed_machine timed_reduce st_UID zero_PodState wf_PodState effect_uid
proof
  fix e s tf
  assume "e \<in> set (snd (timed_reduce s tf))"
  then show "effect_uid e = st_UID s"
    using Reduce_effects_uid [of s] by (cases tf) (auto simp: effects_of_def)
qed (simp_all add: Reduce_untracked wf_Reduce Reduce_key_kept split: prod.split)

section \<open>Processing facts\<close>

lemma fold_push_effect:
  "fold push_effect effs s = s\<lparr>sz_effects := sz_effects s @ take (effectsBuf - length (sz_effects s)) effs\<rparr>"
proof (induction effs arbitrary: s)
  case (Cons e effs)
  show ?case
  proof (cases "length (sz_effects s) < effectsBuf")
    case True
    then have "take (effectsBuf - length (sz_effects s)) (e # effs)
        = e # take (effectsBuf - Suc (length (sz_effects s))) effs"
      by (simp add: take_Cons' Suc_diff_Suc [symmetric])
    with True Cons show ?thesis by (simp add: push_effect_def)
  qed (use Cons in \<open>simp add: push_effect_def\<close>)
qed simp

lemma processFact_simps:
  assumes "UID f \<noteq> []"
  shows "sz_states (processFact t0 t1 f s) = pods.advance (sz_states s) (UID f) (t0, t1, f)"
    and "sz_effects (processFact t0 t1 f s) = sz_effects s @
      take (effectsBuf - length (sz_effects s)) (snd (Reduce t0 t1 (pods.look (sz_states s) (UID f)) f))"
    and "sz_inbox (processFact t0 t1 f s) = sz_inbox s"
    and "sz_closed (processFact t0 t1 f s) = sz_closed s"
  using assms
  by (simp_all add: processFact_def Let_def fold_push_effect pods.advance_def pods.look_def split: prod.split)

lemma processFact_no_uid: "UID f = [] \<Longrightarrow> processFact t0 t1 f s = s"
  by (simp add: processFact_def)



text \<open>Processing facts never adds a pod to the state map. In particular the state map of a
  new event loop stays empty and no effect is ever queued, whatever facts arrive:
  \<open>PodAdmitFact\<close>, which is meant to add the pod, is dropped by the check for untracked pods at
  the head of \<open>Reduce\<close>.\<close>

lemma no_pod_is_ever_tracked:
  "sz_states (fold (\<lambda>(t0, t1, f). processFact t0 t1 f) fs NewSyzygy) = Map.empty \<and>
   sz_effects (fold (\<lambda>(t0, t1, f). processFact t0 t1 f) fs NewSyzygy) = []"
proof -
  have step: "sz_states (processFact t0 t1 f s) = Map.empty \<and> sz_effects (processFact t0 t1 f s) = []"
    if "sz_states s = Map.empty" "sz_effects s = []" for t0 t1 f s
  proof (cases "UID f = []")
    case False
    have "pods.look Map.empty (UID f) = zero_PodState" by (simp add: pods.look_None)
    with that processFact_simps [OF False, of t0 t1 s] show ?thesis
      by (simp add: pods.advance_None Reduce_untracked)
  qed (use that in \<open>simp add: processFact_no_uid\<close>)
  have "sz_states s = Map.empty \<Longrightarrow> sz_effects s = [] \<Longrightarrow>
      sz_states (fold (\<lambda>(t0, t1, f). processFact t0 t1 f) fs s) = Map.empty \<and>
      sz_effects (fold (\<lambda>(t0, t1, f). processFact t0 t1 f) fs s) = []" for s
    by (induction fs arbitrary: s) (auto simp: step)
  then show ?thesis by (simp add: NewSyzygy_def)
qed

section \<open>The running system\<close>

text \<open>
  \<open>sys_busy\<close> holds the effects taken by workers and not yet dispatched, \<open>sys_local\<close> and
  \<open>sys_executed\<close> record the local callbacks and the effects Horizon's workers took, in order.
  The rules are the goroutines of \<open>Run\<close>: any sender, the fact loop (also while draining),
  the shutdown, a worker taking and a worker dispatching an effect, and Horizon's pool.
\<close>

record System =
  sys_sz :: Syzygy
  sys_busy :: "Effect list"
  sys_hz :: Horizon
  sys_local :: "LocalCall list"
  sys_executed :: "Effect list"

inductive sys_step :: "nat \<Rightarrow> System \<Rightarrow> System \<Rightarrow> bool" for workers :: nat where
  send: "sys_step workers s (s\<lparr>sys_sz := snd (Syzygy_Send f (sys_sz s))\<rparr>)"
| recv: "sz_inbox (sys_sz s) = f # fs \<Longrightarrow>
    sys_step workers s (s\<lparr>sys_sz := processFact t0 t1 f ((sys_sz s)\<lparr>sz_inbox := fs\<rparr>)\<rparr>)"
| shutdown: "sys_step workers s (s\<lparr>sys_sz := Syzygy_close (sys_sz s)\<rparr>)"
| take_effect: "sz_effects (sys_sz s) = e # es \<Longrightarrow> length (sys_busy s) < workers \<Longrightarrow>
    sys_step workers s (s\<lparr>sys_sz := (sys_sz s)\<lparr>sz_effects := es\<rparr>, sys_busy := sys_busy s @ [e]\<rparr>)"
| dispatch: "sys_busy s = xs @ e # ys \<Longrightarrow> dispatchEffect e (sys_hz s) = (calls, h) \<Longrightarrow>
    sys_step workers s (s\<lparr>sys_busy := xs @ ys, sys_hz := h, sys_local := sys_local s @ calls\<rparr>)"
| execute: "hz_inbox (sys_hz s) = e # es \<Longrightarrow>
    sys_step workers s (s\<lparr>sys_hz := (sys_hz s)\<lparr>hz_inbox := es\<rparr>, sys_executed := sys_executed s @ [e]\<rparr>)"
| horizon_close: "sys_step workers s (s\<lparr>sys_hz := Horizon_close (sys_hz s)\<rparr>)"

text \<open>The system after start-up, with a given map of tracked pods.\<close>

definition sys_init :: "(string \<rightharpoonup> PodState) \<Rightarrow> System" where
  "sys_init m = \<lparr>sys_sz = NewSyzygy\<lparr>sz_states := m\<rparr>, sys_busy = [], sys_hz = NewHorizon,
     sys_local = [], sys_executed = []\<rparr>"

inductive sys_reach :: "nat \<Rightarrow> (string \<rightharpoonup> PodState) \<Rightarrow> System \<Rightarrow> bool" for workers m where
  start: "sys_reach workers m (sys_init m)"
| step: "sys_reach workers m s \<Longrightarrow> sys_step workers s t \<Longrightarrow> sys_reach workers m t"

primrec is_api :: "Effect \<Rightarrow> bool" where
  "is_api (UpdateStatus _ _ _ _) = True"
| "is_api (RestartContainer _ _ _ _ _ _) = True"
| "is_api (SetPodPhase _ _) = False"
| "is_api (ResetUnit _ _) = True"
| "is_api (RecordEvent _ _ _ _) = True"
| "is_api (PersistPodState _) = False"
| "is_api (InitRestartState _ _ _ _) = False"

definition sys_inv :: "nat \<Rightarrow> (string \<rightharpoonup> PodState) \<Rightarrow> System \<Rightarrow> bool" where
  "sys_inv workers m s \<longleftrightarrow>
     length (sz_inbox (sys_sz s)) \<le> inbox_cap \<and> length (sz_effects (sys_sz s)) \<le> effectsBuf \<and>
     length (sys_busy s) \<le> workers \<and> length (hz_inbox (sys_hz s)) \<le> horizon_cap \<and>
     pods.consistent (sz_states (sys_sz s)) \<and> dom (sz_states (sys_sz s)) \<subseteq> dom m \<and>
     list_all is_api (hz_inbox (sys_hz s)) \<and> list_all is_api (sys_executed s)"

lemma processFact_effects_bound:
  "length (sz_effects s) \<le> effectsBuf \<Longrightarrow> length (sz_effects (processFact t0 t1 f s)) \<le> effectsBuf"
  by (cases "UID f = []") (auto simp: processFact_no_uid processFact_simps)

lemma processFact_states:
  "pods.consistent (sz_states s) \<Longrightarrow> pods.consistent (sz_states (processFact t0 t1 f s))"
  "dom (sz_states (processFact t0 t1 f s)) \<subseteq> dom (sz_states s)"
  by (cases "UID f = []";
      simp add: processFact_no_uid processFact_simps pods.advance_consistent pods.advance_dom)+

lemma processFact_inbox [simp]: "sz_inbox (processFact t0 t1 f s) = sz_inbox s"
  by (cases "UID f = []") (simp_all add: processFact_no_uid processFact_simps)

lemma Horizon_Send_api:
  "list_all is_api (hz_inbox h) \<Longrightarrow> is_api e \<Longrightarrow> list_all is_api (hz_inbox (snd (Horizon_Send e h)))"
  by (simp add: hz.send_content)

lemma dispatchEffect_inbox:
  assumes "dispatchEffect e h = (calls, h')" and "list_all is_api (hz_inbox h)" and "length (hz_inbox h) \<le> horizon_cap"
  shows "list_all is_api (hz_inbox h') \<and> length (hz_inbox h') \<le> horizon_cap"
  using assms by (cases e) (auto simp: dispatchEffect_def Horizon_Send_api hz.send_bounded)

lemma Syzygy_Send_sel [simp]:
  "sz_effects (snd (Syzygy_Send f s)) = sz_effects s" "sz_states (snd (Syzygy_Send f s)) = sz_states s"
  by (simp_all add: Syzygy_Send_def Syzygy_Send_at_def)

lemma close_sel [simp]:
  "sz_effects (Syzygy_close s) = sz_effects s" "sz_states (Syzygy_close s) = sz_states s"
  by (simp_all add: Syzygy_close_def)

lemma sys_step_inv: "sys_step workers s t \<Longrightarrow> sys_inv workers m s \<Longrightarrow> sys_inv workers m t"
proof (induction rule: sys_step.induct)
  case (recv s f fs t0 t1)
  let ?z = "(sys_sz s)\<lparr>sz_inbox := fs\<rparr>"
  have "dom (sz_states (processFact t0 t1 f ?z)) \<subseteq> dom m"
    using recv processFact_states(2) [of t0 t1 f ?z] by (auto simp: sys_inv_def)
  with recv show ?case
    by (simp add: sys_inv_def processFact_effects_bound processFact_states)
next
  case (dispatch s xs e ys calls h)
  with dispatchEffect_inbox [OF dispatch.hyps(2)] show ?case by (simp add: sys_inv_def)
qed (simp_all add: sys_inv_def sz.send_bounded sz.close_content hz.close_content)



text \<open>The worker pool does not keep the order of effects: with two or more workers, of two
  queued effects the second can be carried out completely, its local callback or its hand-over to
  Horizon included, before the first.\<close>

lemma workers_reorder:
  assumes "sz_effects (sys_sz s) = e1 # e2 # es" and "sys_busy s = []" and "2 \<le> workers"
    and "dispatchEffect e2 (sys_hz s) = (c2, h2)" and "dispatchEffect e1 h2 = (c1, h1)"
  shows "(sys_step workers)\<^sup>*\<^sup>* s (s\<lparr>sys_sz := (sys_sz s)\<lparr>sz_effects := es\<rparr>, sys_hz := h1,
    sys_local := sys_local s @ c2 @ c1\<rparr>)"
proof -
  let ?s1 = "s\<lparr>sys_sz := (sys_sz s)\<lparr>sz_effects := e2 # es\<rparr>, sys_busy := [e1]\<rparr>"
  let ?s2 = "s\<lparr>sys_sz := (sys_sz s)\<lparr>sz_effects := es\<rparr>, sys_busy := [e1, e2]\<rparr>"
  let ?s3 = "s\<lparr>sys_sz := (sys_sz s)\<lparr>sz_effects := es\<rparr>, sys_busy := [e1], sys_hz := h2,
    sys_local := sys_local s @ c2\<rparr>"
  let ?s4 = "s\<lparr>sys_sz := (sys_sz s)\<lparr>sz_effects := es\<rparr>, sys_busy := [], sys_hz := h1,
    sys_local := sys_local s @ c2 @ c1\<rparr>"
  have "sys_step workers s ?s1"
    using sys_step.take_effect [OF assms(1), of workers] assms(2,3) by simp
  moreover have "sys_step workers ?s1 ?s2"
    using sys_step.take_effect [of ?s1 e2 es workers] assms(3) by simp
  moreover have "sys_step workers ?s2 ?s3"
    using sys_step.dispatch [of ?s2 "[e1]" e2 "[]" c2 h2 workers] assms(4) by simp
  moreover have "sys_step workers ?s3 ?s4"
    using sys_step.dispatch [of ?s3 "[]" e1 "[]" c1 h1 workers] assms(5) by simp
  moreover have "?s4 = s\<lparr>sys_sz := (sys_sz s)\<lparr>sz_effects := es\<rparr>, sys_hz := h1,
    sys_local := sys_local s @ c2 @ c1\<rparr>" using assms(2) by simp
  ultimately show ?thesis by (metis (no_types, lifting) converse_rtranclp_into_rtranclp r_into_rtranclp)
qed

theorem workers_reorder_witness:
  "(sys_step defaultEffectWorkers)\<^sup>*\<^sup>*
     (sys_init Map.empty\<lparr>sys_sz := NewSyzygy\<lparr>sz_effects := [SetPodPhase ''u'' PodFailed, SetPodPhase ''u'' PodRunning]\<rparr>\<rparr>)
     (sys_init Map.empty\<lparr>sys_sz := NewSyzygy, sys_local := [CallSetPodPhase ''u'' PodRunning, CallSetPodPhase ''u'' PodFailed]\<rparr>)"
  using workers_reorder [of "sys_init Map.empty\<lparr>sys_sz := NewSyzygy\<lparr>sz_effects := [SetPodPhase ''u'' PodFailed, SetPodPhase ''u'' PodRunning]\<rparr>\<rparr>"
      "SetPodPhase ''u'' PodFailed" "SetPodPhase ''u'' PodRunning" "[]" defaultEffectWorkers
      "[CallSetPodPhase ''u'' PodRunning]" NewHorizon "[CallSetPodPhase ''u'' PodFailed]" NewHorizon]
  by (simp add: sys_init_def dispatchEffect_def defaultEffectWorkers_def NewSyzygy_def)

end
