(* ===== verification/Work_Queue.thy ===== *)
theory Work_Queue
  imports Prelude
begin

text \<open>
  The delaying work queue, \<open>internal/queue/queue.go\<close>: a doubly linked list of items in the
  order of their planned start, a map from key to list element, a map of the items being
  processed, a one-slot wake-up channel, and a worker pool. Elements of the list carry an
  identity, so that the map can point to them as the code's pointers do; an item being
  processed is shared between its worker and the map, which holds the only copy here. The
  rate limiter is third-party code: its state and its two operations are parameters.
\<close>

section \<open>State\<close>

record queueItem =
  qi_key :: string
  plannedToStartWorkAt :: gotime
  redirtiedAt :: gotime
  redirtiedWithRatelimit :: bool
  qi_forget :: bool
  requeues :: int
  originallyAdded :: gotime
  addedViaRedirty :: bool
  delayedViaRateLimit :: "int option"

type_synonym element = "nat \<times> queueItem"

record 'r Queue =
  ratelimiter :: 'r
  items :: "element list"
  itemsInQueue :: "string \<rightharpoonup> nat"
  itemsBeingProcessed :: "string \<rightharpoonup> queueItem"
  wakeupCh :: bool
  next_element :: nat

definition MaxRetries :: int where "MaxRetries = 20"

definition New_Queue :: "'r \<Rightarrow> 'r Queue" where
  "New_Queue rl = \<lparr>ratelimiter = rl, items = [], itemsInQueue = Map.empty,
     itemsBeingProcessed = Map.empty, wakeupCh = False, next_element = 0\<rparr>"

text \<open>The operations of \<open>container/list\<close> the queue uses.\<close>

definition list_Remove :: "nat \<Rightarrow> element list \<Rightarrow> element list" where
  "list_Remove e xs = filter (\<lambda>x. fst x \<noteq> e) xs"

fun list_InsertAfter :: "element \<Rightarrow> nat \<Rightarrow> element list \<Rightarrow> element list" where
  "list_InsertAfter v mark [] = []"
| "list_InsertAfter v mark (x # xs) = (if fst x = mark then x # v # xs else x # list_InsertAfter v mark xs)"

definition list_get :: "nat \<Rightarrow> element list \<Rightarrow> element option" where
  "list_get e xs = find (\<lambda>x. fst x = e) xs"

definition list_MoveAfter :: "nat \<Rightarrow> nat \<Rightarrow> element list \<Rightarrow> element list" where
  "list_MoveAfter e mark xs = (case list_get e xs of None \<Rightarrow> xs
     | Some x \<Rightarrow> if e = mark then xs else list_InsertAfter x mark (list_Remove e xs))"

definition list_MoveToFront :: "nat \<Rightarrow> element list \<Rightarrow> element list" where
  "list_MoveToFront e xs = (case list_get e xs of None \<Rightarrow> xs | Some x \<Rightarrow> x # list_Remove e xs)"

definition set_item :: "nat \<Rightarrow> (queueItem \<Rightarrow> queueItem) \<Rightarrow> element list \<Rightarrow> element list" where
  "set_item e f xs = map (\<lambda>x. if fst x = e then (fst x, f (snd x)) else x) xs"

section \<open>Operations\<close>

definition durationDeref :: "int option \<Rightarrow> int \<Rightarrow> int" where
  "durationDeref duration def = (case duration of None \<Rightarrow> def | Some d \<Rightarrow> d)"

abbreviation Before :: "element \<Rightarrow> gotime \<Rightarrow> bool" where
  "Before x t \<equiv> plannedToStartWorkAt (snd x) < t"

definition adjustPosition :: "nat \<Rightarrow> gotime \<Rightarrow> element list \<Rightarrow> element list" where
  "adjustPosition e when xs = (case list_get e xs of None \<Rightarrow> xs
     | Some x \<Rightarrow> if plannedToStartWorkAt (snd x) < when then xs
       else let ys = set_item e (plannedToStartWorkAt_update (\<lambda>_. when)) xs in
         case find (\<lambda>y. Before y when) (rev (takeWhile (\<lambda>y. fst y \<noteq> e) ys)) of
           Some prev \<Rightarrow> list_MoveAfter e (fst prev) ys
         | None \<Rightarrow> list_MoveToFront e ys)"

text \<open>What \<open>insert\<close> returns is a pointer, through which the caller writes.\<close>

datatype item_ref = Processing string | Element nat

fun update_item :: "item_ref \<Rightarrow> (queueItem \<Rightarrow> queueItem) \<Rightarrow> 'r Queue \<Rightarrow> 'r Queue" where
  "update_item (Processing key) f q =
     q\<lparr>itemsBeingProcessed := (itemsBeingProcessed q)(key := map_option f (itemsBeingProcessed q key))\<rparr>"
| "update_item (Element e) f q = q\<lparr>items := set_item e f (items q)\<rparr>"

definition redirty :: "gotime \<Rightarrow> bool \<Rightarrow> queueItem \<Rightarrow> queueItem" where
  "redirty when ratelimit item =
     (if redirtiedAt item = 0 \<or> when < redirtiedAt item
      then item\<lparr>redirtiedAt := when, redirtiedWithRatelimit := ratelimit\<rparr> else item)\<lparr>qi_forget := False\<rparr>"

definition new_item :: "string \<Rightarrow> gotime \<Rightarrow> int \<Rightarrow> int option \<Rightarrow> queueItem" where
  "new_item key now d delayed = \<lparr>qi_key = key, plannedToStartWorkAt = now + d, redirtiedAt = 0,
     redirtiedWithRatelimit = False, qi_forget = False, requeues = 0, originallyAdded = now,
     addedViaRedirty = False, delayedViaRateLimit = delayed\<rparr>"

definition place :: "element \<Rightarrow> element list \<Rightarrow> element list" where
  "place v xs = (case find (\<lambda>x. Before x (plannedToStartWorkAt (snd v))) (rev xs) of
     Some item \<Rightarrow> list_InsertAfter v (fst item) xs
   | None \<Rightarrow> v # xs)"

definition Queue_insert :: "('r \<Rightarrow> string \<Rightarrow> int \<times> 'r) \<Rightarrow> gotime \<Rightarrow> string \<Rightarrow> bool \<Rightarrow> int option
    \<Rightarrow> 'r Queue \<Rightarrow> item_ref \<times> 'r Queue" where
  "Queue_insert When now key ratelimit delay q0 = (let q = q0\<lparr>wakeupCh := True\<rparr> in
     case itemsBeingProcessed q key of
       Some item \<Rightarrow> (Processing key, update_item (Processing key) (redirty (now + durationDeref delay 0) ratelimit) q)
     | None \<Rightarrow> (case itemsInQueue q key of
         Some e \<Rightarrow> (Element e, q\<lparr>items := adjustPosition e (now + durationDeref delay 0) (items q)\<rparr>)
       | None \<Rightarrow>
         let (val, rl) =
           (if ratelimit then
              (let (d, rl) = When (ratelimiter q) key; actualDelay = durationDeref delay d
               in (new_item key now actualDelay (Some actualDelay), rl))
            else (new_item key now (durationDeref delay 0) None, ratelimiter q));
           e = next_element q
         in (Element e, q\<lparr>ratelimiter := rl, items := place (e, val) (items q),
               itemsInQueue := (itemsInQueue q)(key \<mapsto> e), next_element := Suc e\<rparr>)))"

definition Enqueue where
  "Enqueue When now key q = snd (Queue_insert When now key True None q)"

definition EnqueueWithoutRateLimit where
  "EnqueueWithoutRateLimit When now key q = snd (Queue_insert When now key False None q)"

definition EnqueueWithoutRateLimitWithDelay where
  "EnqueueWithoutRateLimitWithDelay When now key after q = snd (Queue_insert When now key False (Some after) q)"

definition Forget :: "string \<Rightarrow> 'r Queue \<Rightarrow> 'r Queue" where
  "Forget key q = (case itemsInQueue q key of
     Some e \<Rightarrow> q\<lparr>itemsInQueue := (itemsInQueue q)(key := None), items := list_Remove e (items q)\<rparr>
   | None \<Rightarrow> (case itemsBeingProcessed q key of
       Some qi \<Rightarrow> update_item (Processing key) (qi_forget_update (\<lambda>_. True)) q
     | None \<Rightarrow> q))"

text \<open>Both length functions panic (here: \<open>None\<close>) when list and map disagree.\<close>

definition Queue_Len :: "'r Queue \<Rightarrow> nat option" where
  "Queue_Len q = (if length (items q) \<noteq> card (dom (itemsInQueue q)) then None
     else Some (length (items q) + card (dom (itemsBeingProcessed q))))"

definition UnprocessedLen :: "'r Queue \<Rightarrow> nat option" where
  "UnprocessedLen q = (if length (items q) \<noteq> card (dom (itemsInQueue q)) then None
     else Some (card (dom (itemsInQueue q))))"

text \<open>One pass of the loop of \<open>getNextItem\<close>: an item is taken, or the goroutine waits for the
  wake-up channel, with a timer unless the queue is empty.\<close>

datatype next_item = Take queueItem | Wait "gotime option"

definition getNextItem :: "gotime \<Rightarrow> 'r Queue \<Rightarrow> next_item \<times> 'r Queue" where
  "getNextItem now q = (case items q of
     [] \<Rightarrow> (Wait None, q)
   | (e, qi) # _ \<Rightarrow>
       if time_sub (plannedToStartWorkAt qi) now \<le> 0 then
         (Take qi, q\<lparr>itemsBeingProcessed := (itemsBeingProcessed q)(qi_key qi \<mapsto> qi),
            items := list_Remove e (items q), itemsInQueue := (itemsInQueue q)(qi_key qi := None)\<rparr>)
       else (Wait (Some (now + time_sub (plannedToStartWorkAt qi) now)), q))"

datatype queue_error = Forgetting string queue_error | TemporarilyForgetting string queue_error
  | HandlerError string | MaximumRetries queue_error

type_synonym retry_func = "string \<Rightarrow> int \<Rightarrow> gotime \<Rightarrow> queue_error \<Rightarrow> queue_error + int option"

definition DefaultRetryFunc :: retry_func where
  "DefaultRetryFunc key timesTried added err =
     (if timesTried < MaxRetries then Inr None else Inl (MaximumRetries err))"

text \<open>
  The part of \<open>handleQueueItemObject\<close> after the handler has returned \<open>err\<close>: \<open>qi\<close> is the
  item as it is then. \<open>t0\<close> is the clock of the first insertion or of \<open>time.Until\<close>, \<open>t1\<close>
  the clock of the insertion after that. The result is the returned error, the call of
  \<open>onForget\<close>, and the queue.
\<close>

definition finish_item :: "('r \<Rightarrow> string \<Rightarrow> int \<times> 'r) \<Rightarrow> ('r \<Rightarrow> string \<Rightarrow> 'r) \<Rightarrow> retry_func \<Rightarrow> gotime \<Rightarrow> gotime
    \<Rightarrow> queue_error option \<Rightarrow> queueItem \<Rightarrow> 'r Queue \<Rightarrow> queue_error option \<times> (string \<times> queue_error) option \<times> 'r Queue" where
  "finish_item When Forget_rl retryFunc t0 t1 err qi q0 = (let
     key = qi_key qi;
     q = q0\<lparr>itemsBeingProcessed := (itemsBeingProcessed q0)(key := None)\<rparr>;
     finish = (\<lambda>err. let
         q = q\<lparr>ratelimiter := Forget_rl (ratelimiter q) key\<rparr>;
         q = (if redirtiedAt qi \<noteq> 0 then
                (case Queue_insert When t1 key (redirtiedWithRatelimit qi) (Some (time_sub (redirtiedAt qi) t0)) q of
                   (r, q') \<Rightarrow> update_item r (addedViaRedirty_update (\<lambda>_. True)) q')
              else q)
       in (err, map_option (Pair key) err, q))
   in if qi_forget qi then (None, None, q\<lparr>ratelimiter := Forget_rl (ratelimiter q) key\<rparr>)
      else case err of
        None \<Rightarrow> finish None
      | Some e \<Rightarrow> (case retryFunc key (int64 (requeues qi + 1)) (originallyAdded qi) e of
          Inr delay \<Rightarrow> (case Queue_insert When t0 key True delay q of
             (r, q') \<Rightarrow> (None, None, update_item r (\<lambda>i. i\<lparr>requeues := int64 (requeues qi + 1),
                                originallyAdded := originallyAdded qi\<rparr>) q'))
        | Inl e' \<Rightarrow> finish (Some (if redirtiedAt qi \<noteq> 0 then TemporarilyForgetting key e' else Forgetting key e'))))"

section \<open>List surgery\<close>

lemma InsertAfter_split:
  "fst y \<notin> fst ` set ys \<Longrightarrow> list_InsertAfter v (fst y) (ys @ y # zs) = ys @ y # v # zs"
  by (induction ys) auto

lemma list_get_split [simp]: "e \<notin> fst ` set as \<Longrightarrow> list_get e (as @ (e, qi) # bs) = Some (e, qi)"
  by (induction as) (auto simp: list_get_def)

lemma list_Remove_id: "e \<notin> fst ` set as \<Longrightarrow> list_Remove e as = as"
  by (induction as) (auto simp: list_Remove_def)

lemma list_Remove_split [simp]:
  "e \<notin> fst ` set as \<Longrightarrow> e \<notin> fst ` set bs \<Longrightarrow> list_Remove e (as @ (e, qi) # bs) = as @ bs"
  using list_Remove_id [of e as] list_Remove_id [of e bs] by (simp add: list_Remove_def)

lemma set_item_id: "e \<notin> fst ` set as \<Longrightarrow> set_item e f as = as"
  by (induction as) (auto simp: set_item_def)

lemma set_item_split [simp]:
  "e \<notin> fst ` set as \<Longrightarrow> e \<notin> fst ` set bs \<Longrightarrow> set_item e f (as @ (e, qi) # bs) = as @ (e, f qi) # bs"
  using set_item_id [of e as f] set_item_id [of e bs f] by (simp add: set_item_def)

lemma set_item_keys [simp]: "map fst (set_item e f xs) = map fst xs"
  by (simp add: set_item_def comp_def)

lemma find_rev_Some:
  assumes "find P (rev xs) = Some y"
  shows "\<exists>ys zs. xs = ys @ y # zs \<and> P y \<and> list_all (\<lambda>z. \<not> P z) zs"
  using assms
proof (induction xs rule: rev_induct)
  case (snoc x xs)
  show ?case
  proof (cases "P x")
    case True
    with snoc.prems have "xs @ [x] = xs @ y # []" "P y" by simp_all
    then show ?thesis by (metis list.pred_inject(1))
  next
    case False
    with snoc obtain ys zs where "xs = ys @ y # zs" "P y" "list_all (\<lambda>z. \<not> P z) zs" by auto
    with False have "xs @ [x] = ys @ y # (zs @ [x])" "list_all (\<lambda>z. \<not> P z) (zs @ [x])" by simp_all
    with \<open>P y\<close> show ?thesis by blast
  qed
qed simp

lemma find_rev_None: "find P (rev xs) = None \<longleftrightarrow> list_all (\<lambda>z. \<not> P z) xs"
  by (auto simp: find_None_iff list_all_iff)

section \<open>The invariant\<close>

abbreviation planned :: "element \<Rightarrow> gotime" where "planned x \<equiv> plannedToStartWorkAt (snd x)"
abbreviation elem_key :: "element \<Rightarrow> string" where "elem_key x \<equiv> qi_key (snd x)"

definition items_ok :: "element list \<Rightarrow> bool" where
  "items_ok xs \<longleftrightarrow> sorted (map planned xs) \<and> distinct (map fst xs) \<and> distinct (map elem_key xs)"

definition queue_inv :: "'r Queue \<Rightarrow> bool" where
  "queue_inv q \<longleftrightarrow> items_ok (items q) \<and> itemsInQueue q = map_of (map (\<lambda>x. (elem_key x, fst x)) (items q)) \<and>
     list_all (\<lambda>x. fst x < next_element q) (items q) \<and>
     (\<forall>k qi. itemsBeingProcessed q k = Some qi \<longrightarrow> qi_key qi = k \<and> itemsInQueue q k = None)"

lemma items_okD:
  assumes "items_ok (as @ x # bs)"
  shows "fst x \<notin> fst ` set as" "fst x \<notin> fst ` set bs" "items_ok (as @ bs)"
    "\<forall>a\<in>set as. planned a \<le> planned x" "\<forall>b\<in>set bs. planned x \<le> planned b"
  using assms by (auto simp: items_ok_def sorted_append)

lemma place_split:
  assumes "items_ok xs"
  shows "\<exists>as bs. xs = as @ bs \<and> place v xs = as @ v # bs \<and>
    list_all (\<lambda>a. planned a < planned v) as \<and> list_all (\<lambda>b. planned v \<le> planned b) bs"
proof (cases "find (\<lambda>x. planned x < planned v) (rev xs)")
  case None
  then have "list_all (\<lambda>b. planned v \<le> planned b) xs" by (simp add: find_rev_None not_less)
  moreover have "place v xs = [] @ v # xs" using None by (simp add: place_def)
  ultimately show ?thesis by (metis append_Nil list.pred_inject(1))
next
  case (Some y)
  then obtain ys zs where s: "xs = ys @ y # zs" "planned y < planned v" "list_all (\<lambda>z. \<not> planned z < planned v) zs"
    using find_rev_Some by metis
  with assms have "place v xs = (ys @ [y]) @ v # zs" "xs = (ys @ [y]) @ zs"
    using Some by (simp_all add: place_def InsertAfter_split items_okD(1))
  moreover have "list_all (\<lambda>a. planned a < planned v) (ys @ [y])"
    using s(2) items_okD(4) [of ys y zs] assms s(1) by (fastforce simp: list_all_iff)
  ultimately show ?thesis using s(3) by (metis (no_types, lifting) list.pred_mono_strong not_less)
qed

lemma adjustPosition_split:
  assumes "items_ok (as @ (e, qi) # bs)" and "when \<le> plannedToStartWorkAt qi"
  shows "\<exists>as1 as2. as = as1 @ as2 \<and>
    adjustPosition e when (as @ (e, qi) # bs) = as1 @ (e, qi\<lparr>plannedToStartWorkAt := when\<rparr>) # as2 @ bs \<and>
    list_all (\<lambda>a. planned a < when) as1 \<and> list_all (\<lambda>a. when \<le> planned a) as2"
proof -
  let ?x = "(e, qi\<lparr>plannedToStartWorkAt := when\<rparr>)"
  have e: "e \<notin> fst ` set as" "e \<notin> fst ` set bs" using items_okD(1,2) [OF assms(1)] by simp_all
  have tw: "takeWhile (\<lambda>y. fst y \<noteq> e) (as @ ?x # bs) = as" using e(1) by (force simp: takeWhile_append)
  show ?thesis
  proof (cases "find (\<lambda>y. planned y < when) (rev as)")
    case None
    then have "list_all (\<lambda>b. when \<le> planned b) as" by (simp add: find_rev_None not_less)
    moreover have "adjustPosition e when (as @ (e, qi) # bs) = [] @ ?x # as @ bs"
      using None e assms(2) tw by (simp add: adjustPosition_def list_MoveToFront_def)
    ultimately show ?thesis by (metis append_Nil list.pred_inject(1))
  next
    case (Some y)
    then obtain ys zs where s: "as = ys @ y # zs" "planned y < when" "list_all (\<lambda>z. \<not> planned z < when) zs"
      using find_rev_Some by metis
    have y: "fst y \<noteq> e" "fst y \<notin> fst ` set ys"
      using items_okD(1) [of ys y "zs @ (e, qi) # bs"] assms(1) e s(1) by auto
    have "adjustPosition e when (as @ (e, qi) # bs) = list_InsertAfter ?x (fst y) (as @ bs)"
      using Some e y assms(2) tw by (simp add: adjustPosition_def list_MoveAfter_def)
    then have "adjustPosition e when (as @ (e, qi) # bs) = (ys @ [y]) @ ?x # zs @ bs" "as = (ys @ [y]) @ zs"
      using y s(1) by (simp_all add: InsertAfter_split)
    moreover have "list_all (\<lambda>a. planned a < when) (ys @ [y])"
      using s(2) items_okD(4) [of ys y "zs @ (e, qi) # bs"] assms s(1) by (fastforce simp: list_all_iff)
    ultimately show ?thesis using s(3) by (metis (no_types, lifting) list.pred_mono_strong not_less)
  qed
qed

lemma queue_inv_proc:
  "queue_inv q \<Longrightarrow> itemsBeingProcessed q k = Some qi \<Longrightarrow> qi_key qi = k \<and> itemsInQueue q k = None"
  unfolding queue_inv_def by blast

lemma queue_inv_queued: "queue_inv q \<Longrightarrow> itemsInQueue q k = Some e \<Longrightarrow> itemsBeingProcessed q k = None"
  using queue_inv_proc [of q k] by (cases "itemsBeingProcessed q k") auto

lemma queue_inv_fresh: "queue_inv q \<Longrightarrow> x \<in> set (items q) \<Longrightarrow> fst x < next_element q"
  by (simp add: queue_inv_def list_all_iff)

lemma queue_inv_cong:
  assumes "queue_inv q" and "map fst (items q') = map fst (items q)"
    and "map elem_key (items q') = map elem_key (items q)" and "map planned (items q') = map planned (items q)"
    and "itemsInQueue q' = itemsInQueue q" and "next_element q' = next_element q"
    and "\<And>k qi. itemsBeingProcessed q' k = Some qi \<Longrightarrow> qi_key qi = k \<and> itemsBeingProcessed q k \<noteq> None"
  shows "queue_inv q'"
proof -
  have "map (\<lambda>x. (elem_key x, fst x)) xs = zip (map elem_key xs) (map fst xs)" for xs :: "element list"
    by (induction xs) simp_all
  moreover have "list_all (\<lambda>x. fst x < n) xs = list_all (\<lambda>i. i < n) (map fst xs)" for n and xs :: "element list"
    by (simp add: list.pred_map comp_def)
  moreover have "itemsInQueue q k = None" if "itemsBeingProcessed q' k = Some qi" for k qi
    using assms(1,7) that by (fastforce simp: queue_inv_def)
  ultimately show ?thesis using assms by (simp add: queue_inv_def items_ok_def)
qed

lemma queue_inv_split:
  assumes "queue_inv q" and "itemsInQueue q k = Some e"
  shows "\<exists>as qi bs. items q = as @ (e, qi) # bs \<and> qi_key qi = k \<and> itemsBeingProcessed q k = None"
proof -
  from assms have "(k, e) \<in> set (map (\<lambda>x. (elem_key x, fst x)) (items q))"
    by (intro map_of_SomeD) (simp add: queue_inv_def)
  then obtain qi where "(e, qi) \<in> set (items q)" "qi_key qi = k" by auto
  moreover have "itemsBeingProcessed q k = None" using queue_inv_queued [OF assms] .
  ultimately show ?thesis by (metis split_list)
qed

lemma queue_inv_absent:
  assumes "queue_inv q" and "itemsInQueue q k = None"
  shows "k \<notin> elem_key ` set (items q)"
  using assms by (force simp: queue_inv_def map_of_eq_None_iff image_image)

lemma queue_inv_remove:
  assumes "queue_inv q" and "items q = as @ (e, qi) # bs"
    and "\<And>k i. P k = Some i \<Longrightarrow> qi_key i = k \<and> (itemsBeingProcessed q k \<noteq> None \<or> k = qi_key qi)"
  shows "queue_inv (q\<lparr>itemsBeingProcessed := P, items := as @ bs, itemsInQueue := (itemsInQueue q)(qi_key qi := None)\<rparr>)"
proof -
  have k: "qi_key qi \<notin> elem_key ` set as" "qi_key qi \<notin> elem_key ` set bs"
    and ok: "items_ok (as @ bs)"
    using assms(1,2) items_okD(3) by (auto simp: queue_inv_def items_ok_def)
  have "(itemsInQueue q)(qi_key qi := None) = map_of (map (\<lambda>x. (elem_key x, fst x)) (as @ bs))"
  proof
    fix k'
    show "((itemsInQueue q)(qi_key qi := None)) k' = map_of (map (\<lambda>x. (elem_key x, fst x)) (as @ bs)) k'"
    proof (cases "k' = qi_key qi")
      case True
      then have "map_of (map (\<lambda>x. (elem_key x, fst x)) (as @ bs)) k' = None"
        using k by (force simp: map_of_eq_None_iff image_image)
      with True show ?thesis by (simp only: fun_upd_same)
    next
      case False
      then show ?thesis using assms(1,2) by (simp add: queue_inv_def map_add_def split: option.split)
    qed
  qed
  moreover have "list_all (\<lambda>x. fst x < next_element q) (as @ bs)" using assms(1,2) by (simp add: queue_inv_def)
  moreover have "qi_key i = k' \<and> ((itemsInQueue q)(qi_key qi := None)) k' = None" if "P k' = Some i" for k' i
    using queue_inv_proc [OF assms(1), of k'] assms(3) [OF that] by (cases "k' = qi_key qi") auto
  ultimately show ?thesis using ok by (simp add: queue_inv_def)
qed

lemma items_ok_move:
  assumes "items_ok (as @ bs @ (e, qi) # cs)" and "qi_key qi' = qi_key qi"
    and "plannedToStartWorkAt qi' \<le> plannedToStartWorkAt qi"
    and "list_all (\<lambda>a. planned a < plannedToStartWorkAt qi') as" and "list_all (\<lambda>a. plannedToStartWorkAt qi' \<le> planned a) bs"
  shows "items_ok (as @ (e, qi') # bs @ cs)"
  using assms by (fastforce simp: items_ok_def sorted_append list_all_iff)

lemma queue_inv_adjust:
  assumes "queue_inv q" and "itemsInQueue q k = Some e"
  shows "queue_inv (q\<lparr>items := adjustPosition e when (items q)\<rparr>)"
proof -
  obtain as qi bs where s: "items q = as @ (e, qi) # bs" using queue_inv_split [OF assms] by metis
  have ok: "items_ok (as @ (e, qi) # bs)" using assms(1) s by (simp add: queue_inv_def)
  show ?thesis
  proof (cases "plannedToStartWorkAt qi < when")
    case True
    then have "adjustPosition e when (items q) = items q"
      using items_okD(1) [OF ok] s by (simp add: adjustPosition_def)
    then show ?thesis using queue_inv_proc [OF assms(1)] by (intro queue_inv_cong [OF assms(1)]) auto
  next
    case False
    let ?qi = "qi\<lparr>plannedToStartWorkAt := when\<rparr>"
    obtain as1 as2 where a: "as = as1 @ as2" "adjustPosition e when (items q) = as1 @ (e, ?qi) # as2 @ bs"
        "list_all (\<lambda>a. planned a < when) as1" "list_all (\<lambda>a. when \<le> planned a) as2"
      using adjustPosition_split [OF ok] False s by (metis not_less)
    have ok': "items_ok (as1 @ (e, ?qi) # as2 @ bs)"
      using items_ok_move [of as1 as2 e qi bs ?qi] ok a False by simp
    have "map_of (map (\<lambda>x. (elem_key x, fst x)) (items q)) = map_of (map (\<lambda>x. (elem_key x, fst x)) (as1 @ (e, ?qi) # as2 @ bs))"
    proof (subst map_of_inject_set)
      show "distinct (map fst (map (\<lambda>x. (elem_key x, fst x)) (items q)))"
        using ok s by (simp add: items_ok_def comp_def)
      show "distinct (map fst (map (\<lambda>x. (elem_key x, fst x)) (as1 @ (e, ?qi) # as2 @ bs)))"
        using ok' by (simp add: items_ok_def comp_def)
    qed (auto simp: s a(1))
    then have "itemsInQueue q = map_of (map (\<lambda>x. (elem_key x, fst x)) (as1 @ (e, ?qi) # as2 @ bs))"
      using assms(1) unfolding queue_inv_def by argo
    moreover have "list_all (\<lambda>x. fst x < next_element q) (as1 @ (e, ?qi) # as2 @ bs)"
      using assms(1) s a(1) by (simp add: queue_inv_def)
    ultimately show ?thesis
      unfolding queue_inv_def using ok' a(2) queue_inv_proc [OF assms(1)] by simp
  qed
qed

lemma queue_inv_place:
  assumes "queue_inv q" and "itemsInQueue q (qi_key v) = None" and "itemsBeingProcessed q (qi_key v) = None"
  shows "queue_inv (q\<lparr>ratelimiter := rl, items := place (next_element q, v) (items q),
     itemsInQueue := (itemsInQueue q)(qi_key v \<mapsto> next_element q), next_element := Suc (next_element q)\<rparr>)"
proof -
  let ?v = "(next_element q, v)"
  have ok: "items_ok (items q)" using assms(1) by (simp add: queue_inv_def)
  then obtain as bs where s: "items q = as @ bs" "place ?v (items q) = as @ ?v # bs"
      "list_all (\<lambda>a. planned a < planned ?v) as" "list_all (\<lambda>b. planned ?v \<le> planned b) bs"
    using place_split by blast
  have fresh: "next_element q \<notin> fst ` set as" "next_element q \<notin> fst ` set bs"
    using queue_inv_fresh [OF assms(1)] s(1) by fastforce+
  have key: "qi_key v \<notin> elem_key ` set as" "qi_key v \<notin> elem_key ` set bs"
    using queue_inv_absent [OF assms(1,2)] s(1) by auto
  have ok': "items_ok (as @ ?v # bs)"
    using ok s fresh key by (fastforce simp: items_ok_def sorted_append list_all_iff)
  have "(itemsInQueue q)(qi_key v \<mapsto> next_element q) = map_of ((qi_key v, next_element q) # map (\<lambda>x. (elem_key x, fst x)) (items q))"
    using assms(1) by (simp add: queue_inv_def)
  also have "\<dots> = map_of (map (\<lambda>x. (elem_key x, fst x)) (as @ ?v # bs))"
  proof (subst map_of_inject_set)
    show "distinct (map fst ((qi_key v, next_element q) # map (\<lambda>x. (elem_key x, fst x)) (items q)))"
      using ok s key by (auto simp: items_ok_def comp_def)
    show "distinct (map fst (map (\<lambda>x. (elem_key x, fst x)) (as @ ?v # bs)))"
      using ok' by (simp add: items_ok_def comp_def)
  qed (auto simp: s(1))
  finally have m: "(itemsInQueue q)(qi_key v \<mapsto> next_element q) = map_of (map (\<lambda>x. (elem_key x, fst x)) (as @ ?v # bs))" .
  have "list_all (\<lambda>x. fst x < Suc (next_element q)) (as @ ?v # bs)"
    using queue_inv_fresh [OF assms(1)] s(1) by (fastforce simp: list_all_iff less_Suc_eq)
  moreover have "qi_key i = k \<and> ((itemsInQueue q)(qi_key v \<mapsto> next_element q)) k = None"
    if "itemsBeingProcessed q k = Some i" for k i
    using queue_inv_proc [OF assms(1) that] assms(3) that by (cases "k = qi_key v") auto
  ultimately show ?thesis using ok' m s(2) by (simp add: queue_inv_def)
qed

lemma map_set_item:
  "(\<And>i. g (f i) = g i) \<Longrightarrow> map (\<lambda>x. g (snd x)) (set_item e f xs) = map (\<lambda>x. g (snd x)) xs"
  by (simp add: set_item_def comp_def)

lemma queue_inv_update_item:
  assumes "queue_inv q" and "\<And>i. qi_key (f i) = qi_key i" and "\<And>i. plannedToStartWorkAt (f i) = plannedToStartWorkAt i"
  shows "queue_inv (update_item r f q)"
  using queue_inv_proc [OF assms(1)] assms(2,3)
  by (cases r; intro queue_inv_cong [OF assms(1)]) (auto simp: map_set_item split: if_splits)

lemma queue_inv_wakeup [simp]: "queue_inv (q\<lparr>wakeupCh := b\<rparr>) \<longleftrightarrow> queue_inv q"
  by (simp add: queue_inv_def)

lemma queue_inv_ratelimiter [simp]: "queue_inv (q\<lparr>ratelimiter := rl\<rparr>) \<longleftrightarrow> queue_inv q"
  by (simp add: queue_inv_def)

lemma redirty_sel [simp]:
  "qi_key (redirty t b i) = qi_key i" "plannedToStartWorkAt (redirty t b i) = plannedToStartWorkAt i"
  "requeues (redirty t b i) = requeues i"
  by (simp_all add: redirty_def)

lemma new_item_sel [simp]:
  "qi_key (new_item k now d dl) = k" "plannedToStartWorkAt (new_item k now d dl) = now + d"
  "requeues (new_item k now d dl) = 0"
  by (simp_all add: new_item_def)

text \<open>The three outcomes of an insertion.\<close>

lemma Queue_insert_cases:
  obtains (redirty) i where "itemsBeingProcessed q k = Some i"
      "Queue_insert When now k rl delay q = (Processing k,
         update_item (Processing k) (redirty (now + durationDeref delay 0) rl) (q\<lparr>wakeupCh := True\<rparr>))"
  | (adjust) e where "itemsBeingProcessed q k = None" "itemsInQueue q k = Some e"
      "Queue_insert When now k rl delay q = (Element e,
         q\<lparr>wakeupCh := True, items := adjustPosition e (now + durationDeref delay 0) (items q)\<rparr>)"
  | (add) v lim where "itemsBeingProcessed q k = None" "itemsInQueue q k = None"
      "Queue_insert When now k rl delay q = (Element (next_element q),
         q\<lparr>wakeupCh := True, ratelimiter := lim, items := place (next_element q, v) (items q),
            itemsInQueue := (itemsInQueue q)(k \<mapsto> next_element q), next_element := Suc (next_element q)\<rparr>)"
      "qi_key v = k" "requeues v = 0"
      "plannedToStartWorkAt v = now + durationDeref delay (if rl then fst (When (ratelimiter q) k) else 0)"
proof (cases "itemsBeingProcessed q k")
  case (Some i)
  then show ?thesis by (intro redirty) (simp_all add: Queue_insert_def Let_def)
next
  case p: None
  show ?thesis
  proof (cases "itemsInQueue q k")
    case (Some e)
    with p show ?thesis by (intro adjust) (simp_all add: Queue_insert_def Let_def)
  next
    case None
    obtain d lim where "When (ratelimiter q) k = (d, lim)" by (cases "When (ratelimiter q) k")
    with p None show ?thesis
      by (cases rl; intro add [of
            "if rl then new_item k now (durationDeref delay d) (Some (durationDeref delay d))
             else new_item k now (durationDeref delay 0) None"
            "if rl then lim else ratelimiter q"])
         (simp_all add: Queue_insert_def Let_def)
  qed
qed

lemma queue_inv_insert: "queue_inv q \<Longrightarrow> queue_inv (snd (Queue_insert When now k rl delay q))"
proof -
  assume inv: "queue_inv q"
  let ?q = "q\<lparr>wakeupCh := True\<rparr>"
  show ?thesis
  proof (cases rule: Queue_insert_cases [of q k When now rl delay])
    case redirty
    with inv show ?thesis by (simp add: queue_inv_update_item del: update_item.simps)
  next
    case adjust
    with inv queue_inv_adjust [of ?q k] show ?thesis by simp
  next
    case (add v lim)
    with inv queue_inv_place [of ?q v lim] show ?thesis by simp
  qed
qed

lemma queue_inv_Forget: "queue_inv q \<Longrightarrow> queue_inv (Forget k q)"
proof (cases "itemsInQueue q k")
  case (Some e)
  assume inv: "queue_inv q"
  obtain as qi bs where s: "items q = as @ (e, qi) # bs" "qi_key qi = k" using queue_inv_split [OF inv Some] by metis
  have "list_Remove e (items q) = as @ bs"
    using s(1) items_okD(1,2) [of as "(e, qi)" bs] inv by (simp add: queue_inv_def)
  moreover have "queue_inv (q\<lparr>itemsBeingProcessed := itemsBeingProcessed q, items := as @ bs,
      itemsInQueue := (itemsInQueue q)(qi_key qi := None)\<rparr>)"
    by (rule queue_inv_remove [OF inv s(1)]) (use queue_inv_proc [OF inv] in auto)
  ultimately show ?thesis using Some s(2) by (cases q) (simp add: Forget_def)
next
  case None
  assume "queue_inv q"
  with None show ?thesis
    by (simp add: Forget_def queue_inv_update_item del: update_item.simps split: option.split)
qed

lemma getNextItem_Take:
  assumes "queue_inv q" and "getNextItem now q = (Take qi, q')"
  shows "\<exists>e bs. items q = (e, qi) # bs \<and> plannedToStartWorkAt qi \<le> now \<and>
    q' = q\<lparr>itemsBeingProcessed := (itemsBeingProcessed q)(qi_key qi \<mapsto> qi), items := bs,
           itemsInQueue := (itemsInQueue q)(qi_key qi := None)\<rparr>"
proof -
  obtain e bs where i: "items q = (e, qi) # bs"
    using assms(2) by (auto simp: getNextItem_def split: list.splits prod.splits if_splits)
  have "list_Remove e (items q) = bs"
    using items_okD(2) [of "[]" "(e, qi)" bs] assms(1) i list_Remove_split [of e "[]" bs qi] by (simp add: queue_inv_def)
  with assms(2) i show ?thesis
    by (auto simp: getNextItem_def time_sub_le_0_iff split: if_splits)
qed

lemma queue_inv_Take: "queue_inv q \<Longrightarrow> getNextItem now q = (Take qi, q') \<Longrightarrow> queue_inv q'"
proof -
  assume inv: "queue_inv q" and "getNextItem now q = (Take qi, q')"
  from getNextItem_Take [OF this] obtain e bs where i: "items q = (e, qi) # bs" and q': "q' =
      q\<lparr>itemsBeingProcessed := (itemsBeingProcessed q)(qi_key qi \<mapsto> qi), items := bs,
         itemsInQueue := (itemsInQueue q)(qi_key qi := None)\<rparr>" by blast
  have "queue_inv (q\<lparr>itemsBeingProcessed := (itemsBeingProcessed q)(qi_key qi \<mapsto> qi), items := [] @ bs,
         itemsInQueue := (itemsInQueue q)(qi_key qi := None)\<rparr>)"
    by (rule queue_inv_remove [OF inv, of "[]" e qi bs]) (use i queue_inv_proc [OF inv] in \<open>auto split: if_splits\<close>)
  then show "queue_inv q'" by (simp add: q')
qed

lemma getNextItem_Wait: "getNextItem now q = (Wait d, q') \<Longrightarrow> q' = q"
  by (auto simp: getNextItem_def split: list.splits if_splits)

lemma queue_inv_drop: "queue_inv q \<Longrightarrow> queue_inv (q\<lparr>itemsBeingProcessed := (itemsBeingProcessed q)(k := None)\<rparr>)"
  using queue_inv_proc [of q] by (rule_tac queue_inv_cong [of q]) (auto split: if_splits)

lemma queue_inv_finish: "queue_inv q \<Longrightarrow> queue_inv (snd (snd (finish_item When Frl retry t0 t1 err qi q)))"
  by (simp add: finish_item_def Let_def queue_inv_drop queue_inv_insert queue_inv_update_item
      case_prod_beta del: update_item.simps split: option.split sum.split)

section \<open>The schedule\<close>

text \<open>The planned start of a queued key, read through the map as the code does.\<close>

definition scheduled :: "'r Queue \<Rightarrow> string \<rightharpoonup> gotime" where
  "scheduled q k = (case itemsInQueue q k of None \<Rightarrow> None | Some e \<Rightarrow> map_option planned (list_get e (items q)))"

lemma scheduled_eq:
  assumes "queue_inv q"
  shows "scheduled q = map_of (map (\<lambda>x. (elem_key x, planned x)) (items q))"
proof
  fix k
  show "scheduled q k = map_of (map (\<lambda>x. (elem_key x, planned x)) (items q)) k"
  proof (cases "itemsInQueue q k")
    case None
    then have "map_of (map (\<lambda>x. (elem_key x, planned x)) (items q)) k = None"
      using queue_inv_absent [OF assms None] by (force simp: map_of_eq_None_iff image_image)
    with None show ?thesis by (simp add: scheduled_def)
  next
    case (Some e)
    then obtain as qi bs where s: "items q = as @ (e, qi) # bs" "qi_key qi = k"
      using queue_inv_split [OF assms] by metis
    have ok: "items_ok (as @ (e, qi) # bs)" using assms s by (simp add: queue_inv_def)
    then have "map_of (map (\<lambda>x. (elem_key x, planned x)) (items q)) k = Some (plannedToStartWorkAt qi)"
      using s by (intro map_of_is_SomeI) (auto simp: items_ok_def comp_def)
    with Some s items_okD(1) [OF ok] show ?thesis by (simp add: scheduled_def)
  qed
qed

lemma scheduled_at:
  assumes "queue_inv q" and "items q = as @ (e, qi) # bs"
  shows "scheduled q (qi_key qi) = Some (plannedToStartWorkAt qi)"
  using scheduled_eq [OF assms(1)] assms
  by (simp del: map_append) (intro map_of_is_SomeI, auto simp: queue_inv_def items_ok_def comp_def)

lemma scheduled_insert:
  assumes "queue_inv q" and "itemsBeingProcessed q k = None"
  shows "scheduled (snd (Queue_insert When now k rl delay q)) = (scheduled q)(k \<mapsto>
    (case scheduled q k of Some t \<Rightarrow> min t (now + durationDeref delay 0)
     | None \<Rightarrow> now + durationDeref delay (if rl then fst (When (ratelimiter q) k) else 0)))"
proof -
  let ?q' = "snd (Queue_insert When now k rl delay q)"
  let ?kp = "map (\<lambda>x. (elem_key x, planned x))"
  note eq' = scheduled_eq [OF queue_inv_insert [OF assms(1)], of When now k rl delay]
  note eq = scheduled_eq [OF assms(1)]
  show ?thesis
  proof (cases rule: Queue_insert_cases [of q k When now rl delay])
    case redirty
    with assms(2) show ?thesis by simp
  next
    case (adjust e)
    let ?w = "now + durationDeref delay 0"
    obtain as qi bs where s: "items q = as @ (e, qi) # bs" "qi_key qi = k"
      using queue_inv_split [OF assms(1) adjust(2)] by metis
    have at: "scheduled q k = Some (plannedToStartWorkAt qi)" using scheduled_at [OF assms(1) s(1)] s(2) by simp
    have ok: "items_ok (as @ (e, qi) # bs)" using assms(1) s by (simp add: queue_inv_def)
    show ?thesis
    proof (cases "plannedToStartWorkAt qi < ?w")
      case True
      then have "items ?q' = items q" using items_okD(1) [OF ok] s adjust(3) by (simp add: adjustPosition_def)
      then have "scheduled ?q' = scheduled q" using eq' eq by simp
      with at True show ?thesis by (simp add: fun_upd_idem)
    next
      case False
      then obtain as1 as2 where a: "as = as1 @ as2"
          "items ?q' = as1 @ (e, qi\<lparr>plannedToStartWorkAt := ?w\<rparr>) # as2 @ bs"
        using adjustPosition_split [OF ok, of ?w] s adjust(3) by auto
      have nk: "k \<notin> elem_key ` set as1" "k \<notin> elem_key ` set as2"
        using ok s(2) a(1) by (auto simp: items_ok_def)
      then have "map_of (?kp as1) k = None" "map_of (?kp as2) k = None"
        by (force simp: map_of_eq_None_iff image_image)+
      then have "map_of (?kp (items ?q')) = (map_of (?kp (items q)))(k \<mapsto> ?w)"
        using a s by (auto simp: fun_eq_iff map_add_def split: option.split)
      with eq eq' at False show ?thesis by simp
    qed
  next
    case (add v lim)
    have at: "scheduled q k = None" using add(2) by (simp add: scheduled_def)
    have "items_ok (items q)" using assms(1) by (simp add: queue_inv_def)
    from place_split [OF this, of "(next_element q, v)"]
    obtain as bs where p: "items q = as @ bs" "items ?q' = as @ (next_element q, v) # bs"
      using add(3) by auto
    have "k \<notin> elem_key ` set as" using queue_inv_absent [OF assms(1) add(2)] p(1) by auto
    then have "map_of (?kp as) k = None" by (force simp: map_of_eq_None_iff image_image)
    then have "map_of (?kp (items ?q')) = (map_of (?kp (items q)))(k \<mapsto> plannedToStartWorkAt v)"
      using p add(4) by (auto simp: fun_eq_iff map_add_def split: option.split)
    with eq eq' at add(6) show ?thesis by simp
  qed
qed

lemma scheduled_update_item:
  assumes "queue_inv q" and "\<And>i. qi_key (f i) = qi_key i" and "\<And>i. plannedToStartWorkAt (f i) = plannedToStartWorkAt i"
  shows "scheduled (update_item r f q) = scheduled q"
proof -
  have "map (\<lambda>x. (elem_key x, planned x)) (set_item e f xs) = map (\<lambda>x. (elem_key x, planned x)) xs" for e xs
    using map_set_item [of "\<lambda>i. (qi_key i, plannedToStartWorkAt i)" f e xs] assms(2,3) by simp
  then show ?thesis
    by (simp only: scheduled_eq [OF assms(1)] scheduled_eq [OF queue_inv_update_item [OF assms]]) (cases r; simp)
qed

lemma scheduled_simps [simp]:
  "scheduled (q\<lparr>itemsBeingProcessed := P\<rparr>) = scheduled q" "scheduled (q\<lparr>ratelimiter := rl\<rparr>) = scheduled q"
  by (simp_all add: scheduled_def fun_eq_iff split: option.split)

text \<open>Inserting a key that is not being processed changes the schedule of that key only: a
  queued key is brought forward or left where it is, never delayed further, and a new key is
  planned after the given delay, or after the rate limiter's delay when rate limited and no
  delay is given.\<close>

lemma insert_schedule:
  assumes "queue_inv q" and "itemsBeingProcessed q k = None"
  shows "scheduled (snd (Queue_insert When now k rl delay q)) = (scheduled q)(k \<mapsto>
    (case scheduled q k of Some t \<Rightarrow> min t (now + durationDeref delay 0)
     | None \<Rightarrow> now + durationDeref delay (if rl then fst (When (ratelimiter q) k) else 0)))"
  using assms by (rule scheduled_insert)

lemma queue_inv_New: "queue_inv (New_Queue rl)"
  by (simp add: queue_inv_def New_Queue_def items_ok_def)

theorem insert_schedule_witness:
  "scheduled (snd (Queue_insert (\<lambda>r k. (9, r)) 10 ''a'' True None (New_Queue ()))) ''a'' = Some 19"
proof -
  have n: "itemsBeingProcessed (New_Queue ()) ''a'' = None" "scheduled (New_Queue ()) ''a'' = None"
    by (simp_all add: New_Queue_def scheduled_def)
  then show ?thesis
    using insert_schedule [OF queue_inv_New n(1), of "\<lambda>r k. (9, r)" 10 True None] by (simp add: durationDeref_def)
qed

lemma reinsert:
  assumes "queue_inv p" and "itemsBeingProcessed p k = None" and "scheduled p k = None"
    and "\<And>i. qi_key (f i) = qi_key i" and "\<And>i. plannedToStartWorkAt (f i) = plannedToStartWorkAt i"
    and "Queue_insert When t k rl d p = (r, p')"
  shows "itemsBeingProcessed (update_item r f p') = itemsBeingProcessed p"
    and "scheduled (update_item r f p') = (scheduled p)(k \<mapsto> t + durationDeref d (if rl then fst (When (ratelimiter p) k) else 0))"
proof -
  show "itemsBeingProcessed (update_item r f p') = itemsBeingProcessed p"
    using assms(2,6) by (cases rule: Queue_insert_cases [of p k When t rl d]) auto
  have "queue_inv p'" using queue_inv_insert [OF assms(1), of When t k rl d] assms(6) by simp
  then show "scheduled (update_item r f p') = (scheduled p)(k \<mapsto> t + durationDeref d (if rl then fst (When (ratelimiter p) k) else 0))"
    using scheduled_insert [OF assms(1,2), of When t rl d] assms(3-6) by (simp add: scheduled_update_item)
qed

text \<open>When the handler of a key returns, the key leaves the set of keys being processed; it
  is dropped if it was forgotten meanwhile; otherwise a failure is rescheduled after the rate
  limiter's delay until the twentieth attempt has failed, which calls \<open>onForget\<close>; and after a
  success or the last failure a key enqueued meanwhile is rescheduled for the requested time.
  The schedule of every other key is unchanged.\<close>

lemma finish_outcome:
  assumes "queue_inv q" and "itemsBeingProcessed q k = Some qi" and "0 \<le> requeues qi" and "requeues qi < MaxRetries"
    and "finish_item When Frl DefaultRetryFunc t0 t1 err qi q = (ret, cb, q')"
  shows "itemsBeingProcessed q' = (itemsBeingProcessed q)(k := None) \<and>
    scheduled q' = (scheduled q)(k :=
      (if qi_forget qi then None
       else if err \<noteq> None \<and> requeues qi + 1 < MaxRetries then Some (t0 + fst (When (ratelimiter q) k))
       else if redirtiedAt qi \<noteq> 0 then Some (t1 + time_sub (redirtiedAt qi) t0) else None)) \<and>
    (cb \<noteq> None \<longleftrightarrow> \<not> qi_forget qi \<and> err \<noteq> None \<and> MaxRetries \<le> requeues qi + 1)"
proof -
  let ?q = "q\<lparr>itemsBeingProcessed := (itemsBeingProcessed q)(k := None)\<rparr>"
  have key: "qi_key qi = k" and nq: "itemsInQueue q k = None" using queue_inv_proc [OF assms(1,2)] by simp_all
  have inv: "queue_inv (?q\<lparr>ratelimiter := rl\<rparr>)" "queue_inv ?q" for rl using queue_inv_drop [OF assms(1)] by simp_all
  have sk: "scheduled q k = None" by (simp add: scheduled_def nq)
  then have id: "(scheduled q)(k := None) = scheduled q" by (simp add: fun_upd_idem)
  have r: "int64 (requeues qi + 1) = requeues qi + 1" using assms(3,4) by (simp add: int64_id MaxRetries_def in_int64_def)
  note requeued = reinsert [OF inv(2), of k "\<lambda>i. i\<lparr>requeues := requeues qi + 1, originallyAdded := originallyAdded qi\<rparr>" When t0 True None]
  note again = reinsert [OF inv(1) [of "Frl (ratelimiter q) k"], of k "addedViaRedirty_update (\<lambda>_. True)" When t1
      "redirtiedWithRatelimit qi" "Some (time_sub (redirtiedAt qi) t0)"]
  consider (forget) "qi_forget qi" | (retry) e where "\<not> qi_forget qi" "err = Some e" "requeues qi + 1 < MaxRetries"
    | (final) "\<not> qi_forget qi" "err = None \<or> \<not> requeues qi + 1 < MaxRetries" by (cases err) auto
  then show ?thesis
  proof cases
    case forget
    with assms(5) id show ?thesis by (auto simp: finish_item_def Let_def key)
  next
    case (retry e)
    let ?f = "\<lambda>i. i\<lparr>requeues := requeues qi + 1, originallyAdded := originallyAdded qi\<rparr>"
    obtain p p' where p: "Queue_insert When t0 k True None ?q = (p, p')" by fastforce
    then have "q' = update_item p ?f p'" "cb = None"
      using assms(5) retry by (simp_all add: finish_item_def Let_def key DefaultRetryFunc_def r)
    with requeued [OF _ _ _ _ p] retry sk show ?thesis by (simp add: durationDeref_def del: update_item.simps)
  next
    case final
    let ?p = "?q\<lparr>ratelimiter := Frl (ratelimiter q) k\<rparr>"
    let ?d = "Some (time_sub (redirtiedAt qi) t0)"
    obtain p p' where p: "Queue_insert When t1 k (redirtiedWithRatelimit qi) ?d ?p = (p, p')" by fastforce
    have "q' = (if redirtiedAt qi \<noteq> 0 then update_item p (addedViaRedirty_update (\<lambda>_. True)) p' else ?p)"
      using assms(5) final p
      by (cases err; cases "redirtiedAt qi = 0")
        (simp_all add: finish_item_def Let_def key DefaultRetryFunc_def r del: update_item.simps)
    moreover have "cb \<noteq> None \<longleftrightarrow> err \<noteq> None"
      using assms(5) final by (cases err) (auto simp: finish_item_def Let_def key DefaultRetryFunc_def r)
    ultimately show ?thesis using again [OF _ _ _ _ p] final sk id
      by (cases err; cases "redirtiedAt qi = 0") (simp_all add: durationDeref_def not_less del: update_item.simps)
  qed
qed

theorem finish_outcome_witness:
  "scheduled (snd (snd (finish_item (\<lambda>r k. (9, r)) (\<lambda>r k. r) DefaultRetryFunc 10 11 (Some (HandlerError ''e''))
     (new_item ''a'' 1 0 None) ((New_Queue (0::nat))\<lparr>itemsBeingProcessed := [''a'' \<mapsto> new_item ''a'' 1 0 None]\<rparr>)))) ''a'' = Some 19"
proof -
  let ?i = "new_item ''a'' 1 0 None"
  let ?q = "(New_Queue (0::nat))\<lparr>itemsBeingProcessed := [''a'' \<mapsto> ?i]\<rparr>"
  let ?r = "finish_item (\<lambda>r k. (9, r)) (\<lambda>r k. r) DefaultRetryFunc 10 11 (Some (HandlerError ''e'')) ?i ?q"
  have inv: "queue_inv ?q" by (simp add: queue_inv_def New_Queue_def items_ok_def)
  obtain ret cb q' where r: "?r = (ret, cb, q')" by (cases ?r)
  have i: "qi_forget ?i = False" "requeues ?i = 0" by (simp_all add: new_item_def)
  have "scheduled q' ''a'' = Some (10 + 9)"
    using finish_outcome [OF inv _ _ _ r] i by (simp add: MaxRetries_def)
  then show ?thesis by (simp add: r)
qed

section \<open>The running queue\<close>

text \<open>
  One goroutine at a time holds the semaphore of \<open>getNextItem\<close>: it is about to look at the
  queue, or asleep until the wake-up channel or its timer fires. Handlers return in any order;
  enqueueing and forgetting happen at any time.
\<close>

datatype waiter = Idle | Checking | Sleeping "gotime option"

inductive queue_step :: "('r \<Rightarrow> string \<Rightarrow> int \<times> 'r) \<Rightarrow> ('r \<Rightarrow> string \<Rightarrow> 'r) \<Rightarrow> retry_func
    \<Rightarrow> 'r Queue \<times> waiter \<Rightarrow> 'r Queue \<times> waiter \<Rightarrow> bool" for When Frl retry where
  insert: "queue_step When Frl retry (q, w) (snd (Queue_insert When now k rl delay q), w)"
| forget: "queue_step When Frl retry (q, w) (Forget k q, w)"
| acquire: "queue_step When Frl retry (q, Idle) (q, Checking)"
| take_item: "getNextItem now q = (Take qi, q') \<Longrightarrow> queue_step When Frl retry (q, Checking) (q', Idle)"
| sleep: "getNextItem now q = (Wait d, q') \<Longrightarrow> queue_step When Frl retry (q, Checking) (q', Sleeping d)"
| wakeup: "wakeupCh q \<Longrightarrow> queue_step When Frl retry (q, Sleeping d) (q\<lparr>wakeupCh := False\<rparr>, Checking)"
| timer: "queue_step When Frl retry (q, Sleeping (Some t)) (q, Checking)"
| cancel: "queue_step When Frl retry (q, Sleeping d) (q, Idle)"
| finish: "itemsBeingProcessed q k = Some qi \<Longrightarrow> finish_item When Frl retry t0 t1 err qi q = (ret, cb, q') \<Longrightarrow>
    queue_step When Frl retry (q, w) (q', w)"

definition retries_ok :: "'r Queue \<Rightarrow> bool" where
  "retries_ok q \<longleftrightarrow> list_all (\<lambda>x. 0 \<le> requeues (snd x) \<and> requeues (snd x) < MaxRetries) (items q) \<and>
     (\<forall>k qi. itemsBeingProcessed q k = Some qi \<longrightarrow> 0 \<le> requeues qi \<and> requeues qi < MaxRetries)"

text \<open>A sleeper that has not been sent a wake-up will wake no later than any queued item.\<close>

fun wake_ok :: "waiter \<Rightarrow> 'r Queue \<Rightarrow> bool" where
  "wake_ok (Sleeping None) q = (wakeupCh q \<or> items q = [])"
| "wake_ok (Sleeping (Some t)) q = (wakeupCh q \<or> list_all (\<lambda>x. t \<le> planned x) (items q))"
| "wake_ok _ q = True"

lemma retries_ok_insert:
  assumes "queue_inv q" and "retries_ok q"
  shows "retries_ok (snd (Queue_insert When now k rl delay q))"
proof (cases rule: Queue_insert_cases [of q k When now rl delay])
  case redirty
  with assms(2) show ?thesis by (auto simp: retries_ok_def)
next
  case (adjust e)
  let ?w = "now + durationDeref delay 0"
  obtain as qi bs where s: "items q = as @ (e, qi) # bs" using queue_inv_split [OF assms(1) adjust(2)] by metis
  have ok: "items_ok (as @ (e, qi) # bs)" using assms(1) s by (simp add: queue_inv_def)
  show ?thesis
  proof (cases "plannedToStartWorkAt qi < ?w")
    case True
    then show ?thesis using assms(2) items_okD(1) [OF ok] s adjust(3) by (simp add: retries_ok_def adjustPosition_def)
  next
    case False
    then obtain as1 as2 where "as = as1 @ as2"
        "adjustPosition e ?w (items q) = as1 @ (e, qi\<lparr>plannedToStartWorkAt := ?w\<rparr>) # as2 @ bs"
      using adjustPosition_split [OF ok, of ?w] s by auto
    with s assms(2) adjust(3) show ?thesis by (simp add: retries_ok_def)
  qed
next
  case (add v lim)
  have "items_ok (items q)" using assms(1) by (simp add: queue_inv_def)
  from place_split [OF this, of "(next_element q, v)"] obtain as bs
    where "items q = as @ bs" "place (next_element q, v) (items q) = as @ (next_element q, v) # bs" by blast
  with add(3,5) assms(2) show ?thesis by (simp add: retries_ok_def MaxRetries_def)
qed

lemma retries_ok_update:
  assumes "retries_ok q" and "\<And>i. 0 \<le> requeues i \<and> requeues i < MaxRetries \<Longrightarrow> 0 \<le> requeues (f i) \<and> requeues (f i) < MaxRetries"
  shows "retries_ok (update_item r f q)"
  using assms by (cases r) (auto simp: retries_ok_def set_item_def list_all_iff split: if_splits)

lemma retries_ok_simps [simp]:
  "retries_ok (q\<lparr>ratelimiter := rl\<rparr>) = retries_ok q" "retries_ok (q\<lparr>wakeupCh := b\<rparr>) = retries_ok q"
  by (simp_all add: retries_ok_def)

lemma retries_ok_finish:
  assumes "queue_inv q" and "retries_ok q" and "itemsBeingProcessed q k = Some qi"
    and "finish_item When Frl DefaultRetryFunc t0 t1 err qi q = (ret, cb, q')"
  shows "retries_ok q'"
proof -
  let ?q = "q\<lparr>itemsBeingProcessed := (itemsBeingProcessed q)(qi_key qi := None)\<rparr>"
  have b: "0 \<le> requeues qi" "requeues qi < MaxRetries" using assms(2,3) by (auto simp: retries_ok_def)
  then have r: "int64 (requeues qi + 1) = requeues qi + 1" by (simp add: int64_id MaxRetries_def in_int64_def)
  have ok: "queue_inv ?q" "retries_ok ?q" using assms queue_inv_drop by (auto simp: retries_ok_def)
  have "retries_ok (snd (snd (finish_item When Frl DefaultRetryFunc t0 t1 err qi q)))"
    using ok b by (simp add: finish_item_def Let_def r DefaultRetryFunc_def case_prod_beta retries_ok_insert
        retries_ok_update del: update_item.simps split: option.split)
  with assms(4) show ?thesis by simp
qed

lemma wakeup_insert [simp]: "wakeupCh (snd (Queue_insert When now k rl delay q))"
  by (cases rule: Queue_insert_cases [of q k When now rl delay]) simp_all

lemma wake_ok_mono:
  assumes "wake_ok w q" and "wakeupCh q \<Longrightarrow> wakeupCh q'" and "wakeupCh q' \<or> set (items q') \<subseteq> set (items q)"
  shows "wake_ok w q'"
  using assms by (cases "(w, q)" rule: wake_ok.cases) (auto simp: list_all_iff)

lemma wakeup_update [simp]: "wakeupCh (update_item r f q) = wakeupCh q"
  by (cases r) simp_all

lemma finish_wake:
  "wakeupCh (snd (snd (finish_item When Frl retry t0 t1 err qi q))) \<or>
   wakeupCh (snd (snd (finish_item When Frl retry t0 t1 err qi q))) = wakeupCh q \<and>
   items (snd (snd (finish_item When Frl retry t0 t1 err qi q))) = items q"
  by (simp add: finish_item_def Let_def case_prod_beta split: option.split sum.split)

lemma getNextItem_sleep:
  assumes "queue_inv q" and "getNextItem now q = (Wait d, q')"
  shows "wake_ok (Sleeping d) q'"
proof (cases "items q")
  case Nil
  with assms(2) show ?thesis by (auto simp: getNextItem_def)
next
  case (Cons x xs)
  obtain e qi where x: "x = (e, qi)" by (cases x)
  have "\<forall>b\<in>set xs. planned x \<le> planned b"
    using items_okD(5) [of "[]" x xs] assms(1) Cons by (simp add: queue_inv_def)
  moreover have "d = Some (now + time_sub (plannedToStartWorkAt qi) now)" "q' = q" "now < plannedToStartWorkAt qi"
    using assms(2) Cons x by (auto simp: getNextItem_def time_sub_le_0_iff split: if_splits)
  ultimately show ?thesis using Cons x by (auto simp: list_all_iff time_sub_def)
qed

lemma queue_step_inv:
  assumes "queue_step When Frl DefaultRetryFunc s t" and "queue_inv (fst s) \<and> retries_ok (fst s) \<and> wake_ok (snd s) (fst s)"
  shows "queue_inv (fst t) \<and> retries_ok (fst t) \<and> wake_ok (snd t) (fst t)"
  using assms
proof (induction rule: queue_step.induct)
  case (insert q w now k rl delay)
  have "wake_ok w (snd (Queue_insert When now k rl delay q))"
    by (rule wake_ok_mono [of w q]) (use insert in simp_all)
  with insert show ?case by (simp add: queue_inv_insert retries_ok_insert)
next
  case (forget q w k)
  have "retries_ok (Forget k q)" using forget
    by (auto simp: Forget_def retries_ok_def list_Remove_def list_all_iff split: option.splits if_splits)
  moreover have "wake_ok w (Forget k q)"
    by (rule wake_ok_mono [of w q]) (use forget in \<open>auto simp: Forget_def list_Remove_def split: option.splits\<close>)
  ultimately show ?case using forget by (simp add: queue_inv_Forget)
next
  case (take_item now q qi q')
  then obtain e bs where "items q = (e, qi) # bs"
      "q' = q\<lparr>itemsBeingProcessed := (itemsBeingProcessed q)(qi_key qi \<mapsto> qi), items := bs,
           itemsInQueue := (itemsInQueue q)(qi_key qi := None)\<rparr>"
    using getNextItem_Take [OF _ take_item.hyps] by auto
  with take_item show ?case using queue_inv_Take [OF _ take_item.hyps] by (auto simp: retries_ok_def split: if_splits)
next
  case (sleep now q d q')
  then show ?case using getNextItem_sleep [OF _ sleep.hyps] getNextItem_Wait [OF sleep.hyps] by auto
next
  case (finish q k qi t0 t1 err ret cb q' w)
  have "wake_ok w q'"
    by (rule wake_ok_mono [of w q]) (use finish finish_wake [of When Frl DefaultRetryFunc t0 t1 err qi q] in auto)
  moreover have "retries_ok q'" using retries_ok_finish [OF _ _ finish.hyps] finish.prems by simp
  ultimately show ?case
    using finish queue_inv_finish [of q When Frl DefaultRetryFunc t0 t1 err qi] by simp
qed simp_all

lemma queue_reach_inv:
  assumes "(queue_step When Frl DefaultRetryFunc)\<^sup>*\<^sup>* (New_Queue rl, Idle) s"
  shows "queue_inv (fst s) \<and> retries_ok (fst s) \<and> wake_ok (snd s) (fst s)"
  using assms
proof (induction rule: rtranclp_induct)
  case base
  show ?case by (simp add: queue_inv_New) (simp add: New_Queue_def retries_ok_def)
next
  case (step s t)
  then show ?case using queue_step_inv by blast
qed

lemma queue_Len_inv: "queue_inv q \<Longrightarrow> length (items q) = card (dom (itemsInQueue q))"
  using distinct_card [of "map elem_key (items q)"]
  by (simp add: queue_inv_def items_ok_def dom_map_of_conv_image_fst image_image)

text \<open>C5: in every reachable state of a running queue the items are sorted by planned start, every
  key is queued at most once and not while it is being processed, the index points to the element
  of its key, no item has been retried twenty times, and the length functions do not panic.\<close>

theorem running_queue_inv:
  assumes "(queue_step When Frl DefaultRetryFunc)\<^sup>*\<^sup>* (New_Queue rl, Idle) (q, w)"
  shows "queue_inv q \<and> retries_ok q \<and> Queue_Len q \<noteq> None \<and> UnprocessedLen q = Some (length (items q))"
  using queue_reach_inv [OF assms] by (simp add: Queue_Len_def UnprocessedLen_def queue_Len_inv)

theorem running_queue_inv_witness:
  "Queue_Len (snd (Queue_insert (\<lambda>r k. (9, r)) 0 ''a'' True None (New_Queue (0::nat)))) \<noteq> None"
  using running_queue_inv [OF r_into_rtranclp [of "queue_step (\<lambda>r k. (9, r)) (\<lambda>r k. r) DefaultRetryFunc",
        OF queue_step.insert [of _ _ _ "New_Queue (0::nat)" Idle 0 "''a''" True None]]] by simp

text \<open>C21: no wake-up is lost: a goroutine asleep in \<open>getNextItem\<close> either has a wake-up pending, or
  its timer fires no later than the planned start of any queued item; it sleeps without a timer
  only while the queue is empty.\<close>

theorem no_lost_wakeup:
  assumes "(queue_step When Frl DefaultRetryFunc)\<^sup>*\<^sup>* (New_Queue rl, Idle) (q, Sleeping d)"
    and "x \<in> set (items q)" and "\<not> wakeupCh q"
  shows "\<exists>t. d = Some t \<and> t \<le> planned x"
  using queue_reach_inv [OF assms(1)] assms(2,3) by (cases d) (auto simp: list_all_iff)

lemma sleeping_run:
  defines "q \<equiv> snd (Queue_insert (\<lambda>r k. (9, r)) 0 ''a'' False (Some 100) (New_Queue (0::nat)))"
  shows "(queue_step (\<lambda>r k. (9, r)) (\<lambda>r k. r) DefaultRetryFunc)\<^sup>*\<^sup>* (New_Queue (0::nat), Idle)
      (q\<lparr>wakeupCh := False\<rparr>, Sleeping (Some 100))"
    and "items (q\<lparr>wakeupCh := False\<rparr>) = [(0, new_item ''a'' 0 100 None)]"
proof -
  let ?s = "queue_step (\<lambda>r k. (9::int, r)) (\<lambda>r k. r) DefaultRetryFunc"
  have q: "items q = [(0, new_item ''a'' 0 100 None)]" "wakeupCh q"
    by (simp_all add: q_def Queue_insert_def New_Queue_def durationDeref_def place_def Let_def)
  have next_q: "getNextItem 0 q = (Wait (Some 100), q)"
      "getNextItem 0 (q\<lparr>wakeupCh := False\<rparr>) = (Wait (Some 100), q\<lparr>wakeupCh := False\<rparr>)"
    using q by (simp_all add: getNextItem_def time_sub_def)
  have s1: "?s (New_Queue 0, Idle) (q, Idle)" unfolding q_def by (rule queue_step.insert)
  have s2: "?s (q, Idle) (q, Checking)" by (rule queue_step.acquire)
  have s3: "?s (q, Checking) (q, Sleeping (Some 100))" using next_q(1) by (rule queue_step.sleep)
  have s4: "?s (q, Sleeping (Some 100)) (q\<lparr>wakeupCh := False\<rparr>, Checking)" using q(2) by (rule queue_step.wakeup)
  have s5: "?s (q\<lparr>wakeupCh := False\<rparr>, Checking) (q\<lparr>wakeupCh := False\<rparr>, Sleeping (Some 100))"
    using next_q(2) by (rule queue_step.sleep)
  note into = rtranclp.rtrancl_into_rtrancl
  show "?s\<^sup>*\<^sup>* (New_Queue 0, Idle) (q\<lparr>wakeupCh := False\<rparr>, Sleeping (Some 100))"
    by (rule into [OF into [OF into [OF into [OF r_into_rtranclp [of ?s, OF s1] s2] s3] s4] s5])
  show "items (q\<lparr>wakeupCh := False\<rparr>) = [(0, new_item ''a'' 0 100 None)]" using q by simp
qed

theorem no_lost_wakeup_witness: "\<exists>t. Some 100 = Some t \<and> t \<le> planned (0::nat, new_item ''a'' 0 100 None)"
  by (rule no_lost_wakeup [OF sleeping_run(1)]) (simp_all add: sleeping_run(2))

end
