(* ===== verification/Ip_Pool.thy ===== *)
theory Ip_Pool
  imports Prelude
begin

unbundle bit_operations_syntax

text \<open>
  The address pool of the bridge network, \<open>internal/network/ippool.go\<close>: 32-bit offsets handed
  out in cyclic order, starting at offset 2. The search loop is a partial function, so that it
  returns is something to prove. What \<open>net.ParseCIDR\<close> returns, the masked address and the prefix
  length of an IPv4 network, is an argument of the constructor; Go iterates over a map in an
  unspecified order, which is an argument of \<open>Release\<close>.
\<close>

section \<open>Operations\<close>

record ipPool =
  pool_base :: "32 word"
  pool_next :: "32 word"
  pool_max :: "32 word"
  inUse :: "32 word \<rightharpoonup> string"

datatype pool_error = InvalidCIDR | Exhausted

definition newIPPool :: "(32 word \<times> nat) option \<Rightarrow> pool_error + ipPool" where
  "newIPPool parsed = (case parsed of
     None \<Rightarrow> Inl InvalidCIDR
   | Some (network, ones) \<Rightarrow> Inr \<lparr>pool_base = network, pool_next = 2,
       pool_max = push_bit (32 - ones) 1 - 2, inUse = Map.empty\<rparr>)"

text \<open>The dotted form of an address, as \<open>net.IP.String\<close> prints four bytes.\<close>

definition byte_of :: "32 word \<Rightarrow> nat \<Rightarrow> nat" where
  "byte_of w n = unat (take_bit 8 (drop_bit (8 * n) w))"

definition ip_string :: "32 word \<Rightarrow> string" where
  "ip_string w = nat_dec (byte_of w 3) @ ''.'' @ nat_dec (byte_of w 2) @ ''.'' @
     nat_dec (byte_of w 1) @ ''.'' @ nat_dec (byte_of w 0)"

definition next_offset :: "ipPool \<Rightarrow> 32 word" where
  "next_offset p = (let n = pool_next p + 1 in if pool_max p < n then 2 else n)"

partial_function (option) allocate_loop ::
    "32 word \<Rightarrow> string \<Rightarrow> ipPool \<Rightarrow> ((pool_error + string) \<times> ipPool) option" where
  "allocate_loop start podUID p =
     (if inUse p (pool_next p) = None then
        Some (Inr (ip_string (pool_base p + pool_next p)),
          p\<lparr>inUse := (inUse p)(pool_next p \<mapsto> podUID), pool_next := next_offset p\<rparr>)
      else if next_offset p = start then Some (Inl Exhausted, p\<lparr>pool_next := next_offset p\<rparr>)
      else allocate_loop start podUID (p\<lparr>pool_next := next_offset p\<rparr>))"

definition Allocate :: "string \<Rightarrow> ipPool \<Rightarrow> ((pool_error + string) \<times> ipPool) option" where
  "Allocate podUID p = allocate_loop (pool_next p) podUID p"

definition Release :: "32 word list \<Rightarrow> string \<Rightarrow> ipPool \<Rightarrow> ipPool" where
  "Release order podUID p = (case find (\<lambda>offset. inUse p offset = Some podUID) order of
     None \<Rightarrow> p
   | Some offset \<Rightarrow> p\<lparr>inUse := (inUse p)(offset := None)\<rparr>)"

definition Gateway :: "ipPool \<Rightarrow> string" where
  "Gateway p = ip_string (pool_base p + 1)"

function bitLen :: "32 word \<Rightarrow> int" where
  "bitLen n = (if 0 < n then bitLen (drop_bit 1 n) + 1 else 0)"
  by auto
termination
proof (relation "measure unat")
  fix n :: "32 word"
  assume "0 < n"
  then have "0 < unat n" by (simp add: unat_gt_0)
  moreover have "unat (drop_bit 1 n) = unat n div 2"
    by (simp only: unat_drop_bit_eq) (simp add: drop_bit_eq_div)
  ultimately show "(drop_bit 1 n, n) \<in> measure unat" by simp
qed simp

declare bitLen.simps [simp del]

definition Subnet :: "ipPool \<Rightarrow> string" where
  "Subnet p = ''/'' @ itoa (32 - bitLen (pool_max p + 1))"

section \<open>The prefix length is recovered\<close>

lemma bitLen_mask: "h \<le> 32 \<Longrightarrow> bitLen (mask h) = int h"
proof (induction h)
  case 0
  show ?case by (simp add: bitLen.simps)
next
  case (Suc h)
  have "mask (Suc h) \<noteq> (0 :: 32 word)" by (simp add: mask_eq_0_iff)
  then have "0 < (mask (Suc h) :: 32 word)" by (simp only: word_neq_0_conv)
  moreover have "drop_bit 1 (mask (Suc h) :: 32 word) = mask h"
    using Suc.prems by (auto simp: bit_eq_iff bit_simps)
  ultimately show ?case using Suc by (subst bitLen.simps) (simp del: drop_bit_Suc)
qed

text \<open>The prefix length printed for a pool is the one the pool was created with, for every
  prefix length up to 32.\<close>

lemma Subnet_roundtrip:
  assumes "ones \<le> 32" and "newIPPool (Some (ip, ones)) = Inr p"
  shows "Subnet p = ''/'' @ itoa (int ones)"
proof -
  have "pool_max p + 1 = mask (32 - ones)"
    using assms(2) by (auto simp: newIPPool_def mask_eq_exp_minus_1 push_bit_eq_mult)
  then show ?thesis using assms(1) by (simp add: Subnet_def bitLen_mask of_nat_diff)
qed

theorem Subnet_roundtrip_witness:
  "Subnet \<lparr>pool_base = 176685056, pool_next = 2, pool_max = push_bit 16 1 - 2, inUse = Map.empty\<rparr> = ''/'' @ itoa (int 16)"
  by (rule Subnet_roundtrip [of _ 176685056]) (simp_all add: newIPPool_def)

section \<open>Addresses\<close>

lemma split_unique:
  assumes "xs @ c # r = ys @ c # r'" and "c \<notin> set xs" and "c \<notin> set ys"
  shows "xs = ys \<and> r = r'"
  using assms
proof (induction xs arbitrary: ys)
  case Nil
  then show ?case by (cases ys) simp_all
next
  case (Cons x xs)
  then show ?case by (cases ys) auto
qed

lemma nat_dec_no_dot: "CHR ''.'' \<notin> set (nat_dec n)"
  using nat_dec_digits [of "CHR ''.''" n] by auto

lemma byte_of_inj:
  assumes "\<And>k. k < 4 \<Longrightarrow> byte_of v k = byte_of w k"
  shows "v = w"
proof (rule bit_eqI)
  fix n
  assume "possible_bit TYPE(32 word) n"
  then have n: "n < 32" by (simp add: possible_bit_def)
  have "bit u n = bit (take_bit 8 (drop_bit (8 * (n div 8)) u)) (n mod 8)" for u :: "32 word"
    by (simp add: bit_simps)
  moreover have "take_bit 8 (drop_bit (8 * (n div 8)) v) = take_bit 8 (drop_bit (8 * (n div 8)) w)"
    using assms [of "n div 8"] n unfolding byte_of_def word_unat_eq_iff by simp
  ultimately show "bit v n = bit w n" by simp
qed

lemma ip_string_inj: "ip_string v = ip_string w \<Longrightarrow> v = w"
proof (rule byte_of_inj)
  fix k :: nat
  assume eq: "ip_string v = ip_string w" and "k < 4"
  note s = split_unique [OF _ nat_dec_no_dot nat_dec_no_dot]
  from eq have "nat_dec (byte_of v 3) @ CHR ''.'' # (nat_dec (byte_of v 2) @ CHR ''.'' # (nat_dec (byte_of v 1) @
      CHR ''.'' # nat_dec (byte_of v 0))) = nat_dec (byte_of w 3) @ CHR ''.'' # (nat_dec (byte_of w 2) @ CHR ''.'' #
      (nat_dec (byte_of w 1) @ CHR ''.'' # nat_dec (byte_of w 0)))"
    unfolding ip_string_def append_Cons append_Nil .
  note r3 = s [OF this]
  note r2 = s [OF conjunct2 [OF r3]]
  note r1 = s [OF conjunct2 [OF r2]]
  have 3: "nat_dec (byte_of v 3) = nat_dec (byte_of w 3)" by (rule conjunct1 [OF r3])
  have 2: "nat_dec (byte_of v 2) = nat_dec (byte_of w 2)" by (rule conjunct1 [OF r2])
  have "nat_dec (byte_of v 1) = nat_dec (byte_of w 1)" "nat_dec (byte_of v 0) = nat_dec (byte_of w 0)"
    by (rule conjunct1 [OF r1], rule conjunct2 [OF r1])
  with 2 3 have "byte_of v 0 = byte_of w 0" "byte_of v 1 = byte_of w 1" "byte_of v 2 = byte_of w 2" "byte_of v 3 = byte_of w 3"
    by (blast dest: nat_dec_inj)+
  moreover have "k \<in> {0, 1, 2, 3}" using \<open>k < 4\<close> by auto
  ultimately show "byte_of v k = byte_of w k" by auto
qed

lemma ip_string_eq [simp]: "ip_string v = ip_string w \<longleftrightarrow> v = w"
  using ip_string_inj by blast

section \<open>The search\<close>

text \<open>
  The offsets a pool hands out are numbered from 0; \<open>slots\<close> is their number. A pool too small
  for offset 2 hands it out all the same.
\<close>

definition slots :: "ipPool \<Rightarrow> nat" where
  "slots p = max 1 (unat (pool_max p) - 1)"

definition offset_of :: "nat \<Rightarrow> 32 word" where
  "offset_of i = word_of_nat (i + 2)"

definition usable :: "ipPool \<Rightarrow> 32 word \<Rightarrow> bool" where
  "usable p o' \<longleftrightarrow> 2 \<le> o' \<and> (o' \<le> pool_max p \<or> o' = 2)"

definition pool_inv :: "ipPool \<Rightarrow> bool" where
  "pool_inv p \<longleftrightarrow> usable p (pool_next p) \<and> pool_max p \<noteq> - 1"

lemma pool_max_bound: "pool_inv p \<Longrightarrow> unat (pool_max p) < 2 ^ 32 - 1"
proof -
  assume "pool_inv p"
  then have "unat (pool_max p) \<noteq> unat (- 1 :: 32 word)" unfolding pool_inv_def word_unat_eq_iff by blast
  moreover have "unat (- 1 :: 32 word) = 2 ^ 32 - 1" by (simp add: unsigned_minus_1_eq_mask mask_eq_exp_minus_1)
  moreover have "unat (pool_max p) < 2 ^ 32" by (rule order.strict_trans2 [OF unsigned_less]) simp
  ultimately show ?thesis by linarith
qed

lemma unat_offset_of: "pool_inv p \<Longrightarrow> i < slots p \<Longrightarrow> unat (offset_of i) = i + 2"
proof -
  assume "pool_inv p" "i < slots p"
  then have "i + 2 < 2 ^ 32" using pool_max_bound [of p] by (auto simp: slots_def)
  then show ?thesis unfolding offset_of_def unat_of_nat by simp
qed

lemma usable_iff: "pool_inv p \<Longrightarrow> usable p o' \<longleftrightarrow> (\<exists>i < slots p. o' = offset_of i)"
proof
  assume p: "pool_inv p" and "usable p o'"
  then have "2 \<le> unat o'" "unat o' \<le> unat (pool_max p) \<or> unat o' = 2"
    by (auto simp: usable_def word_le_nat_alt)
  then have "unat o' - 2 < slots p" "o' = offset_of (unat o' - 2)"
    by (auto simp: slots_def offset_of_def)
  then show "\<exists>i < slots p. o' = offset_of i" by blast
next
  assume p: "pool_inv p" and "\<exists>i < slots p. o' = offset_of i"
  then obtain i where i: "i < slots p" "o' = offset_of i" by blast
  then have u: "unat o' = i + 2" using unat_offset_of [OF p] by simp
  moreover have "i + 2 \<le> unat (pool_max p) \<or> i = 0" using i(1) by (auto simp: slots_def)
  ultimately show "usable p o'"
    by (auto simp: usable_def word_le_nat_alt word_unat_eq_iff)
qed

lemma next_offset_cyclic:
  assumes "pool_inv p" and "pool_next p = offset_of i" and "i < slots p"
  shows "next_offset p = offset_of (Suc i mod slots p)"
proof -
  have u: "unat (pool_next p) = i + 2" using unat_offset_of assms by simp
  have "i + 3 < 2 ^ 32" using pool_max_bound [OF assms(1)] assms(3) by (auto simp: slots_def max_def split: if_splits)
  then have u': "unat (pool_next p + 1) = i + 3" using u by (simp add: unat_word_ariths)
  show ?thesis
  proof (cases "Suc i = slots p")
    case True
    then have "unat (pool_max p) < i + 3" by (simp add: slots_def max_def split: if_splits)
    with True u' show ?thesis by (simp add: next_offset_def Let_def word_less_nat_alt offset_of_def)
  next
    case False
    then have "Suc i < slots p" using assms(3) by simp
    then have "i + 3 \<le> unat (pool_max p)" by (simp add: slots_def max_def split: if_splits)
    moreover have "pool_next p + 1 = offset_of (Suc i)" by (simp add: assms(2) offset_of_def)
    ultimately show ?thesis using u' \<open>Suc i < slots p\<close>
      by (simp add: next_offset_def Let_def word_less_nat_alt not_less)
  qed
qed

lemma mod_cycle:
  assumes "s < n" and "Suc i < (n :: nat)"
  shows "Suc (s + i) mod n \<noteq> s"
proof (cases "Suc (s + i) < n")
  case False
  moreover have "Suc (s + i) - n < n" using assms by linarith
  ultimately have "Suc (s + i) mod n = Suc (s + i) - n" by (subst le_mod_geq) simp_all
  with False assms show ?thesis by linarith
qed simp

lemma find_upt_Cons:
  "i < n \<Longrightarrow> find P [i..<n] = (if P i then Some i else find P [Suc i..<n])"
  by (simp add: upt_conv_Cons)

lemma offset_of_inj: "pool_inv p \<Longrightarrow> i < slots p \<Longrightarrow> j < slots p \<Longrightarrow> offset_of i = offset_of j \<longleftrightarrow> i = j"
  by (metis add_right_cancel unat_offset_of)

lemma allocate_loop_spec:
  assumes "pool_inv p" and "s < slots p" and "i < slots p" and "pool_next p = offset_of ((s + i) mod slots p)"
  shows "allocate_loop (offset_of s) uid p = Some
    (case find (\<lambda>j. inUse p (offset_of ((s + j) mod slots p)) = None) [i..<slots p] of
       None \<Rightarrow> (Inl Exhausted, p\<lparr>pool_next := offset_of s\<rparr>)
     | Some j \<Rightarrow> let o' = offset_of ((s + j) mod slots p) in
         (Inr (ip_string (pool_base p + o')),
          p\<lparr>inUse := (inUse p)(o' \<mapsto> uid), pool_next := offset_of (Suc (s + j) mod slots p)\<rparr>))"
  using assms
proof (induction "slots p - i" arbitrary: i p)
  case (Suc d)
  let ?M = "slots p"
  have nxt: "next_offset p = offset_of (Suc (s + i) mod ?M)"
    using next_offset_cyclic [OF Suc.prems(1,4)] Suc.prems(3) by (simp add: mod_Suc_eq)
  show ?case
  proof (cases "inUse p (pool_next p) = None")
    case True
    then show ?thesis using nxt Suc.prems
      by (subst allocate_loop.simps) (simp add: find_upt_Cons Let_def)
  next
    case False
    then obtain u where used: "inUse p (pool_next p) = Some u" by blast
    show ?thesis
    proof (cases "Suc i = ?M")
      case True
      then have "Suc (s + i) mod ?M = s" using Suc.prems(2) by (metis add_Suc_right mod_add_self2 mod_less)
      then show ?thesis using used nxt Suc.prems True
        by (subst allocate_loop.simps) (simp add: find_upt_Cons)
    next
      case False
      let ?p = "p\<lparr>pool_next := next_offset p\<rparr>"
      have lt: "Suc i < ?M" using False Suc.prems(3) by simp
      have sl: "slots ?p = ?M" by (simp add: slots_def)
      have "0 < ?M" using Suc.prems(3) by simp
      then have ne: "next_offset p \<noteq> offset_of s"
        using nxt mod_cycle [OF Suc.prems(2) lt] offset_of_inj [OF Suc.prems(1)] Suc.prems(2) by simp
      have "usable p (next_offset p)"
        using nxt usable_iff [OF Suc.prems(1)] \<open>0 < ?M\<close> by (metis mod_less_divisor)
      then have inv: "pool_inv ?p" using Suc.prems(1) by (simp add: pool_inv_def usable_def)
      have d: "d = slots ?p - Suc i" using Suc.hyps(2) sl by simp
      have fnd: "find (\<lambda>j. inUse p (offset_of ((s + j) mod ?M)) = None) [i..<?M] =
          find (\<lambda>j. inUse p (offset_of ((s + j) mod ?M)) = None) [Suc i..<?M]"
        using used Suc.prems(3,4) by (simp add: find_upt_Cons)
      have sim: "s < slots ?p" "Suc i < slots ?p" "pool_next ?p = offset_of ((s + Suc i) mod slots ?p)"
        using sl lt Suc.prems(2) nxt by simp_all
      have "allocate_loop (offset_of s) uid p = allocate_loop (offset_of s) uid ?p"
        using used ne by (subst allocate_loop.simps) simp
      then show ?thesis
        unfolding Suc.hyps(1) [OF d inv sim] fnd sl by (simp add: Let_def split: option.split)
    qed
  qed
qed simp

lemma slots_pos [simp]: "0 < slots p"
  by (simp add: slots_def)

lemma usable_mod: "pool_inv p \<Longrightarrow> usable p (offset_of (i mod slots p))"
  by (subst usable_iff) (auto intro!: exI [of _ "i mod slots p"])

lemma find_upt_Some: "find P [0..<n] = Some j \<Longrightarrow> P j"
  by (metis find_Some_iff)

text \<open>The reference description of an allocation.\<close>

definition allocates :: "string \<Rightarrow> ipPool \<Rightarrow> 32 word \<Rightarrow> ipPool \<Rightarrow> bool" where
  "allocates uid p o' p' \<longleftrightarrow> usable p o' \<and> inUse p o' = None \<and> inUse p' = (inUse p)(o' \<mapsto> uid) \<and>
     pool_base p' = pool_base p \<and> pool_max p' = pool_max p \<and> pool_inv p'"

lemma Allocate_cases:
  assumes "pool_inv p"
  obtains (found) o' p' where "Allocate uid p = Some (Inr (ip_string (pool_base p + o')), p')" "allocates uid p o' p'"
  | (full) "Allocate uid p = Some (Inl Exhausted, p)" "\<And>o'. usable p o' \<Longrightarrow> inUse p o' \<noteq> None"
proof -
  let ?M = "slots p"
  from assms obtain s where s: "s < ?M" "pool_next p = offset_of s"
    using usable_iff [OF assms] by (auto simp: pool_inv_def)
  then have M: "0 < ?M" by simp
  let ?P = "\<lambda>j. inUse p (offset_of ((s + j) mod ?M)) = None"
  have "pool_next p = offset_of ((s + 0) mod ?M)" using s by simp
  note spec = allocate_loop_spec [OF assms s(1) M this, of uid]
  show thesis
  proof (cases "find ?P [0..<?M]")
    case None
    then have none: "\<not> ?P j" if "j < ?M" for j using that by (simp add: find_None_iff)
    have "inUse p o' \<noteq> None" if u: "usable p o'" for o'
    proof -
      obtain i where i: "i < ?M" "o' = offset_of i" using usable_iff [OF assms, of o'] u by blast
      have "(s + (i + ?M - s) mod ?M) mod ?M = i" using i(1) s(1) by (simp add: mod_add_right_eq)
      with none [of "(i + ?M - s) mod ?M"] M i(2) show ?thesis by simp
    qed
    moreover have "Allocate uid p = Some (Inl Exhausted, p)" using spec None s(2) by (simp add: Allocate_def)
    ultimately show thesis by (rule full [rotated])
  next
    case (Some j)
    let ?o = "offset_of ((s + j) mod ?M)" and ?n = "offset_of (Suc (s + j) mod ?M)"
    let ?p = "p\<lparr>inUse := (inUse p)(?o \<mapsto> uid), pool_next := ?n\<rparr>"
    have u: "usable p ?n" "usable p ?o" using usable_mod [OF assms] by simp_all
    have "inUse p ?o = None" using Some by (rule find_upt_Some)
    moreover have "pool_inv ?p" using u(1) assms by (simp add: pool_inv_def usable_def)
    ultimately have "allocates uid p ?o ?p" using u(2) by (simp add: allocates_def)
    moreover have "Allocate uid p = Some (Inr (ip_string (pool_base p + ?o)), ?p)" using spec Some s(2)
      by (simp add: Allocate_def Let_def)
    ultimately show thesis by (rule found [rotated])
  qed
qed

text \<open>The addresses a pool has handed out, with their owners.\<close>

definition held :: "ipPool \<Rightarrow> (string \<times> string) set" where
  "held p = {(ip_string (pool_base p + o'), uid) | o' uid. inUse p o' = Some uid}"

lemma held_iff: "(a, uid) \<in> held p \<longleftrightarrow> (\<exists>o'. a = ip_string (pool_base p + o') \<and> inUse p o' = Some uid)"
  by (auto simp: held_def)

lemma held_update:
  assumes "pool_base p' = pool_base p" and "inUse p' = (inUse p)(o' := u)"
  shows "(a, uid) \<in> held p' \<longleftrightarrow>
    (if a = ip_string (pool_base p + o') then u = Some uid else (a, uid) \<in> held p)"
  using assms by (auto simp: held_iff)

lemma held_allocates:
  assumes "allocates uid p o' p'"
  shows "held p' = insert (ip_string (pool_base p + o'), uid) (held p)" "ip_string (pool_base p + o') \<notin> fst ` held p"
proof -
  show n: "ip_string (pool_base p + o') \<notin> fst ` held p"
    using assms by (auto simp: held_def allocates_def)
  have "(a, u) \<in> held p' \<longleftrightarrow> (a, u) \<in> insert (ip_string (pool_base p + o'), uid) (held p)" for a u
    using held_update [of p' p o' "Some uid" a u] assms n by (force simp: allocates_def)
  then show "held p' = insert (ip_string (pool_base p + o'), uid) (held p)" by auto
qed

lemma held_remove:
  assumes "inUse p o' = Some uid"
  shows "held (p\<lparr>inUse := (inUse p)(o' := None)\<rparr>) = held p - {(ip_string (pool_base p + o'), uid)}"
proof -
  have "(a, u) \<in> held (p\<lparr>inUse := (inUse p)(o' := None)\<rparr>) \<longleftrightarrow> (a, u) \<in> held p - {(ip_string (pool_base p + o'), uid)}" for a u
    using held_update [of "p\<lparr>inUse := (inUse p)(o' := None)\<rparr>" p o' None a u] assms by (auto simp: held_iff)
  then show ?thesis by auto
qed

section \<open>The contract of an address pool\<close>

text \<open>
  What the network manager relies on: an allocation that succeeds returns an address nobody
  holds and records its owner, one that fails changes nothing, and a release takes away at most
  one address, of that owner.
\<close>

locale address_pool =
  fixes alloc :: "string \<Rightarrow> 'p \<Rightarrow> string option \<times> 'p"
    and release :: "string \<Rightarrow> 'p \<Rightarrow> 'p \<Rightarrow> bool"
    and holds :: "'p \<Rightarrow> (string \<times> string) set"
    and ok :: "'p \<Rightarrow> bool"
  assumes alloc_Some: "ok p \<Longrightarrow> alloc u p = (Some a, p') \<Longrightarrow>
      ok p' \<and> holds p' = insert (a, u) (holds p) \<and> a \<notin> fst ` holds p"
    and alloc_None: "ok p \<Longrightarrow> alloc u p = (None, p') \<Longrightarrow> ok p' \<and> holds p' = holds p"
    and release_ok: "ok p \<Longrightarrow> release u p p' \<Longrightarrow> ok p'"
    and release_none: "ok p \<Longrightarrow> release u p p' \<Longrightarrow> u \<notin> snd ` holds p \<Longrightarrow> holds p' = holds p"
    and release_some: "ok p \<Longrightarrow> release u p p' \<Longrightarrow> u \<in> snd ` holds p \<Longrightarrow>
      \<exists>a. (a, u) \<in> holds p \<and> holds p' = holds p - {(a, u)}"
begin

text \<open>Giving back the only address of an owner restores the pool.\<close>

lemma release_alloc:
  assumes "ok p" and "u \<notin> snd ` holds p" and "alloc u p = (Some a, p')" and "release u p' p''"
  shows "holds p'' = holds p"
proof -
  from alloc_Some [OF assms(1,3)] have p': "ok p'" "holds p' = insert (a, u) (holds p)" by simp_all
  moreover have "(b, u) \<in> holds p' \<Longrightarrow> b = a" for b using p'(2) assms(2) by force
  moreover have "(a, u) \<notin> holds p" using assms(2) by force
  ultimately show ?thesis using release_some [OF p'(1) assms(4)] by force
qed

text \<open>Under any interleaving of allocations and releases an address has at most one owner.\<close>

inductive pool_run :: "'p \<Rightarrow> 'p \<Rightarrow> bool" for p where
  none: "pool_run p p"
| alloc: "pool_run p q \<Longrightarrow> pool_run p (snd (alloc u q))"
| release: "pool_run p q \<Longrightarrow> release u q q' \<Longrightarrow> pool_run p q'"

definition exclusive :: "'p \<Rightarrow> bool" where
  "exclusive p \<longleftrightarrow> (\<forall>a u v. (a, u) \<in> holds p \<longrightarrow> (a, v) \<in> holds p \<longrightarrow> u = v)"

lemma exclusive_subset: "exclusive p \<Longrightarrow> holds p' \<subseteq> holds p \<Longrightarrow> exclusive p'"
  unfolding exclusive_def by blast

lemma exclusive_insert: "exclusive p \<Longrightarrow> holds p' = insert (a, u) (holds p) \<Longrightarrow> a \<notin> fst ` holds p \<Longrightarrow> exclusive p'"
  unfolding exclusive_def by (metis fst_conv image_eqI insert_iff prod.inject)

lemma alloc_exclusive:
  assumes "ok p" and "exclusive p"
  shows "ok (snd (alloc u p)) \<and> exclusive (snd (alloc u p))"
proof (cases "alloc u p")
  case (Pair r p')
  show ?thesis
  proof (cases r)
    case None
    with Pair have "alloc u p = (None, p')" by simp
    from alloc_None [OF assms(1) this] have "ok p'" "holds p' \<subseteq> holds p" by simp_all
    with Pair assms(2) show ?thesis by (simp add: exclusive_subset)
  next
    case (Some a)
    with Pair have "alloc u p = (Some a, p')" by simp
    from alloc_Some [OF assms(1) this] have "ok p'" "holds p' = insert (a, u) (holds p)" "a \<notin> fst ` holds p" by simp_all
    with Pair assms(2) show ?thesis by (simp add: exclusive_insert)
  qed
qed

lemma release_exclusive:
  assumes "ok p" and "exclusive p" and "release u p p'"
  shows "ok p' \<and> exclusive p'"
proof -
  have "holds p' \<subseteq> holds p"
    using release_none [OF assms(1,3)] release_some [OF assms(1,3)] by (cases "u \<in> snd ` holds p") auto
  with assms release_ok show ?thesis by (blast intro: exclusive_subset)
qed

lemma pool_run_exclusive: "pool_run p q \<Longrightarrow> ok p \<Longrightarrow> exclusive p \<Longrightarrow> ok q \<and> exclusive q"
proof (induction rule: pool_run.induct)
  case (alloc q u)
  then show ?case using alloc_exclusive by simp
next
  case (release q u q')
  then show ?case using release_exclusive [of q u q'] by simp
qed simp

end

text \<open>The pool of the code, with the result of the search read off and \<open>Release\<close> visiting the map
  in some order.\<close>

definition allocated :: "string \<Rightarrow> ipPool \<Rightarrow> string option \<times> ipPool" where
  "allocated u p = (case Allocate u p of Some (Inr a, p') \<Rightarrow> (Some a, p') | Some (Inl _, p') \<Rightarrow> (None, p') | None \<Rightarrow> (None, p))"

definition released :: "string \<Rightarrow> ipPool \<Rightarrow> ipPool \<Rightarrow> bool" where
  "released u p p' \<longleftrightarrow> (\<exists>order. dom (inUse p) \<subseteq> set order \<and> p' = Release order u p)"

lemma Release_cases:
  assumes "dom (inUse p) \<subseteq> set order"
  obtains (found) o' where "inUse p o' = Some uid" "Release order uid p = p\<lparr>inUse := (inUse p)(o' := None)\<rparr>"
  | (absent) "\<And>o'. inUse p o' \<noteq> Some uid" "Release order uid p = p"
proof (cases "find (\<lambda>offset. inUse p offset = Some uid) order")
  case None
  then have "inUse p o' \<noteq> Some uid" for o' using assms by (auto simp: find_None_iff)
  with None show thesis by (intro absent) (simp_all add: Release_def)
next
  case (Some o')
  then have "inUse p o' = Some uid" by (auto simp: find_Some_iff)
  with Some show thesis by (intro found [of o']) (simp_all add: Release_def)
qed

lemma snd_held: "u \<in> snd ` held p \<longleftrightarrow> (\<exists>o'. inUse p o' = Some u)"
proof
  assume "u \<in> snd ` held p"
  then obtain a where "(a, u) \<in> held p" by auto
  then show "\<exists>o'. inUse p o' = Some u" by (auto simp: held_iff)
next
  assume "\<exists>o'. inUse p o' = Some u"
  then obtain o' where "(ip_string (pool_base p + o'), u) \<in> held p" by (auto simp: held_iff)
  then show "u \<in> snd ` held p" by (rule image_eqI [rotated]) simp
qed

lemma released_cases:
  assumes "released uid p p'"
  obtains (found) o' where "inUse p o' = Some uid" "p' = p\<lparr>inUse := (inUse p)(o' := None)\<rparr>"
  | (absent) "\<And>o'. inUse p o' \<noteq> Some uid" "p' = p"
proof -
  from assms obtain order where o: "dom (inUse p) \<subseteq> set order" "p' = Release order uid p" by (auto simp: released_def)
  from o(1) show thesis
  proof (cases rule: Release_cases [of p order uid])
    case (found o')
    with o(2) that(1) show thesis by blast
  next
    case absent
    with o(2) that(2) show thesis by blast
  qed
qed

interpretation ip: address_pool allocated released held pool_inv
proof
  fix p u a p'
  assume inv: "pool_inv p" and al: "allocated u p = (Some a, p')"
  from inv show "pool_inv p' \<and> held p' = insert (a, u) (held p) \<and> a \<notin> fst ` held p"
  proof (cases rule: Allocate_cases [of p u])
    case (found o' q)
    with al have "a = ip_string (pool_base p + o')" "p' = q" by (simp_all add: allocated_def)
    with held_allocates [OF found(2)] found(2) show ?thesis by (simp only: allocates_def simp_thms)
  qed (use al in \<open>simp add: allocated_def\<close>)
next
  fix p u p'
  assume inv: "pool_inv p" and al: "allocated u p = (None, p')"
  from inv show "pool_inv p' \<and> held p' = held p"
    by (cases rule: Allocate_cases [of p u]) (use al inv in \<open>auto simp: allocated_def\<close>)
next
  fix p u p'
  assume inv: "pool_inv p" and r: "released u p p'"
  from r show "pool_inv p'" "u \<notin> snd ` held p \<Longrightarrow> held p' = held p"
    "u \<in> snd ` held p \<Longrightarrow> \<exists>a. (a, u) \<in> held p \<and> held p' = held p - {(a, u)}"
  proof (atomize (full), cases rule: released_cases)
    case (found o')
    have "(ip_string (pool_base p + o'), u) \<in> held p" using found(1) held_iff by blast
    moreover have "held p' = held p - {(ip_string (pool_base p + o'), u)}" using found by (simp only: held_remove)
    moreover have "pool_inv p'" using inv found(2) by (simp add: pool_inv_def usable_def)
    moreover have "u \<in> snd ` held p" using found(1) snd_held by blast
    ultimately show "pool_inv p' \<and> (u \<notin> snd ` held p \<longrightarrow> held p' = held p) \<and>
      (u \<in> snd ` held p \<longrightarrow> (\<exists>a. (a, u) \<in> held p \<and> held p' = held p - {(a, u)}))" by blast
  next
    case absent
    then have "u \<notin> snd ` held p" using snd_held by blast
    with absent(2) inv show "pool_inv p' \<and> (u \<notin> snd ` held p \<longrightarrow> held p' = held p) \<and>
      (u \<in> snd ` held p \<longrightarrow> (\<exists>a. (a, u) \<in> held p \<and> held p' = held p - {(a, u)}))" by blast
  qed
qed

section \<open>Properties\<close>

lemma newIPPool_inv:
  assumes "newIPPool (Some (net, ones)) = Inr p" and "ones < 32"
  shows "pool_inv p" "held p = {}"
proof -
  have "(push_bit (32 - ones) 1 - 2 :: 32 word) \<noteq> - 1"
  proof
    assume "(push_bit (32 - ones) 1 - 2 :: 32 word) = - 1"
    then have "(push_bit (32 - ones) 1 :: 32 word) = 1" by (simp add: diff_eq_eq)
    then have "bit (push_bit (32 - ones) 1 :: 32 word) 0" by (simp only: bit_1_0)
    with assms(2) show False by (simp add: push_bit_eq_mult bit_exp_iff)
  qed
  with assms(1) show "pool_inv p" "held p = {}"
    by (auto simp: newIPPool_def pool_inv_def usable_def held_def)
qed

text \<open>C22: the search of \<open>Allocate\<close> always ends. It returns the address of a free usable offset, which
  becomes the offset of the pod, or reports exhaustion exactly if every usable offset is taken, and
  then changes nothing.\<close>

theorem Allocate_terminates:
  assumes "pool_inv p"
  shows "\<exists>r p'. Allocate uid p = Some (r, p') \<and>
    (case r of
       Inl _ \<Rightarrow> p' = p \<and> (\<forall>o'. usable p o' \<longrightarrow> inUse p o' \<noteq> None)
     | Inr a \<Rightarrow> \<exists>o'. a = ip_string (pool_base p + o') \<and> allocates uid p o' p')"
  using assms by (cases rule: Allocate_cases [of p uid]) auto

theorem Allocate_terminates_witness:
  "Allocate ''u1'' \<lparr>pool_base = 0, pool_next = 2, pool_max = 6, inUse = Map.empty\<rparr> \<noteq> None"
  using Allocate_terminates [of "\<lparr>pool_base = 0, pool_next = 2, pool_max = 6, inUse = Map.empty\<rparr>" "''u1''"]
  by (auto simp: pool_inv_def usable_def)



end
