(* ===== verification/Network.thy ===== *)
theory Network
  imports Ip_Pool
begin

text \<open>
  The bridge network manager, \<open>internal/network/manager.go\<close>: set-up and tear-down of the network
  of a pod. The operating system is a parameter: \<open>run\<close> executes a command in a world and
  returns its output and success, \<open>stat\<close> looks up a file, and \<open>parse\<close> reads the address out of
  the output of \<open>ip addr show\<close>. The pool is the one of \<open>Ip_Pool\<close>.
\<close>

section \<open>Names\<close>

definition netnsName :: "string \<Rightarrow> string" where
  "netnsName podUID = ''peri-'' @ podUID"

text \<open>The loop of \<open>vethName\<close>; its first argument is the part of the UID not yet visited, reversed.\<close>

fun veth_scan :: "string \<Rightarrow> string \<Rightarrow> string" where
  "veth_scan [] clean = clean"
| "veth_scan (c # cs) clean = (if length clean < 8
     then veth_scan cs (if c \<noteq> CHR ''-'' then string_of_byte c @ clean else clean) else clean)"

definition vethName :: "string \<Rightarrow> string" where
  "vethName podUID = ''veth'' @ veth_scan (rev podUID) []"

section \<open>Commands\<close>

type_synonym 'w runner = "string list \<Rightarrow> 'w \<Rightarrow> (string \<times> bool) \<times> 'w"

datatype stat_result = StatOk | StatNotExist | StatError

datatype net_error = CommandFailed "string list" string | PoolError pool_error

definition run_ok :: "'w runner \<Rightarrow> string list \<Rightarrow> 'w \<Rightarrow> net_error option \<times> 'w" where
  "run_ok run args w = (case run args w of
     ((out, True), w') \<Rightarrow> (None, w')
   | ((out, False), w') \<Rightarrow> (Some (CommandFailed args out), w'))"

definition createNetns :: "'w runner \<Rightarrow> string \<Rightarrow> 'w \<Rightarrow> net_error option \<times> 'w" where
  "createNetns run name w = (case run_ok run [''ip'', ''netns'', ''add'', name] w of
     (Some e, w1) \<Rightarrow> (Some e, w1)
   | (None, w1) \<Rightarrow> run_ok run [''ip'', ''netns'', ''exec'', name, ''ip'', ''link'', ''set'', ''lo'', ''up''] w1)"

definition deleteNetns :: "'w runner \<Rightarrow> string \<Rightarrow> 'w \<Rightarrow> net_error option \<times> 'w" where
  "deleteNetns run name w = run_ok run [''ip'', ''netns'', ''delete'', name] w"

definition recoverPodIP :: "'w runner \<Rightarrow> (string \<Rightarrow> string option) \<Rightarrow> string \<Rightarrow> 'w \<Rightarrow> string option \<times> 'w" where
  "recoverPodIP run parse podUID w =
     (case run [''ip'', ''netns'', ''exec'', netnsName podUID, ''ip'', ''-4'', ''-o'', ''addr'', ''show'', ''dev'', ''eth0''] w of
        ((out, False), w') \<Rightarrow> (None, w')
      | ((out, True), w') \<Rightarrow> (parse out, w'))"

fun run_all :: "'w runner \<Rightarrow> string list list \<Rightarrow> 'w \<Rightarrow> net_error option \<times> 'w" where
  "run_all run [] w = (None, w)"
| "run_all run (args # cmds) w = (case run_ok run args w of
     (Some e, w') \<Rightarrow> (Some e, w')
   | (None, w') \<Rightarrow> run_all run cmds w')"

definition bridgeName :: string where "bridgeName = ''perigeos0''"
definition podSubnet :: string where "podSubnet = ''/16''"

definition setup_cmds :: "string \<Rightarrow> string \<Rightarrow> string \<Rightarrow> string \<Rightarrow> string list list" where
  "setup_cmds vethHost nnsName podIP gateway =
    [[''ip'', ''link'', ''add'', vethHost, ''type'', ''veth'', ''peer'', ''name'', ''eth0'', ''netns'', nnsName],
     [''ip'', ''link'', ''set'', vethHost, ''master'', bridgeName],
     [''ip'', ''link'', ''set'', vethHost, ''up''],
     [''ip'', ''netns'', ''exec'', nnsName, ''ip'', ''addr'', ''add'', podIP @ podSubnet, ''dev'', ''eth0''],
     [''ip'', ''netns'', ''exec'', nnsName, ''ip'', ''link'', ''set'', ''eth0'', ''up''],
     [''ip'', ''netns'', ''exec'', nnsName, ''ip'', ''route'', ''add'', ''default'', ''via'', gateway]]"

section \<open>Set-up and tear-down\<close>

definition netnsPath :: "string \<Rightarrow> string" where
  "netnsPath podUID = ''/var/run/netns/'' @ netnsName podUID"

type_synonym 'w setup_result = "((net_error + string \<times> string) \<times> ipPool \<times> 'w) option"

text \<open>The result is \<open>None\<close> only if the search for an address does not end; \<open>order\<close> is the order in
  which \<open>Release\<close> visits the map.\<close>

definition Setup_existing :: "'w runner \<Rightarrow> (string \<Rightarrow> string option) \<Rightarrow> string \<Rightarrow> ipPool \<Rightarrow> 'w \<Rightarrow> 'w setup_result" where
  "Setup_existing run parse podUID pool w = (case recoverPodIP run parse podUID w of
     (Some ip, w1) \<Rightarrow> Some (Inr (netnsPath podUID, ip), pool, w1)
   | (None, w1) \<Rightarrow> (case Allocate podUID pool of
       None \<Rightarrow> None
     | Some (Inl e, pool') \<Rightarrow> Some (Inl (PoolError e), pool', w1)
     | Some (Inr ip, pool') \<Rightarrow> Some (Inr (netnsPath podUID, ip), pool', w1)))"

definition Setup_new :: "'w runner \<Rightarrow> (ipPool \<Rightarrow> 32 word list) \<Rightarrow> string \<Rightarrow> ipPool \<Rightarrow> 'w \<Rightarrow> 'w setup_result" where
  "Setup_new run order podUID pool w = (case createNetns run (netnsName podUID) w of
     (Some e, w1) \<Rightarrow> Some (Inl e, pool, w1)
   | (None, w1) \<Rightarrow> (case Allocate podUID pool of
       None \<Rightarrow> None
     | Some (Inl e, pool') \<Rightarrow> Some (Inl (PoolError e), pool', snd (deleteNetns run podUID w1))
     | Some (Inr podIP, pool') \<Rightarrow>
        (case run_all run (setup_cmds (vethName podUID) (netnsName podUID) podIP (Gateway pool')) w1 of
           (None, w2) \<Rightarrow> Some (Inr (netnsPath podUID, podIP), pool', w2)
         | (Some e, w2) \<Rightarrow> Some (Inl e, Release (order pool') podUID pool',
             snd (deleteNetns run (netnsName podUID)
               (snd (run [''ip'', ''link'', ''delete'', vethName podUID] w2)))))))"

definition Setup :: "'w runner \<Rightarrow> ('w \<Rightarrow> string \<Rightarrow> stat_result) \<Rightarrow> (string \<Rightarrow> string option) \<Rightarrow> (ipPool \<Rightarrow> 32 word list)
    \<Rightarrow> string \<Rightarrow> ipPool \<Rightarrow> 'w \<Rightarrow> 'w setup_result" where
  "Setup run stat parse order podUID pool w =
     (if stat w (netnsPath podUID) = StatOk then Setup_existing run parse podUID pool w
      else Setup_new run order podUID pool w)"

definition Teardown :: "'w runner \<Rightarrow> ('w \<Rightarrow> string \<Rightarrow> stat_result) \<Rightarrow> (ipPool \<Rightarrow> 32 word list)
    \<Rightarrow> string \<Rightarrow> ipPool \<Rightarrow> 'w \<Rightarrow> net_error option \<times> ipPool \<times> 'w" where
  "Teardown run stat order podUID pool w =
     (let released = Release (order pool) podUID pool in
      if stat w (netnsPath podUID) = StatNotExist then (None, released, w)
      else let w1 = snd (run [''ip'', ''link'', ''delete'', vethName podUID] w) in
        case deleteNetns run (netnsName podUID) w1 of
          (Some e, w2) \<Rightarrow> (Some e, released, w2)
        | (None, w2) \<Rightarrow> (None, released, snd (run [''ip'', ''link'', ''delete'', vethName podUID] w2)))"

section \<open>Properties\<close>

lemma veth_scan_bound: "length clean \<le> 9 \<Longrightarrow> length (veth_scan cs clean) \<le> 9"
proof (induction cs clean rule: veth_scan.induct)
  case (2 c cs clean)
  then show ?case using length_string_of_byte [of c] by simp
qed simp

text \<open>The name of the host interface of a pod has at most 15 bytes, the limit of the kernel,
  whatever the UID is.\<close>

lemma vethName_bound: "length (vethName podUID) \<le> 15"
  using veth_scan_bound [of "[]" "rev podUID"] by (simp add: vethName_def)

definition visits :: "(ipPool \<Rightarrow> 32 word list) \<Rightarrow> bool" where
  "visits order \<longleftrightarrow> (\<forall>p. dom (inUse p) \<subseteq> set (order p))"

lemma visits_released: "visits order \<Longrightarrow> released u p (Release (order p) u p)"
  by (auto simp: visits_def released_def)

lemma Allocate_allocated:
  assumes "pool_inv p"
  obtains (found) a p' where "Allocate u p = Some (Inr a, p')" "allocated u p = (Some a, p')"
  | (full) "Allocate u p = Some (Inl Exhausted, p)" "allocated u p = (None, p)"
  using assms by (cases rule: Allocate_cases [of p u]) (simp_all add: allocated_def that)

lemma Setup_new_pool:
  assumes inv: "pool_inv p" and vis: "visits order" and fresh: "u \<notin> snd ` held p"
  obtains (failed) e p' w' where "Setup_new run order u p w = Some (Inl e, p', w')" "pool_inv p'" "held p' = held p"
  | (ready) ip p' w' where "Setup_new run order u p w = Some (Inr (netnsPath u, ip), p', w')" "allocated u p = (Some ip, p')"
proof (cases "createNetns run (netnsName u) w")
  case (Pair e w1)
  show thesis
  proof (cases e)
    case (Some err)
    with Pair failed inv show thesis by (simp add: Setup_new_def)
  next
    case None
    note created = Pair None
    from inv show thesis
    proof (cases rule: Allocate_allocated [of p u])
      case full
      with created failed inv show thesis by (simp add: Setup_new_def)
    next
      case (found a p')
      let ?cmds = "setup_cmds (vethName u) (netnsName u) a (Gateway p')"
      obtain r w2 where all: "run_all run ?cmds w1 = (r, w2)" by (cases "run_all run ?cmds w1")
      show thesis
      proof (cases r)
        case None
        with created found all ready show thesis by (simp add: Setup_new_def)
      next
        case (Some err)
        have p': "pool_inv p'" using ip.alloc_Some [OF inv found(2)] by blast
        have rel: "released u p' (Release (order p') u p')" using vis by (rule visits_released)
        have "pool_inv (Release (order p') u p')" using ip.release_ok [OF p' rel] .
        moreover have "held (Release (order p') u p') = held p" using ip.release_alloc [OF inv fresh found(2) rel] .
        ultimately show thesis using failed created found(1) all Some by (simp add: Setup_new_def)
      qed
    qed
  qed
qed


text \<open>Tearing down a pod right after its set-up gives the address back, whether the commands
  succeed or fail.\<close>

lemma setup_teardown:
  assumes "pool_inv p" and "visits order" and "u \<notin> snd ` held p" and "stat w (netnsPath u) \<noteq> StatOk"
    and "Setup run stat parse order u p w = Some (Inr (path, ip), p', w')"
  shows "held (fst (snd (Teardown run stat' order u p' v))) = held p"
proof -
  have al: "allocated u p = (Some ip, p')"
    using assms by (cases rule: Setup_new_pool [of p order u run w]) (simp_all add: Setup_def)
  have "fst (snd (Teardown run stat' order u p' v)) = Release (order p') u p'"
    by (simp add: Teardown_def Let_def split: prod.split option.split)
  then show ?thesis
    using ip.release_alloc [OF assms(1,3) al visits_released [OF assms(2)]] by simp
qed

lemma Allocate_new:
  assumes "newIPPool (Some (net, ones)) = Inr p"
  shows "Allocate v p = Some (Inr (ip_string (net + 2)), p\<lparr>inUse := [2 \<mapsto> v], pool_next := next_offset p\<rparr>)"
proof -
  have p: "pool_next p = 2" "inUse p = Map.empty" "pool_base p = net" using assms by (auto simp: newIPPool_def)
  then have "allocate_loop 2 v p = Some (Inr (ip_string (net + 2)), p\<lparr>inUse := [2 \<mapsto> v], pool_next := next_offset p\<rparr>)"
    by (subst allocate_loop.simps) simp
  with p(1) show ?thesis by (simp add: Allocate_def)
qed

text \<open>On a machine where every command succeeds.\<close>

lemma all_succeed:
  assumes "\<And>args w. snd (fst (run args w))"
  shows "\<exists>w'. run_ok run args w = (None, w')" "\<exists>w'. run_all run cmds w = (None, w')"
    "\<exists>w'. createNetns run n w = (None, w')"
proof -
  have ok: "\<exists>w'. run_ok run args w = (None, w')" for args w
    using assms [of args w] by (cases "run args w") (auto simp: run_ok_def split: bool.split)
  then show "\<exists>w'. run_ok run args w = (None, w')" .
  show "\<exists>w'. run_all run cmds w = (None, w')"
  proof (induction cmds arbitrary: w)
    case (Cons c cs)
    obtain w' where "run_ok run c w = (None, w')" using ok by blast
    with Cons show ?case by simp
  qed simp
  obtain w' where w': "run_ok run [''ip'', ''netns'', ''add'', n] w = (None, w')" using ok by blast
  show "\<exists>w'. createNetns run n w = (None, w')"
    using ok [of "[''ip'', ''netns'', ''exec'', n, ''ip'', ''link'', ''set'', ''lo'', ''up'']" w'] by (simp add: createNetns_def w')
qed

lemma Setup_first:
  assumes "newIPPool (Some (net, ones)) = Inr p" and "\<And>args w. snd (fst (run args w))" and "stat w (netnsPath v) \<noteq> StatOk"
  shows "\<exists>p' w'. Setup run stat parse order v p w = Some (Inr (netnsPath v, ip_string (net + 2)), p', w')"
proof -
  let ?p = "p\<lparr>inUse := [2 \<mapsto> v], pool_next := next_offset p\<rparr>"
  obtain w1 where c: "createNetns run (netnsName v) w = (None, w1)" using all_succeed(3) [of run] assms(2) by blast
  obtain w2 where "run_all run (setup_cmds (vethName v) (netnsName v) (ip_string (net + 2)) (Gateway ?p)) w1 = (None, w2)"
    using all_succeed(2) [of run] assms(2) by blast
  with c assms(3) show ?thesis by (simp add: Setup_def Setup_new_def Allocate_new [OF assms(1)])
qed

text \<open>After a restart the pool does not know the addresses of the pods that are still running.
  The address recovered for such a pod is returned but not recorded, and the first pod set up
  afterwards is given the same address if the recovered one was the first of the network.\<close>

lemma restart_duplicates_address:
  assumes "newIPPool (Some (net, ones)) = Inr p"
    and "stat w (netnsPath u) = StatOk" and "recoverPodIP run parse u w = (Some (ip_string (net + 2)), w1)"
    and "stat w1 (netnsPath v) \<noteq> StatOk" and "\<And>args w. snd (fst (run args w))"
  shows "\<exists>p' w2. Setup run stat parse order u p w = Some (Inr (netnsPath u, ip_string (net + 2)), p, w1) \<and>
    Setup run stat parse order v p w1 = Some (Inr (netnsPath v, ip_string (net + 2)), p', w2)"
proof -
  have "Setup run stat parse order u p w = Some (Inr (netnsPath u, ip_string (net + 2)), p, w1)"
    using assms(2,3) by (simp add: Setup_def Setup_existing_def)
  with Setup_first [of net ones p run stat w1 v] assms(1,4,5) show ?thesis by blast
qed

text \<open>A machine on which every command succeeds, with a \<open>/16\<close> pool.\<close>

abbreviation pool16 :: ipPool where
  "pool16 \<equiv> \<lparr>pool_base = 176685056, pool_next = 2, pool_max = push_bit 16 1 - 2, inUse = Map.empty\<rparr>"

abbreviation run_true :: "unit runner" where "run_true \<equiv> \<lambda>args w. (([], True), w)"

definition all_offsets :: "ipPool \<Rightarrow> 32 word list" where
  "all_offsets p = map word_of_nat [0..<2 ^ 32]"

lemma visits_all: "visits all_offsets"
proof -
  have "o' \<in> set (map word_of_nat [0..<2 ^ 32])" for o' :: "32 word"
    using unsigned_less [of o'] by (simp del: upt.simps) (rule image_eqI [of _ _ "unat o'"], simp_all)
  then show ?thesis by (auto simp: visits_def all_offsets_def)
qed

lemma pool16_inv: "pool_inv pool16" "held pool16 = {}"
  using newIPPool_inv [of 176685056 16 pool16] by (simp_all add: newIPPool_def)


theorem setup_teardown_witness:
  "\<exists>path ip p' w'. Setup run_true (\<lambda>w f. StatNotExist) (\<lambda>s. None) all_offsets ''u1'' pool16 () = Some (Inr (path, ip), p', w') \<and>
     held (fst (snd (Teardown run_true (\<lambda>w f. StatOk) all_offsets ''u1'' p' w'))) = {}"
proof -
  have new: "newIPPool (Some (176685056, 16)) = Inr pool16" by (simp add: newIPPool_def)
  obtain p' w' where s: "Setup run_true (\<lambda>w f. StatNotExist) (\<lambda>s. None) all_offsets ''u1'' pool16 () =
      Some (Inr (netnsPath ''u1'', ip_string (176685056 + 2)), p', w')"
    using Setup_first [OF new, of run_true "\<lambda>w f. StatNotExist" "()" "''u1''"] by auto
  from setup_teardown [OF pool16_inv(1) visits_all _ _ s, of "\<lambda>w f. StatOk" w'] pool16_inv(2) s
  show ?thesis by auto
qed

theorem restart_duplicates_address_witness:
  "\<exists>p' w2. Setup run_true (\<lambda>w f. if f = netnsPath ''a'' then StatOk else StatNotExist) (\<lambda>s. Some (ip_string (176685056 + 2)))
       all_offsets ''a'' pool16 () = Some (Inr (netnsPath ''a'', ip_string (176685056 + 2)), pool16, ()) \<and>
     Setup run_true (\<lambda>w f. if f = netnsPath ''a'' then StatOk else StatNotExist) (\<lambda>s. Some (ip_string (176685056 + 2)))
       all_offsets ''b'' pool16 () = Some (Inr (netnsPath ''b'', ip_string (176685056 + 2)), p', w2)"
  by (rule restart_duplicates_address [of 176685056 16])
     (simp_all add: newIPPool_def recoverPodIP_def netnsPath_def netnsName_def)

end
