(* ===== verification/Text_Expansion.thy ===== *)
theory Text_Expansion
  imports Prelude
begin

text \<open>
  Variable references in container fields: \<open>internal/expansion/expand.go\<close>, used for
  environment values, and \<open>substituteEnvVars\<close> of \<open>internal/runtime/systemd/runtime.go\<close>, used for
  commands and arguments. Strings are byte sequences. Indexing and slicing that would panic is
  \<open>None\<close>; the scanning loops run on the cursor as in the code, and are related to a
  specification by recursion on the text.
\<close>

section \<open>The code\<close>

definition syntaxWrap :: "string \<Rightarrow> string" where
  "syntaxWrap input = ''$'' @ ''('' @ input @ '')''"

fun MappingFuncFor :: "(string \<rightharpoonup> string) list \<Rightarrow> string \<Rightarrow> string" where
  "MappingFuncFor [] input = syntaxWrap input"
| "MappingFuncFor (vars # context') input = (case vars input of
     Some val \<Rightarrow> val | None \<Rightarrow> MappingFuncFor context' input)"

text \<open>\<open>strings.IndexByte\<close>, and the scan for the closing parenthesis.\<close>

fun index_byte :: "char \<Rightarrow> string \<Rightarrow> nat option" where
  "index_byte b [] = None"
| "index_byte b (c # cs) = (if c = b then Some 0 else map_option Suc (index_byte b cs))"

definition tryReadVariableName :: "string \<Rightarrow> (string \<times> bool \<times> nat) option" where
  "tryReadVariableName input = (case input of
     [] \<Rightarrow> None
   | c # rest \<Rightarrow>
       if c = CHR ''$'' then Some ([c], False, 1)
       else if c = CHR ''('' then
         (case index_byte CHR '')'' rest of
            Some i \<Rightarrow> Some (take i rest, True, i + 2)
          | None \<Rightarrow> Some (''$('', False, 1))
       else Some (''$'' @ string_of_byte c, False, 1))"

function Expand_loop :: "string \<Rightarrow> (string \<Rightarrow> string) \<Rightarrow> nat \<Rightarrow> nat \<Rightarrow> string \<Rightarrow> string option" where
  "Expand_loop input mapping cursor checkpoint buf =
    (if cursor < length input then
       if input ! cursor = CHR ''$'' \<and> cursor + 1 < length input then
         (case (slice input (int checkpoint) (int cursor), tryReadVariableName (drop (cursor + 1) input)) of
            (Some part, Some (read, isVar, advance)) \<Rightarrow>
              Expand_loop input mapping (cursor + advance + 1) (cursor + advance + 1)
                (buf @ part @ (if isVar then mapping read else read))
          | _ \<Rightarrow> None)
       else Expand_loop input mapping (cursor + 1) checkpoint buf
     else map_option ((@) buf) (slice input (int checkpoint) (int (length input))))"
  by pat_completeness auto
termination
  by (relation "measure (\<lambda>(input, _, cursor, _). length input - cursor)") auto

declare Expand_loop.simps [simp del]

definition Expand :: "string \<Rightarrow> (string \<Rightarrow> string) \<Rightarrow> string option" where
  "Expand input mapping = Expand_loop input mapping 0 0 []"

text \<open>\<open>env\<close> is the environment; the argument of the loop is the text from position \<open>i\<close> on.\<close>

function substitute_loop :: "(string \<rightharpoonup> string) \<Rightarrow> string \<Rightarrow> string" where
  "substitute_loop env s = (case s of
     [] \<Rightarrow> []
   | c # rest \<Rightarrow>
       (case (if c = CHR ''$'' \<and> rest \<noteq> [] \<and> hd rest = CHR ''('' then index_byte CHR '')'' (drop 2 s) else None) of
          Some e \<Rightarrow> (let varName = take e (drop 2 s) in
            (case env varName of Some val \<Rightarrow> val | None \<Rightarrow> take (2 + e + 1) s) @ substitute_loop env (drop (2 + e + 1) s))
        | None \<Rightarrow> c # substitute_loop env rest))"
  by pat_completeness auto
termination
  by (relation "measure (\<lambda>(env, s). length s)") auto

declare substitute_loop.simps [simp del]

definition substituteEnvVars :: "string \<Rightarrow> (string \<rightharpoonup> string) \<Rightarrow> string" where
  "substituteEnvVars s env = (if str_index s ''$('' = -1 then s else substitute_loop env s)"

section \<open>The specification\<close>

text \<open>The expansion rules by recursion on the text: \<open>$$\<close> is a dollar, a closed \<open>$(name)\<close> is mapped,
  everything else is copied.\<close>

function expand_spec :: "(string \<Rightarrow> string) \<Rightarrow> string \<Rightarrow> string" where
  "expand_spec m [] = []"
| "expand_spec m [c] = [c]"
| "expand_spec m (c # d # s) =
     (if c \<noteq> CHR ''$'' then c # expand_spec m (d # s)
      else if d = CHR ''$'' then CHR ''$'' # expand_spec m s
      else if d = CHR ''('' then
        (case index_byte CHR '')'' s of
           Some i \<Rightarrow> m (take i s) @ expand_spec m (drop (Suc i) s)
         | None \<Rightarrow> ''$('' @ expand_spec m s)
      else ''$'' @ string_of_byte d @ expand_spec m s)"
  by pat_completeness auto
termination
  by (relation "measure (\<lambda>(m, s). length s)") auto

lemma expand_spec_literal: "c \<noteq> CHR ''$'' \<or> s = [] \<Longrightarrow> expand_spec m (c # s) = c # expand_spec m s"
  by (cases s) auto

lemma index_byte_Some: "index_byte b s = Some i \<Longrightarrow> i < length s \<and> s = take i s @ b # drop (Suc i) s"
proof (induction s arbitrary: i)
  case (Cons c s)
  show ?case
  proof (cases "c = b")
    case False
    with Cons.prems obtain j where "i = Suc j" "index_byte b s = Some j" by auto
    with Cons.IH [of j] show ?thesis by simp
  qed (use Cons.prems in simp)
qed simp

text \<open>One pass of the loop, on an input cut at the checkpoint and at the cursor.\<close>

lemma slice_parts: "slice (pre @ part @ rest) (int (length pre)) (int (length pre + length part)) = Some part"
  by (simp add: slice_def)

lemma Expand_loop_end:
  "Expand_loop (pre @ part) m (length pre + length part) (length pre) buf = Some (buf @ part)"
  by (subst Expand_loop.simps) (simp add: slice_def)

lemma Expand_loop_copy:
  assumes "c \<noteq> CHR ''$'' \<or> rest = []"
  shows "Expand_loop (pre @ part @ c # rest) m (length pre + length part) (length pre) buf =
    Expand_loop (pre @ (part @ [c]) @ rest) m (length pre + length (part @ [c])) (length pre) buf"
  using assms by (subst Expand_loop.simps) (auto simp: nth_append)

lemma Expand_loop_ref:
  assumes "tryReadVariableName (d # s) = Some (r, v, adv)" and "adv \<le> Suc (length s)"
  shows "Expand_loop (pre @ part @ CHR ''$'' # d # s) m (length pre + length part) (length pre) buf =
    Expand_loop ((pre @ part @ CHR ''$'' # take adv (d # s)) @ [] @ drop adv (d # s)) m
      (length (pre @ part @ CHR ''$'' # take adv (d # s)) + length []) (length (pre @ part @ CHR ''$'' # take adv (d # s)))
      (buf @ part @ (if v then m r else r))"
proof -
  have n: "length (pre @ part @ CHR ''$'' # take adv (d # s)) = length pre + length part + adv + 1"
    using assms(2) by simp
  have "drop (length pre + length part + 1) (pre @ part @ CHR ''$'' # d # s) = d # s" by simp
  then show ?thesis unfolding n
    using slice_parts [of pre part "CHR ''$'' # d # s"] assms(1)
    by (subst Expand_loop.simps) (simp add: nth_append del: of_nat_add)
qed

lemma Expand_loop_spec:
  "Expand_loop (pre @ part @ rest) m (length pre + length part) (length pre) buf = Some (buf @ part @ expand_spec m rest)"
proof (induction m rest arbitrary: pre part buf rule: expand_spec.induct)
  case (1 m)
  show ?case using Expand_loop_end by simp
next
  case (2 m c)
  show ?case using Expand_loop_copy [of c "[]" pre part m buf] Expand_loop_end [of pre "part @ [c]" m buf] by simp
next
  case (3 m c d s)
  show ?case
  proof (cases "c = CHR ''$''")
    case False
    with "3.IH"(1) [of pre "part @ [c]" buf] show ?thesis
      using Expand_loop_copy [of c "d # s" pre part m buf] by simp
  next
    case c: True
    note step = Expand_loop_ref [of d s _ _ _ pre part m buf]
    consider (esc) "d = CHR ''$''" | (closed) i where "d = CHR ''(''" "index_byte CHR '')'' s = Some i"
      | (open') "d = CHR ''(''" "index_byte CHR '')'' s = None" | (other) "d \<noteq> CHR ''$''" "d \<noteq> CHR ''(''" by blast
    then show ?thesis
    proof cases
      case esc
      then have "tryReadVariableName (d # s) = Some (''$'', False, 1)" by (simp add: tryReadVariableName_def)
      from step [OF this] c esc "3.IH"(2) [of "pre @ part @ ''$$''" "[]"] show ?thesis by simp
    next
      case (closed i)
      then have "tryReadVariableName (d # s) = Some (take i s, True, i + 2)" by (simp add: tryReadVariableName_def)
      from step [OF this] c closed index_byte_Some [OF closed(2)]
        "3.IH"(4) [OF _ _ closed, of "pre @ part @ CHR ''$'' # d # take (Suc i) s" "[]"] show ?thesis by simp
    next
      case open'
      then have "tryReadVariableName (d # s) = Some (''$('', False, 1)" by (simp add: tryReadVariableName_def)
      from step [OF this] c open' "3.IH"(3) [of "pre @ part @ ''$(''" "[]"] show ?thesis by simp
    next
      case other
      then have "tryReadVariableName (d # s) = Some (''$'' @ string_of_byte d, False, 1)" by (simp add: tryReadVariableName_def)
      from step [OF this] c other "3.IH"(5) [of "pre @ part @ CHR ''$'' # [d]" "[]"] show ?thesis by simp
    qed
  qed
qed

lemma Expand_spec: "Expand input m = Some (expand_spec m input)"
  using Expand_loop_spec [of "[]" "[]" input m "[]"] by (simp add: Expand_def)


text \<open>Doubling every dollar sign.\<close>

definition escape_refs :: "string \<Rightarrow> string" where
  "escape_refs s = concat (map (\<lambda>c. if c = CHR ''$'' then ''$$'' else [c]) s)"

lemma expand_spec_escape: "expand_spec m (escape_refs s) = s"
proof (induction s)
  case (Cons c s)
  then show ?case
    by (cases "c = CHR ''$''") (simp_all add: escape_refs_def expand_spec_literal)
qed (simp add: escape_refs_def)

text \<open>Doubling the dollar signs of a text protects it: expansion gives the text back, whatever
  the variables are.\<close>

lemma Expand_escape: "Expand (escape_refs s) mapping = Some s"
  by (simp add: Expand_spec expand_spec_escape)

section \<open>Commands and arguments\<close>

text \<open>No dollar sign is followed by another, or by a byte that is not ASCII.\<close>

fun plain_refs :: "string \<Rightarrow> bool" where
  "plain_refs (c # d # s) = ((c = CHR ''$'' \<longrightarrow> d \<noteq> CHR ''$'' \<and> (of_char d :: nat) < 128) \<and> plain_refs (d # s))"
| "plain_refs _ = True"

lemma plain_refs_tl: "plain_refs (c # s) \<Longrightarrow> plain_refs s"
  by (cases s) auto

lemma plain_refs_drop: "plain_refs s \<Longrightarrow> plain_refs (drop n s)"
proof (induction n arbitrary: s)
  case (Suc n)
  then show ?case by (cases s) (auto dest: plain_refs_tl)
qed simp

lemma substitute_loop_literal:
  "c \<noteq> CHR ''$'' \<or> s = [] \<or> hd s \<noteq> CHR ''('' \<or> index_byte CHR '')'' (tl s) = None \<Longrightarrow>
   substitute_loop env (c # s) = c # substitute_loop env s"
  by (subst substitute_loop.simps) (cases s; auto)

lemma substitute_loop_ref:
  assumes "index_byte CHR '')'' s = Some i"
  shows "substitute_loop env (CHR ''$'' # CHR ''('' # s) = MappingFuncFor [env] (take i s) @ substitute_loop env (drop (Suc i) s)"
proof -
  have "take (Suc i) s = take i s @ '')''" using index_byte_Some [OF assms] by (metis take_Suc_conv_app_nth nth_append_length length_take min.absorb4)
  with assms show ?thesis
    by (subst substitute_loop.simps) (simp add: syntaxWrap_def split: option.split)
qed

lemma substitute_loop_spec: "plain_refs s \<Longrightarrow> substitute_loop env s = expand_spec (MappingFuncFor [env]) s"
proof (induction "MappingFuncFor [env]" s rule: expand_spec.induct)
  case 1
  show ?case by (subst substitute_loop.simps) simp
next
  case (2 c)
  show ?case by (simp add: substitute_loop_literal) (simp add: substitute_loop.simps)
next
  case (3 c d s)
  have tl: "plain_refs (d # s)" "plain_refs s" using "3.prems" plain_refs_tl by auto
  show ?case
  proof (cases "c = CHR ''$''")
    case False
    with 3 tl show ?thesis by (simp add: substitute_loop_literal)
  next
    case c: True
    then have d: "d \<noteq> CHR ''$''" "string_of_byte d = [d]" using "3.prems" by (simp_all add: string_of_byte_ascii)
    consider (closed) i where "d = CHR ''(''" "index_byte CHR '')'' s = Some i"
      | (open') "d = CHR ''(''" "index_byte CHR '')'' s = None" | (other) "d \<noteq> CHR ''(''" by blast
    then show ?thesis
    proof cases
      case (closed i)
      with c d "3.hyps"(4) [OF _ _ closed] plain_refs_drop [OF tl(2)] show ?thesis by (simp add: substitute_loop_ref)
    next
      case open'
      with c d "3.hyps"(3) tl show ?thesis by (simp add: substitute_loop_literal)
    next
      case other
      with c d "3.hyps"(5) tl show ?thesis by (simp add: substitute_loop_literal)
    qed
  qed
qed

lemma expand_spec_no_ref: "str_index_from i s ''$('' = -1 \<Longrightarrow> plain_refs s \<Longrightarrow> expand_spec m s = s"
proof (induction m s arbitrary: i rule: expand_spec.induct)
  case (3 m c d s)
  have tl: "plain_refs (d # s)" "plain_refs s" using "3.prems" plain_refs_tl by auto
  have ix: "str_index_from (Suc i) (d # s) ''$('' = -1" "\<not> (c = CHR ''$'' \<and> d = CHR ''('')"
    using "3.prems"(1) by (auto split: if_splits)
  show ?case
  proof (cases "c = CHR ''$''")
    case False
    with "3.IH"(1) [OF _ ix(1) tl(1)] show ?thesis by simp
  next
    case c: True
    then have d: "d \<noteq> CHR ''$''" "string_of_byte d = [d]" "d \<noteq> CHR ''(''"
      using "3.prems" ix by (simp_all add: string_of_byte_ascii)
    have "str_index_from (Suc (Suc i)) s ''$('' = -1" using ix(1) d(1) by (auto split: if_splits)
    with "3.IH"(5) [OF _ d(1,3) _ tl(2)] c d show ?thesis by simp
  qed
qed simp_all

text \<open>In a text in which no dollar sign precedes another one or a byte that is not ASCII, the
  substitution in commands and arguments agrees with the expansion of environment values.\<close>

lemma substitute_agrees:
  assumes "plain_refs s"
  shows "Expand s (MappingFuncFor [env]) = Some (substituteEnvVars s env)"
  using assms expand_spec_no_ref [of 0 s "MappingFuncFor [env]"]
  by (simp add: Expand_spec substituteEnvVars_def substitute_loop_spec str_index_def del: MappingFuncFor.simps)

theorem substitute_agrees_witness:
  "Expand ''a $(X) $(Y'' (MappingFuncFor [[''X'' \<mapsto> ''1'']]) = Some (substituteEnvVars ''a $(X) $(Y'' [''X'' \<mapsto> ''1''])"
  by (rule substitute_agrees) simp

text \<open>An escaped reference is kept by the one and replaced by the other.\<close>

lemma substitute_ignores_escape:
  "Expand ''$$(X)'' (MappingFuncFor [[''X'' \<mapsto> ''1'']]) = Some ''$(X)'' \<and>
   substituteEnvVars ''$$(X)'' [''X'' \<mapsto> ''1''] = ''$1''"
proof
  show "Expand ''$$(X)'' (MappingFuncFor [[''X'' \<mapsto> ''1'']]) = Some ''$(X)''"
    by (simp add: Expand_spec expand_spec_literal)
  have "substitute_loop [''X'' \<mapsto> ''1''] ''$$(X)'' = ''$1''"
    using substitute_loop_ref [of "''X)''" 1 "[''X'' \<mapsto> ''1'']"]
    by (simp add: substitute_loop_literal) (simp add: substitute_loop.simps)
  then show "substituteEnvVars ''$$(X)'' [''X'' \<mapsto> ''1''] = ''$1''"
    by (simp add: substituteEnvVars_def str_index_def)
qed

end
