(* ===== verification/Probes.thy ===== *)
theory Probes
  imports Api_Types
begin

text \<open>
  Container probes, \<open>node/probes.go\<close>: the probe state of a container, when a probe is due,
  how a probe is run, and how its results are evaluated. The network and the container runtime
  are parameters of the runner; the random jitter and the readings of the clock are arguments.
\<close>

section \<open>State\<close>

datatype ProbeResult = ProbeSuccess | ProbeFailure | ProbeUnknown

primrec probeResultString :: "ProbeResult \<Rightarrow> string" where
  "probeResultString ProbeSuccess = ''success''"
| "probeResultString ProbeFailure = ''failure''"
| "probeResultString ProbeUnknown = ''unknown''"

record ContainerProbeState =
  StartedAt :: gotime
  StartupPassed :: bool
  StartupFailCount :: int
  LiveFailCount :: int
  pr_Ready :: bool
  ReadyFailCount :: int
  ReadySuccessCount :: int
  LastProbeTime :: "string \<rightharpoonup> gotime"

definition zero_ProbeState :: ContainerProbeState where
  "zero_ProbeState = \<lparr>StartedAt = 0, StartupPassed = False, StartupFailCount = 0, LiveFailCount = 0,
     pr_Ready = False, ReadyFailCount = 0, ReadySuccessCount = 0, LastProbeTime = Map.empty\<rparr>"

section \<open>Running a probe\<close>

text \<open>\<open>http\<close> returns the status code of a GET, or \<open>None\<close> on any error; \<open>dial\<close> tells whether a
  connection can be opened; \<open>exec\<close> tells whether the command of a pod's container exits with 0.\<close>

definition probe_url :: "string \<Rightarrow> http_get_action \<Rightarrow> string" where
  "probe_url podIP action = (let
     scheme = (if h_Scheme action = ''HTTPS'' then ''https'' else ''http'');
     path = (if h_Path action = [] then ''/'' else h_Path action);
     target = (if h_Host action \<noteq> [] then h_Host action else podIP)
   in scheme @ ''://'' @ target @ '':'' @ h_Port action @ path)"

definition runHTTPGetProbe :: "(string \<Rightarrow> int option) \<Rightarrow> string \<Rightarrow> http_get_action \<Rightarrow> ProbeResult" where
  "runHTTPGetProbe http podIP action = (case http (probe_url podIP action) of
     None \<Rightarrow> ProbeFailure
   | Some status \<Rightarrow> if 200 \<le> status \<and> status < 400 then ProbeSuccess else ProbeFailure)"

text \<open>\<open>net.JoinHostPort\<close> puts a host with a colon into brackets.\<close>

definition JoinHostPort :: "string \<Rightarrow> string \<Rightarrow> string" where
  "JoinHostPort host port = (if CHR '':'' \<in> set host then ''['' @ host @ '']:'' @ port else host @ '':'' @ port)"

definition runTCPSocketProbe :: "(string \<Rightarrow> bool) \<Rightarrow> string \<Rightarrow> tcp_socket_action \<Rightarrow> ProbeResult" where
  "runTCPSocketProbe dial podIP action =
     (if dial (JoinHostPort (if t_Host action \<noteq> [] then t_Host action else podIP) (t_Port action))
      then ProbeSuccess else ProbeFailure)"

definition runExecProbe :: "(string \<Rightarrow> string \<Rightarrow> string list \<Rightarrow> bool) \<Rightarrow> string \<Rightarrow> string \<Rightarrow> string list \<Rightarrow> ProbeResult" where
  "runExecProbe exec uid containerName cmd = (if exec uid containerName cmd then ProbeSuccess else ProbeFailure)"

definition RunProbe :: "(string \<Rightarrow> int option) \<Rightarrow> (string \<Rightarrow> bool) \<Rightarrow> (string \<Rightarrow> string \<Rightarrow> string list \<Rightarrow> bool)
    \<Rightarrow> pod \<Rightarrow> string \<Rightarrow> probe option \<Rightarrow> string \<Rightarrow> ProbeResult" where
  "RunProbe http dial exec pd containerName pb podIP = (case pb of
     None \<Rightarrow> ProbeSuccess
   | Some pr \<Rightarrow> (case p_HTTPGet pr of
       Some a \<Rightarrow> runHTTPGetProbe http podIP a
     | None \<Rightarrow> (case p_TCPSocket pr of
         Some a \<Rightarrow> runTCPSocketProbe dial podIP a
       | None \<Rightarrow> (case p_Exec pr of
           Some a \<Rightarrow> runExecProbe exec (pod_UID pd) containerName a
         | None \<Rightarrow> ProbeUnknown))))"

section \<open>Scheduling\<close>

text \<open>\<open>t0\<close> is the clock when the first probe is seeded without a start time, \<open>t1\<close> and \<open>t2\<close> the
  clock of the two comparisons; \<open>jitter\<close> is the random number of seconds.\<close>

definition probe_period :: "int \<Rightarrow> int" where
  "probe_period periodSeconds = (if periodSeconds \<le> 0 then 10 else periodSeconds)"

definition isDue :: "gotime \<Rightarrow> gotime \<Rightarrow> gotime \<Rightarrow> int \<Rightarrow> ContainerProbeState \<Rightarrow> string \<Rightarrow> int \<Rightarrow> int
    \<Rightarrow> bool \<times> ContainerProbeState" where
  "isDue t0 t1 t2 jitter state probeType periodSeconds initialDelaySeconds = (let
     period = probe_period periodSeconds * Second;
     state' = (case LastProbeTime state probeType of
         Some _ \<Rightarrow> state
       | None \<Rightarrow> state\<lparr>LastProbeTime := (LastProbeTime state)(probeType \<mapsto>
           (if StartedAt state \<noteq> 0
            then StartedAt state + (initialDelaySeconds * Second + jitter * Second - period)
            else t0 + (jitter * Second - period)))\<rparr>);
     last = (case LastProbeTime state' probeType of Some t \<Rightarrow> t | None \<Rightarrow> 0)
   in (if 0 < initialDelaySeconds \<and> StartedAt state \<noteq> 0 \<and> time_sub t1 (StartedAt state) < initialDelaySeconds * Second
       then False else period \<le> time_sub t2 last, state'))"

definition markProbed :: "gotime \<Rightarrow> ContainerProbeState \<Rightarrow> string \<Rightarrow> ContainerProbeState" where
  "markProbed now state probeType = state\<lparr>LastProbeTime := (LastProbeTime state)(probeType \<mapsto> now)\<rparr>"

section \<open>Evaluation\<close>

definition threshold_or :: "int \<Rightarrow> int \<Rightarrow> int" where
  "threshold_or t def = (if t \<le> 0 then def else t)"

definition EvalStartup :: "ContainerProbeState \<Rightarrow> probe \<Rightarrow> ProbeResult \<Rightarrow> bool \<times> ContainerProbeState" where
  "EvalStartup state pb result =
     (if result = ProbeSuccess then (False, state\<lparr>StartupPassed := True, StartupFailCount := 0\<rparr>)
      else let n = int32 (StartupFailCount state + 1) in
        (threshold_or (p_FailureThreshold pb) 3 \<le> n, state\<lparr>StartupFailCount := n\<rparr>))"

definition EvalLiveness :: "ContainerProbeState \<Rightarrow> probe \<Rightarrow> ProbeResult \<Rightarrow> bool \<times> ContainerProbeState" where
  "EvalLiveness state pb result =
     (if result = ProbeSuccess then (False, state\<lparr>LiveFailCount := 0\<rparr>)
      else let n = int32 (LiveFailCount state + 1) in
        (threshold_or (p_FailureThreshold pb) 3 \<le> n, state\<lparr>LiveFailCount := n\<rparr>))"

definition EvalReadiness :: "ContainerProbeState \<Rightarrow> probe \<Rightarrow> ProbeResult \<Rightarrow> ContainerProbeState" where
  "EvalReadiness state pb result =
     (if result = ProbeSuccess then
        (let n = int32 (ReadySuccessCount state + 1); s = state\<lparr>ReadyFailCount := 0, ReadySuccessCount := n\<rparr> in
         if threshold_or (p_SuccessThreshold pb) 1 \<le> n then s\<lparr>pr_Ready := True\<rparr> else s)
      else
        (let n = int32 (ReadyFailCount state + 1); s = state\<lparr>ReadySuccessCount := 0, ReadyFailCount := n\<rparr> in
         if threshold_or (p_FailureThreshold pb) 3 \<le> n then s\<lparr>pr_Ready := False\<rparr> else s))"

section \<open>Histories\<close>

text \<open>The number of results at the end of a history (latest last) that satisfy a predicate.\<close>

definition trailing :: "('a \<Rightarrow> bool) \<Rightarrow> 'a list \<Rightarrow> nat" where
  "trailing P h = length (takeWhile P (rev h))"

lemma trailing_snoc [simp]: "trailing P (h @ [x]) = (if P x then Suc (trailing P h) else 0)"
  by (simp add: trailing_def)

lemma trailing_Nil [simp]: "trailing P [] = 0"
  by (simp add: trailing_def)

lemma trailing_le: "trailing P h \<le> length h"
  using length_takeWhile_le [of P "rev h"] by (simp add: trailing_def)

definition live_history :: "probe \<Rightarrow> ProbeResult list \<Rightarrow> ContainerProbeState" where
  "live_history pb h = foldl (\<lambda>s r. snd (EvalLiveness s pb r)) zero_ProbeState h"

definition ready_history :: "probe \<Rightarrow> ContainerProbeState \<Rightarrow> ProbeResult list \<Rightarrow> ContainerProbeState" where
  "ready_history pb s h = foldl (\<lambda>s r. EvalReadiness s pb r) s h"

lemma int32_Suc: "Suc n < 2 ^ 31 \<Longrightarrow> int32 (int n + 1) = int n + 1"
  by (intro int32_id) (simp add: in_int32_def)

lemma live_history_count:
  "length h < 2 ^ 31 \<Longrightarrow> LiveFailCount (live_history pb h) = int (trailing (\<lambda>r. r \<noteq> ProbeSuccess) h)"
proof (induction h rule: rev_induct)
  case (snoc r h)
  let ?n = "trailing (\<lambda>r. r \<noteq> ProbeSuccess) h"
  have "Suc ?n < 2 ^ 31" using snoc.prems trailing_le [of "\<lambda>r. r \<noteq> ProbeSuccess" h] by simp
  with snoc int32_Suc [of ?n] show ?case by (simp add: live_history_def EvalLiveness_def Let_def)
qed (simp add: live_history_def zero_ProbeState_def)

text \<open>A liveness result asks for a restart exactly if it and the results right before it
  failed at least as often in a row as the failure threshold says (three if it is not positive).\<close>

lemma liveness_restart:
  assumes "length h < 2 ^ 31 - 1"
  shows "fst (EvalLiveness (live_history pb h) pb r) \<longleftrightarrow>
    threshold_or (p_FailureThreshold pb) 3 \<le> int (trailing (\<lambda>r. r \<noteq> ProbeSuccess) (h @ [r]))"
proof -
  let ?n = "trailing (\<lambda>r. r \<noteq> ProbeSuccess) h"
  have "length h < 2 ^ 31" "Suc ?n < 2 ^ 31" using assms trailing_le [of "\<lambda>r. r \<noteq> ProbeSuccess" h] by simp_all
  with live_history_count [of h pb] int32_Suc [of ?n] show ?thesis
    by (simp add: EvalLiveness_def Let_def threshold_or_def add.commute)
qed

theorem liveness_restart_witness:
  "fst (EvalLiveness (live_history \<lparr>p_InitialDelaySeconds = 0, p_PeriodSeconds = 10, p_TimeoutSeconds = 1, p_SuccessThreshold = 1,
      p_FailureThreshold = 2, p_HTTPGet = None, p_TCPSocket = None, p_Exec = None\<rparr> [ProbeSuccess, ProbeFailure])
    \<lparr>p_InitialDelaySeconds = 0, p_PeriodSeconds = 10, p_TimeoutSeconds = 1, p_SuccessThreshold = 1,
      p_FailureThreshold = 2, p_HTTPGet = None, p_TCPSocket = None, p_Exec = None\<rparr> ProbeUnknown)"
  by (subst liveness_restart) (simp_all add: threshold_or_def trailing_def)

lemma ready_history_counts:
  assumes "length h < 2 ^ 31" and "ReadySuccessCount s = 0" and "ReadyFailCount s = 0"
  shows "ReadySuccessCount (ready_history pb s h) = int (trailing (\<lambda>r. r = ProbeSuccess) h) \<and>
    ReadyFailCount (ready_history pb s h) = int (trailing (\<lambda>r. r \<noteq> ProbeSuccess) h)"
  using assms(1)
proof (induction h rule: rev_induct)
  case (snoc r h)
  let ?f = "trailing (\<lambda>r. r \<noteq> ProbeSuccess) h" and ?s = "trailing (\<lambda>r. r = ProbeSuccess) h"
  have "Suc ?f < 2 ^ 31" "Suc ?s < 2 ^ 31"
    using snoc.prems trailing_le [of "\<lambda>r. r \<noteq> ProbeSuccess" h] trailing_le [of "\<lambda>r. r = ProbeSuccess" h] by simp_all
  with snoc int32_Suc [of ?f] int32_Suc [of ?s] show ?case
    by (simp add: ready_history_def EvalReadiness_def Let_def)
qed (simp add: ready_history_def assms(2,3))

text \<open>Readiness changes with hysteresis: after a history of results and one more, a container is
  ready if the last results succeeded as often in a row as the success threshold says (one by
  default), it is not ready if they failed as often in a row as the failure threshold says (three by
  default), and otherwise it is what it was before the last result.\<close>

lemma readiness_hysteresis:
  assumes "length h < 2 ^ 31 - 1" and "ReadySuccessCount s = 0" and "ReadyFailCount s = 0"
  shows "pr_Ready (ready_history pb s (h @ [r])) \<longleftrightarrow>
    (if threshold_or (p_SuccessThreshold pb) 1 \<le> int (trailing (\<lambda>r. r = ProbeSuccess) (h @ [r])) then True
     else if threshold_or (p_FailureThreshold pb) 3 \<le> int (trailing (\<lambda>r. r \<noteq> ProbeSuccess) (h @ [r])) then False
     else pr_Ready (ready_history pb s h))"
proof -
  let ?f = "trailing (\<lambda>r. r \<noteq> ProbeSuccess) h" and ?s = "trailing (\<lambda>r. r = ProbeSuccess) h"
  have "Suc ?f < 2 ^ 31" "Suc ?s < 2 ^ 31"
    using assms(1) trailing_le [of "\<lambda>r. r \<noteq> ProbeSuccess" h] trailing_le [of "\<lambda>r. r = ProbeSuccess" h] by simp_all
  then have i: "int32 (int ?f + 1) = int ?f + 1" "int32 (int ?s + 1) = int ?s + 1"
    "int32 (1 + int ?f) = 1 + int ?f" "int32 (1 + int ?s) = 1 + int ?s" using int32_Suc [of ?f] int32_Suc [of ?s] by (simp_all add: add.commute)
  have c: "ReadySuccessCount (ready_history pb s h) = int ?s" "ReadyFailCount (ready_history pb s h) = int ?f"
    using ready_history_counts [of h s pb] assms by simp_all
  have e: "ready_history pb s (h @ [r]) = EvalReadiness (ready_history pb s h) pb r" by (simp add: ready_history_def)
  show ?thesis unfolding e
    by (cases "r = ProbeSuccess") (simp_all add: EvalReadiness_def Let_def c i threshold_or_def add.commute)
qed

theorem readiness_hysteresis_witness:
  "\<not> pr_Ready (ready_history \<lparr>p_InitialDelaySeconds = 0, p_PeriodSeconds = 10, p_TimeoutSeconds = 1, p_SuccessThreshold = 2,
      p_FailureThreshold = 2, p_HTTPGet = None, p_TCPSocket = None, p_Exec = None\<rparr> zero_ProbeState ([] @ [ProbeSuccess]))"
  by (subst readiness_hysteresis) (simp_all add: zero_ProbeState_def threshold_or_def ready_history_def trailing_def)

text \<open>The first probe of a container fires exactly from its start plus the initial delay plus the
  jitter on: not before the initial delay has passed, and no later than one period after it.\<close>

lemma first_probe_due:
  assumes "LastProbeTime state probeType = None" and "StartedAt state \<noteq> 0"
    and "0 \<le> jitter" and "jitter < probe_period period" and "0 \<le> delay" and "delay < 2 ^ 31" and "period < 2 ^ 31"
  shows "fst (isDue t0 now now jitter state probeType period delay) \<longleftrightarrow>
    StartedAt state + delay * Second + jitter * Second \<le> now"
proof -
  let ?p = "probe_period period * Second"
  have p: "0 < ?p" "?p < 2 ^ 63" using assms(7) by (auto simp: probe_period_def)
  have "delay * Second < 2 ^ 63" using assms(6) by simp
  moreover have "- (2 ^ 63) < delay * Second" using assms(5) by simp
  ultimately have s: "delay * Second \<le> time_sub now (StartedAt state) \<longleftrightarrow> delay * Second \<le> now - StartedAt state"
    by (simp only: time_sub_ge_iff)
  have "?p \<le> time_sub now (StartedAt state + (delay * Second + jitter * Second - ?p)) \<longleftrightarrow>
      ?p \<le> now - (StartedAt state + (delay * Second + jitter * Second - ?p))"
    using p by (intro time_sub_ge_iff) simp_all
  also have "\<dots> \<longleftrightarrow> StartedAt state + delay * Second + jitter * Second \<le> now" by linarith
  finally have due: "?p \<le> time_sub now (StartedAt state + (delay * Second + jitter * Second - ?p)) \<longleftrightarrow>
      StartedAt state + delay * Second + jitter * Second \<le> now" .
  have "fst (isDue t0 now now jitter state probeType period delay) \<longleftrightarrow>
      \<not> (0 < delay \<and> time_sub now (StartedAt state) < delay * Second) \<and>
      ?p \<le> time_sub now (StartedAt state + (delay * Second + jitter * Second - ?p))"
    using assms(1,2) by (simp add: isDue_def Let_def)
  then show ?thesis unfolding due not_le [symmetric] s using assms(3) by auto
qed

theorem first_probe_due_witness:
  "fst (isDue 0 (40 * Second) (40 * Second) 3 (zero_ProbeState\<lparr>StartedAt := 30 * Second\<rparr>) ''liveness'' 10 5)"
  by (subst first_probe_due) (simp_all add: zero_ProbeState_def probe_period_def)

end
