(* ===== verification/Pod_Store.thy ===== *)
theory Pod_Store
  imports Complex_Main Probes
begin

text \<open>
  The node's registry of pods, \<open>node/podstore.go\<close>: the pods by UID, the index from
  \<open>namespace/name\<close> to UID, the log of completed pods, the counters of requested CPU and memory
  and of deletions, and the lock-free snapshot. Every operation runs under the registry lock or
  the lock of one pod; it is a function on the store. Go maps that are iterated over are partial
  functions, so results that depend on no order are partial functions too. Readings of the clock
  are arguments. The pod pointer of an entry is never nil: every operation that sets it has
  dereferenced the pod before. Seconds as \<open>float64\<close> are exact rationals.
\<close>

section \<open>State\<close>

definition restartBackoffInit :: duration where "restartBackoffInit = 10 * Second"
definition maxRestartBackoff :: duration where "maxRestartBackoff = 5 * Minute"
definition completedTTL :: duration where "completedTTL = 24 * Hour"

record containerRestartState =
  rs_count :: int
  rs_backoff :: duration
  rs_lastStarted :: gotime

record podState =
  e_pod :: pod
  e_ip :: string
  e_phase :: PodPhase
  e_hydrated :: bool
  e_inFlight :: "nat option"
  e_deleting :: bool
  e_restarts :: "string \<rightharpoonup> containerRestartState"
  e_probes :: "(string \<rightharpoonup> ContainerProbeState) option"

record completedEntry =
  ce_uid :: string
  ce_deletedAt :: gotime

record PodSnapshot =
  sn_Name :: string
  sn_Namespace :: string
  sn_IP :: string
  sn_Phase :: PodPhase
  sn_Containers :: nat

record PodStore =
  pods :: "string \<rightharpoonup> podState"
  nameIndex :: "string \<rightharpoonup> string"
  completed :: "string \<rightharpoonup> completedEntry"
  usedCPU :: int
  usedMem :: int
  deletingCount :: int
  roSnap :: "(string \<rightharpoonup> PodSnapshot) option"
  triggerCh :: bool

definition NewPodStore :: PodStore where
  "NewPodStore = \<lparr>pods = Map.empty, nameIndex = Map.empty, completed = Map.empty, usedCPU = 0, usedMem = 0,
     deletingCount = 0, roSnap = None, triggerCh = False\<rparr>"

definition new_entry :: "pod \<Rightarrow> string \<Rightarrow> PodPhase \<Rightarrow> bool \<Rightarrow> nat option \<Rightarrow> podState" where
  "new_entry pd ip phase hydrated handle = \<lparr>e_pod = pd, e_ip = ip, e_phase = phase, e_hydrated = hydrated,
     e_inFlight = handle, e_deleting = False, e_restarts = Map.empty, e_probes = None\<rparr>"

section \<open>Helpers\<close>

definition name_key :: "string \<Rightarrow> string \<Rightarrow> string" where
  "name_key namespace name = namespace @ ''/'' @ name"

definition pod_key :: "pod \<Rightarrow> string" where
  "pod_key pd = name_key (pod_Namespace pd) (pod_Name pd)"

definition podResources :: "pod \<Rightarrow> int \<times> int" where
  "podResources pd = foldl (\<lambda>(cpu, mem) c.
     (case c_RequestCPU c of Some r \<Rightarrow> int64 (cpu + r) | None \<Rightarrow> cpu,
      case c_RequestMemory c of Some r \<Rightarrow> int64 (mem + r) | None \<Rightarrow> mem)) (0, 0) (pod_Containers pd)"

abbreviation pod_cpu :: "pod \<Rightarrow> int" where "pod_cpu pd \<equiv> fst (podResources pd)"
abbreviation pod_mem :: "pod \<Rightarrow> int" where "pod_mem pd \<equiv> snd (podResources pd)"

definition add_used :: "int \<Rightarrow> int \<Rightarrow> PodStore \<Rightarrow> PodStore" where
  "add_used cpu mem s = s\<lparr>usedCPU := int64 (usedCPU s + cpu), usedMem := int64 (usedMem s + mem)\<rparr>"

definition triggerSnapshot :: "PodStore \<Rightarrow> PodStore" where
  "triggerSnapshot s = s\<lparr>triggerCh := True\<rparr>"

text \<open>One round of \<open>runSnapshotAggregator\<close> after a trigger.\<close>

definition snapshot_of :: "PodStore \<Rightarrow> string \<rightharpoonup> PodSnapshot" where
  "snapshot_of s uid = (case pods s uid of
     None \<Rightarrow> None
   | Some e \<Rightarrow> if e_hydrated e then None else
       Some \<lparr>sn_Name = pod_Name (e_pod e), sn_Namespace = pod_Namespace (e_pod e), sn_IP = e_ip e,
             sn_Phase = e_phase e, sn_Containers = length (pod_Containers (e_pod e))\<rparr>)"

definition runSnapshotAggregator :: "PodStore \<Rightarrow> PodStore" where
  "runSnapshotAggregator s = (if triggerCh s then s\<lparr>triggerCh := False, roSnap := Some (snapshot_of s)\<rparr> else s)"

text \<open>An operation on one pod: nothing happens if the pod is not registered.\<close>

definition with_pod :: "string \<Rightarrow> (podState \<Rightarrow> podState) \<Rightarrow> PodStore \<Rightarrow> PodStore" where
  "with_pod uid f s = (case pods s uid of None \<Rightarrow> s | Some e \<Rightarrow> s\<lparr>pods := (pods s)(uid \<mapsto> f e)\<rparr>)"

definition with_pod_trigger :: "string \<Rightarrow> (podState \<Rightarrow> podState) \<Rightarrow> PodStore \<Rightarrow> PodStore" where
  "with_pod_trigger uid f s = (case pods s uid of None \<Rightarrow> s | Some e \<Rightarrow> triggerSnapshot (with_pod uid f s))"

text \<open>The status list brought in line with the spec; the last status of a name wins.\<close>

definition new_status :: "string \<Rightarrow> container_status" where
  "new_status n = \<lparr>s_Name = n, s_Image = [], s_Ready = False, s_RestartCount = 0,
     s_State = \<lparr>Waiting = None, Running = None, Terminated = None\<rparr>\<rparr>"

definition status_named :: "string \<Rightarrow> container_status list \<Rightarrow> container_status option" where
  "status_named n status = find (\<lambda>st. s_Name st = n) (rev status)"

definition syncSlice :: "container list \<Rightarrow> container_status list \<Rightarrow> container_status list" where
  "syncSlice spec status =
     (if spec = [] then status
      else if list_all (\<lambda>c. status_named (c_Name c) status \<noteq> None) spec then status
      else map (\<lambda>c. case status_named (c_Name c) status of Some st \<Rightarrow> st | None \<Rightarrow> new_status (c_Name c)) spec)"

definition syncStatusToSpec :: "pod \<Rightarrow> pod" where
  "syncStatusToSpec pd = pd\<lparr>pod_Status := (pod_Status pd)\<lparr>
     ps_ContainerStatuses := syncSlice (pod_Containers pd) (ps_ContainerStatuses (pod_Status pd)),
     ps_InitContainerStatuses := syncSlice (pod_InitContainers pd) (ps_InitContainerStatuses (pod_Status pd))\<rparr>\<rparr>"

section \<open>The tracker interface and accessors\<close>

definition getPodState :: "PodStore \<Rightarrow> string \<Rightarrow> podState option" where
  "getPodState s uid = pods s uid"

definition IsInFlight :: "PodStore \<Rightarrow> string \<Rightarrow> bool" where
  "IsInFlight s uid = (case getPodState s uid of Some e \<Rightarrow> e_inFlight e \<noteq> None | None \<Rightarrow> False)"

definition HasPod :: "PodStore \<Rightarrow> string \<Rightarrow> bool" where
  "HasPod s uid \<longleftrightarrow> getPodState s uid \<noteq> None"

definition PodUIDs :: "PodStore \<Rightarrow> string \<rightharpoonup> string" where
  "PodUIDs s uid = map_option (\<lambda>e. pod_key (e_pod e)) (pods s uid)"

definition EvictGhost :: "string \<Rightarrow> PodStore \<Rightarrow> PodStore" where
  "EvictGhost uid s = (case pods s uid of
     None \<Rightarrow> s
   | Some e \<Rightarrow> triggerSnapshot (add_used (- pod_cpu (e_pod e)) (- pod_mem (e_pod e))
       (s\<lparr>pods := (pods s)(uid := None), nameIndex := (nameIndex s)(pod_key (e_pod e) := None)\<rparr>)))"

definition PodCount :: "PodStore \<Rightarrow> nat" where "PodCount s = card (dom (pods s))"

definition PodIP :: "PodStore \<Rightarrow> string \<Rightarrow> string" where
  "PodIP s uid = (case getPodState s uid of Some e \<Rightarrow> e_ip e | None \<Rightarrow> [])"

definition store_PodPhase :: "PodStore \<Rightarrow> string \<Rightarrow> PodPhase" where
  "store_PodPhase s uid = (case getPodState s uid of Some e \<Rightarrow> e_phase e | None \<Rightarrow> [])"

definition DeletionsInProgress :: "PodStore \<Rightarrow> bool" where
  "DeletionsInProgress s \<longleftrightarrow> 0 < deletingCount s"

definition IsDeleting :: "PodStore \<Rightarrow> string \<Rightarrow> bool" where
  "IsDeleting s uid = (case getPodState s uid of Some e \<Rightarrow> e_deleting e | None \<Rightarrow> False)"

definition IsContainerReady :: "PodStore \<Rightarrow> string \<Rightarrow> string \<Rightarrow> bool" where
  "IsContainerReady s uid containerName = (case getPodState s uid of
     Some e \<Rightarrow> (case e_probes e of
       Some ps \<Rightarrow> (case ps containerName of Some st \<Rightarrow> pr_Ready st | None \<Rightarrow> True)
     | None \<Rightarrow> True)
   | None \<Rightarrow> True)"

definition GetPodCopy :: "PodStore \<Rightarrow> string \<Rightarrow> pod option" where
  "GetPodCopy s uid = map_option e_pod (getPodState s uid)"

section \<open>Mutations\<close>

definition RegisterPending :: "string \<Rightarrow> pod \<Rightarrow> nat \<Rightarrow> PodStore \<Rightarrow> PodStore" where
  "RegisterPending uid pd handle s = triggerSnapshot (add_used (pod_cpu pd) (pod_mem pd)
     (s\<lparr>pods := (pods s)(uid \<mapsto> new_entry pd [] PodPending False (Some handle)),
        nameIndex := (nameIndex s)(pod_key pd \<mapsto> uid)\<rparr>))"

definition AlreadyRunning :: "string \<Rightarrow> pod \<Rightarrow> PodStore \<Rightarrow> (bool \<times> bool) \<times> PodStore" where
  "AlreadyRunning uid pd s = (case getPodState s uid of
     None \<Rightarrow> ((False, False), s)
   | Some e \<Rightarrow> let wasStub = pod_Containers (e_pod e) = [];
       s1 = (if wasStub then add_used (pod_cpu pd) (pod_mem pd) s else s);
       e1 = (if wasStub then e\<lparr>e_pod := pd\<rparr> else e)
     in ((True, wasStub), triggerSnapshot (s1\<lparr>pods := (pods s1)(uid \<mapsto> e1\<lparr>e_hydrated := False\<rparr>)\<rparr>)))"

definition PromoteRunning :: "string \<Rightarrow> pod \<Rightarrow> string \<Rightarrow> PodStore \<Rightarrow> PodStore" where
  "PromoteRunning uid pd ip s = with_pod_trigger uid
     (\<lambda>e. e\<lparr>e_pod := pd, e_ip := ip, e_phase := PodRunning, e_inFlight := None\<rparr>) s"

definition MarkDeleting :: "string \<Rightarrow> PodStore \<Rightarrow> PodStore" where
  "MarkDeleting uid s = (case getPodState s uid of
     None \<Rightarrow> s
   | Some e \<Rightarrow> if e_deleting e then s
       else (with_pod uid (e_deleting_update (\<lambda>_. True)) s)\<lparr>deletingCount := int32 (deletingCount s + 1)\<rparr>)"

definition SetPodIP :: "string \<Rightarrow> string \<Rightarrow> PodStore \<Rightarrow> PodStore" where
  "SetPodIP uid ip s = with_pod_trigger uid (e_ip_update (\<lambda>_. ip)) s"

definition expireCompleted :: "gotime \<Rightarrow> (string \<rightharpoonup> completedEntry) \<Rightarrow> string \<rightharpoonup> completedEntry" where
  "expireCompleted now m k = (case m k of
     Some e \<Rightarrow> if ce_deletedAt e < now - completedTTL then None else Some e
   | None \<Rightarrow> None)"

definition Unregister :: "gotime \<Rightarrow> gotime \<Rightarrow> string \<Rightarrow> string \<Rightarrow> string \<Rightarrow> PodStore \<Rightarrow> PodStore" where
  "Unregister t0 t1 uid namespace name s = (let
     key = name_key namespace name;
     log = (\<lambda>s. s\<lparr>completed := expireCompleted t1 ((completed s)(key \<mapsto> \<lparr>ce_uid = uid, ce_deletedAt = t0\<rparr>))\<rparr>)
   in case pods s uid of
     None \<Rightarrow> log s
   | Some e \<Rightarrow> let s1 = add_used (- pod_cpu (e_pod e)) (- pod_mem (e_pod e))
         (log (s\<lparr>pods := (pods s)(uid := None), nameIndex := (nameIndex s)(key := None)\<rparr>)) in
       triggerSnapshot (if e_deleting e then s1\<lparr>deletingCount := int32 (deletingCount s1 - 1)\<rparr> else s1))"

definition setPhase :: "PodPhase \<Rightarrow> podState \<Rightarrow> podState" where
  "setPhase phase e = e\<lparr>e_phase := phase, e_pod := (e_pod e)\<lparr>pod_Status := (pod_Status (e_pod e))\<lparr>ps_Phase := phase\<rparr>\<rparr>\<rparr>"

definition SetPhase :: "string \<Rightarrow> PodPhase \<Rightarrow> PodStore \<Rightarrow> PodStore" where
  "SetPhase uid phase s = with_pod_trigger uid (setPhase phase) s"

definition SetPodStatus :: "string \<Rightarrow> pod_status \<Rightarrow> PodStore \<Rightarrow> PodStore" where
  "SetPodStatus uid status s = with_pod_trigger uid
     (\<lambda>e. let e1 = setPhase (ps_Phase status) e in e1\<lparr>e_pod := (e_pod e1)\<lparr>pod_Status := status\<rparr>\<rparr>) s"

definition enrich_state :: "gotime \<Rightarrow> containerRestartState option \<Rightarrow> container_state_v1 \<Rightarrow> container_state_v1" where
  "enrich_state now rs state = (case rs of
     Some r \<Rightarrow> if rs_lastStarted r = 0 then state else
       state\<lparr>Running := map_option (\<lambda>t. if t = 0 then rs_lastStarted r else t) (Running state),
         Terminated := map_option (\<lambda>t. t\<lparr>st_StartedAt := (if st_StartedAt t = 0 then rs_lastStarted r else st_StartedAt t),
            st_FinishedAt := (if st_FinishedAt t = 0 then now else st_FinishedAt t)\<rparr>) (Terminated state)\<rparr>
   | None \<Rightarrow> state)"

fun update_named :: "string \<Rightarrow> container_state_v1 \<Rightarrow> bool \<Rightarrow> container_status list \<Rightarrow> container_status list option" where
  "update_named n state ready [] = None"
| "update_named n state ready (st # sts) = (if s_Name st = n then Some (st\<lparr>s_State := state, s_Ready := ready\<rparr> # sts)
     else map_option ((#) st) (update_named n state ready sts))"

definition SetContainerState :: "gotime \<Rightarrow> string \<Rightarrow> string \<Rightarrow> container_state_v1 \<Rightarrow> bool \<Rightarrow> PodStore \<Rightarrow> PodStore" where
  "SetContainerState now uid containerName state ready s = (case getPodState s uid of
     None \<Rightarrow> s
   | Some e \<Rightarrow> let
       st = enrich_state now (e_restarts e containerName) state;
       pd = syncStatusToSpec (e_pod e);
       status = pod_Status pd;
       put = (\<lambda>status'. s\<lparr>pods := (pods s)(uid \<mapsto> e\<lparr>e_pod := pd\<lparr>pod_Status := status'\<rparr>\<rparr>)\<rparr>)
     in case update_named containerName st ready (ps_ContainerStatuses status) of
       Some cs \<Rightarrow> triggerSnapshot (put (status\<lparr>ps_ContainerStatuses := cs\<rparr>))
     | None \<Rightarrow> (case update_named containerName st ready (ps_InitContainerStatuses status) of
         Some cs \<Rightarrow> triggerSnapshot (put (status\<lparr>ps_InitContainerStatuses := cs\<rparr>))
       | None \<Rightarrow> put status))"

definition MarkFailed :: "string \<Rightarrow> pod \<Rightarrow> string \<Rightarrow> string \<Rightarrow> PodStore \<Rightarrow> pod \<times> PodStore" where
  "MarkFailed uid pd reason message s = (let
     failedPod = pd\<lparr>pod_Status := (pod_Status pd)\<lparr>ps_Phase := PodFailed, ps_Reason := reason, ps_Message := message\<rparr>\<rparr>
   in (failedPod, with_pod_trigger uid (\<lambda>e. e\<lparr>e_pod := failedPod, e_phase := PodFailed\<rparr>) s))"

section \<open>Restart and probe state\<close>

text \<open>\<open>t\<close> and \<open>t'\<close> give the readings of the clock for the two literals of each container.\<close>

definition init_restarts :: "(string \<Rightarrow> gotime) \<Rightarrow> string list \<Rightarrow> string \<rightharpoonup> containerRestartState" where
  "init_restarts t names = map_of (map (\<lambda>n. (n, \<lparr>rs_count = 0, rs_backoff = restartBackoffInit, rs_lastStarted = t n\<rparr>)) (rev names))"

definition init_probes :: "(string \<Rightarrow> gotime) \<Rightarrow> (string \<times> bool) list \<Rightarrow> string \<rightharpoonup> ContainerProbeState" where
  "init_probes t cs = map_of (map (\<lambda>(n, ready). (n, zero_ProbeState\<lparr>StartedAt := t n, pr_Ready := ready\<rparr>)) (rev cs))"

definition store_InitRestartState :: "(string \<Rightarrow> gotime) \<Rightarrow> (string \<Rightarrow> gotime) \<Rightarrow> pod \<Rightarrow> PodStore \<Rightarrow> PodStore" where
  "store_InitRestartState t t' pd s = with_pod (pod_UID pd) (\<lambda>e. e\<lparr>
     e_restarts := init_restarts t (map c_Name (pod_Containers pd)),
     e_probes := Some (init_probes t' (map (\<lambda>c. (c_Name c, c_ReadinessProbe c = None)) (pod_Containers pd)))\<rparr>) s"

definition InitRestartStateFrom :: "(string \<Rightarrow> gotime) \<Rightarrow> (string \<Rightarrow> gotime) \<Rightarrow> string \<Rightarrow> ContainerInitPayload list \<Rightarrow> PodStore \<Rightarrow> PodStore" where
  "InitRestartStateFrom t t' uid containers s = with_pod uid (\<lambda>e. e\<lparr>
     e_restarts := init_restarts t (map ci_Name containers),
     e_probes := Some (init_probes t' (map (\<lambda>c. (ci_Name c, \<not> ci_HasReadinessProbe c)) containers))\<rparr>) s"

definition RestartCounts :: "PodStore \<Rightarrow> string \<Rightarrow> (string \<rightharpoonup> int) option" where
  "RestartCounts s uid = (case getPodState s uid of
     Some e \<Rightarrow> if dom (e_restarts e) = {} then None else Some (\<lambda>c. map_option rs_count (e_restarts e c))
   | None \<Rightarrow> None)"

definition duration_seconds :: "duration \<Rightarrow> rat" where "duration_seconds d = of_int d / of_int Second"

definition RestartBackoffs :: "PodStore \<Rightarrow> string \<Rightarrow> (string \<rightharpoonup> rat) option" where
  "RestartBackoffs s uid = (case getPodState s uid of
     Some e \<Rightarrow> if dom (e_restarts e) = {} then None else Some (\<lambda>c. map_option (\<lambda>r. duration_seconds (rs_backoff r)) (e_restarts e c))
   | None \<Rightarrow> None)"

definition RestartState :: "PodStore \<Rightarrow> string \<Rightarrow> string \<Rightarrow> containerRestartState option" where
  "RestartState s uid containerName = (case getPodState s uid of Some e \<Rightarrow> e_restarts e containerName | None \<Rightarrow> None)"

definition ContainerStartedAt :: "PodStore \<Rightarrow> string \<Rightarrow> string \<Rightarrow> gotime" where
  "ContainerStartedAt s uid containerName = (case RestartState s uid containerName of Some r \<Rightarrow> rs_lastStarted r | None \<Rightarrow> 0)"

definition ProbeState :: "PodStore \<Rightarrow> string \<Rightarrow> string \<Rightarrow> ContainerProbeState option" where
  "ProbeState s uid containerName = (case getPodState s uid of
     Some e \<Rightarrow> (case e_probes e of Some ps \<Rightarrow> ps containerName | None \<Rightarrow> None) | None \<Rightarrow> None)"

definition UpdateProbeState :: "string \<Rightarrow> string \<Rightarrow> (ContainerProbeState \<Rightarrow> ContainerProbeState) \<Rightarrow> PodStore \<Rightarrow> PodStore" where
  "UpdateProbeState uid containerName fn s = with_pod uid (\<lambda>e. e\<lparr>e_probes :=
     map_option (\<lambda>ps. ps(containerName := map_option fn (ps containerName))) (e_probes e)\<rparr>) s"

definition ResetProbeState :: "gotime \<Rightarrow> string \<Rightarrow> string \<Rightarrow> PodStore \<Rightarrow> PodStore" where
  "ResetProbeState now uid containerName s = with_pod uid (\<lambda>e. e\<lparr>e_probes :=
     map_option (\<lambda>ps. ps(containerName \<mapsto> zero_ProbeState\<lparr>StartedAt := now\<rparr>)) (e_probes e)\<rparr>) s"

text \<open>A write through the pointer of a registered container.\<close>

definition update_restart :: "string \<Rightarrow> string \<Rightarrow> (containerRestartState \<Rightarrow> containerRestartState) \<Rightarrow> PodStore \<Rightarrow> PodStore" where
  "update_restart uid containerName f s = with_pod uid (\<lambda>e. e\<lparr>e_restarts :=
     (e_restarts e)(containerName := map_option f (e_restarts e containerName))\<rparr>) s"

definition IncrementRestart :: "gotime \<Rightarrow> string \<Rightarrow> string \<Rightarrow> PodStore \<Rightarrow> PodStore" where
  "IncrementRestart now uid containerName s = update_restart uid containerName
     (\<lambda>r. r\<lparr>rs_count := int32 (rs_count r + 1), rs_lastStarted := now\<rparr>) s"

definition PatchRestartCount :: "string \<Rightarrow> string \<Rightarrow> int \<Rightarrow> PodStore \<Rightarrow> PodStore" where
  "PatchRestartCount uid containerName count s = update_restart uid containerName (rs_count_update (\<lambda>_. count)) s"

definition PatchBackoff :: "string \<Rightarrow> string \<Rightarrow> rat \<Rightarrow> PodStore \<Rightarrow> PodStore" where
  "PatchBackoff uid containerName backoffSec s = update_restart uid containerName
     (rs_backoff_update (\<lambda>_. if 0 \<le> backoffSec then \<lfloor>backoffSec * of_int Second\<rfloor> else \<lceil>backoffSec * of_int Second\<rceil>)) s"

definition bump :: "containerRestartState \<Rightarrow> containerRestartState" where
  "bump r = r\<lparr>rs_count := int32 (rs_count r + 1),
     rs_backoff := (let b = int64 (rs_backoff r * 2) in if maxRestartBackoff < b then maxRestartBackoff else b)\<rparr>"

definition BumpBackoff :: "string \<Rightarrow> string \<Rightarrow> PodStore \<Rightarrow> (int \<times> duration) \<times> PodStore" where
  "BumpBackoff uid containerName s = (case RestartState s uid containerName of
     Some r \<Rightarrow> ((rs_count (bump r), rs_backoff r), update_restart uid containerName bump s)
   | None \<Rightarrow> ((0, 0), s))"

definition MarkRestarted :: "gotime \<Rightarrow> string \<Rightarrow> string \<Rightarrow> PodStore \<Rightarrow> PodStore" where
  "MarkRestarted now uid containerName s = update_restart uid containerName (rs_lastStarted_update (\<lambda>_. now)) s"

definition ResetBackoff :: "string \<Rightarrow> string \<Rightarrow> PodStore \<Rightarrow> PodStore" where
  "ResetBackoff uid containerName s = update_restart uid containerName (rs_backoff_update (\<lambda>_. restartBackoffInit)) s"

section \<open>Hydration\<close>

definition RegisterHydrated :: "string \<Rightarrow> pod \<Rightarrow> string \<Rightarrow> PodStore \<Rightarrow> PodStore" where
  "RegisterHydrated uid pd ip s = triggerSnapshot (add_used (pod_cpu pd) (pod_mem pd)
     (s\<lparr>pods := (pods s)(uid \<mapsto> new_entry pd ip PodRunning True None),
        nameIndex := (nameIndex s)(pod_key pd \<mapsto> uid)\<rparr>))"

record hydratedEntry =
  he_uid :: string
  he_pod :: pod
  he_ip :: string

definition hydrate_entry :: "hydratedEntry \<Rightarrow> PodStore \<times> int \<times> int \<Rightarrow> PodStore \<times> int \<times> int" where
  "hydrate_entry e acc = (case acc of (s, cpu, mem) \<Rightarrow>
     (s\<lparr>pods := (pods s)(he_uid e \<mapsto> new_entry (he_pod e) (he_ip e) PodRunning True None),
        nameIndex := (nameIndex s)(pod_key (he_pod e) \<mapsto> he_uid e)\<rparr>,
      int64 (cpu + pod_cpu (he_pod e)), int64 (mem + pod_mem (he_pod e))))"

definition RegisterHydratedBatch :: "hydratedEntry list \<Rightarrow> PodStore \<Rightarrow> PodStore" where
  "RegisterHydratedBatch entries s = (case fold hydrate_entry entries (s, 0, 0) of
     (s1, totalCPU, totalMem) \<Rightarrow> triggerSnapshot (add_used totalCPU totalMem s1))"

definition HydratedUIDs :: "PodStore \<Rightarrow> string \<Rightarrow> bool" where
  "HydratedUIDs s uid = (case pods s uid of Some e \<Rightarrow> e_hydrated e | None \<Rightarrow> False)"

definition ClearHydrated :: "string \<Rightarrow> PodStore \<Rightarrow> PodStore" where
  "ClearHydrated uid s = with_pod_trigger uid (e_hydrated_update (\<lambda>_. False)) s"

definition purge_entry :: "string \<Rightarrow> PodStore \<times> int \<times> int \<Rightarrow> PodStore \<times> int \<times> int" where
  "purge_entry uid acc = (case acc of (s, cpu, mem) \<Rightarrow> (case pods s uid of
     None \<Rightarrow> (s, cpu, mem)
   | Some e \<Rightarrow> (s\<lparr>nameIndex := (nameIndex s)(pod_key (e_pod e) := None), pods := (pods s)(uid := None)\<rparr>,
       int64 (cpu + pod_cpu (e_pod e)), int64 (mem + pod_mem (e_pod e)))))"

definition PurgeHydrated :: "string list \<Rightarrow> PodStore \<Rightarrow> PodStore" where
  "PurgeHydrated staleUIDs s = (case fold purge_entry staleUIDs (s, 0, 0) of
     (s1, subCPU, subMem) \<Rightarrow> triggerSnapshot (add_used (- subCPU) (- subMem) s1))"

section \<open>Queries\<close>

definition FindPodUID :: "PodStore \<Rightarrow> string \<Rightarrow> string \<Rightarrow> string option" where
  "FindPodUID s namespace podName = nameIndex s (name_key namespace podName)"

definition GetPod :: "PodStore \<Rightarrow> string \<Rightarrow> string \<Rightarrow> pod option" where
  "GetPod s namespace name = (case nameIndex s (name_key namespace name) of
     None \<Rightarrow> None
   | Some uid \<Rightarrow> map_option e_pod (getPodState s uid))"

definition GetPods :: "PodStore \<Rightarrow> string \<rightharpoonup> pod" where
  "GetPods s uid = map_option e_pod (pods s uid)"

definition CompletedPodUID :: "PodStore \<Rightarrow> string \<Rightarrow> string \<Rightarrow> string" where
  "CompletedPodUID s namespace name = (case completed s (name_key namespace name) of Some e \<Rightarrow> ce_uid e | None \<Rightarrow> [])"

definition LoadSnapshot :: "PodStore \<Rightarrow> string \<rightharpoonup> PodSnapshot" where
  "LoadSnapshot s = (case roSnap s of Some m \<Rightarrow> m | None \<Rightarrow> Map.empty)"

record PodEntry =
  pe_Pod :: pod
  pe_Phase :: PodPhase
  pe_PodIP :: string

definition Snapshot :: "PodStore \<Rightarrow> string \<rightharpoonup> PodEntry" where
  "Snapshot s uid = map_option (\<lambda>e. \<lparr>pe_Pod = e_pod e, pe_Phase = e_phase e, pe_PodIP = e_ip e\<rparr>) (pods s uid)"

definition ActiveUIDs :: "PodStore \<Rightarrow> string \<Rightarrow> bool" where
  "ActiveUIDs s uid \<longleftrightarrow> pods s uid \<noteq> None"

section \<open>Admission\<close>

datatype admit_error = HostCPUPressure rat | HostMemoryPressure rat
  | InsufficientCPU int int int | InsufficientMemory int int int

definition psiCPUThreshold :: rat where "psiCPUThreshold = 70"
definition psiMemoryThreshold :: rat where "psiMemoryThreshold = 15"

text \<open>\<open>psi\<close> is what \<open>psi.Read\<close> returned, the ten-second averages of CPU and memory pressure, if it
  could be read; \<open>cpuCap\<close> and \<open>memCap\<close> are the capacities in millicores and bytes. The empty
  message is \<open>None\<close>.\<close>

definition AdmitPod :: "(rat \<times> rat) option \<Rightarrow> PodStore \<Rightarrow> pod \<Rightarrow> int \<Rightarrow> int \<Rightarrow> admit_error option" where
  "AdmitPod psi s pd cpuCap memCap =
    (case (case psi of
        Some (cpu, mem) \<Rightarrow> if psiCPUThreshold < cpu then Some (HostCPUPressure cpu)
          else if psiMemoryThreshold < mem then Some (HostMemoryPressure mem) else None
      | None \<Rightarrow> None) of
       Some err \<Rightarrow> Some err
     | None \<Rightarrow> (case podResources pd of (podCPU, podMem) \<Rightarrow>
         if podCPU = 0 \<and> podMem = 0 then None
         else if 0 < cpuCap \<and> cpuCap < int64 (usedCPU s + podCPU) then Some (InsufficientCPU podCPU (usedCPU s) cpuCap)
         else if 0 < memCap \<and> memCap < int64 (usedMem s + podMem) then Some (InsufficientMemory podMem (usedMem s) memCap)
         else None))"

abbreviation ResourceCPU :: string where "ResourceCPU \<equiv> ''cpu''"
abbreviation ResourceMemory :: string where "ResourceMemory \<equiv> ''memory''"

text \<open>A quantity is its milli value for CPU and its value otherwise; a missing one is zero.\<close>

definition ComputeAllocatable :: "PodStore \<Rightarrow> (string \<rightharpoonup> int) \<Rightarrow> string \<rightharpoonup> int" where
  "ComputeAllocatable s capacity = (let
     cap = (\<lambda>k. case capacity k of Some v \<Rightarrow> v | None \<Rightarrow> 0);
     a1 = (if 0 < usedCPU s
       then capacity(ResourceCPU \<mapsto> (if usedCPU s < cap ResourceCPU then int64 (cap ResourceCPU - usedCPU s) else 0))
       else capacity)
   in if 0 < usedMem s
      then a1(ResourceMemory \<mapsto> (if usedMem s < cap ResourceMemory then int64 (cap ResourceMemory - usedMem s) else 0))
      else a1)"

end
