(* ===== verification/Runtime_Profile.thy ===== *)
theory Runtime_Profile
  imports Complex_Main Api_Types
begin

text \<open>
  What a container is started with: limits, users, the score for the OOM killer and the
  configuration of its machine (the helpers of \<open>node/lifecycle.go\<close>, \<open>PodConfig\<close> and \<open>BindMount\<close> of
  \<open>internal/runtime/interface.go\<close>). Byte counts are \<open>uint64\<close>, hence words of 64 bits. A quantity of a
  resource list is zero exactly if its \<open>Value\<close> or \<open>MilliValue\<close> is, since both round up. Floating
  point numbers are exact rationals; converting one that no \<open>int\<close> can hold gives the smallest \<open>int\<close>,
  as the instruction of amd64 does.
\<close>

section \<open>Limits\<close>

type_synonym uint64 = "64 word"

record containerRuntimeProfile =
  MemoryLimitBytes :: uint64
  SwapLimitBytes :: uint64
  CPULimitMillis :: int
  CPURequestMillis :: int
  RunAsUser :: "int option"
  RunAsGroup :: "int option"
  OOMScoreAdjust :: int

definition calculateSwap :: "uint64 \<Rightarrow> uint64" where
  "calculateSwap memBytes = memBytes * 2"

definition or_zero :: "int option \<Rightarrow> int" where
  "or_zero q = (case q of Some v \<Rightarrow> v | None \<Rightarrow> 0)"

text \<open>A value that is absent or zero falls back to the one of the pod. The pointer to the pod is never nil.\<close>

definition extractResourceLimits :: "pod \<Rightarrow> container \<Rightarrow> uint64 \<times> uint64 \<times> int \<times> int" where
  "extractResourceLimits pd c = (let
     sp = pod_Spec pd;
     mem = (case c_LimitMemory c of Some v \<Rightarrow> word_of_int v | None \<Rightarrow> 0);
     swap = (case c_LimitMemory c of Some v \<Rightarrow> calculateSwap (word_of_int v) | None \<Rightarrow> 0);
     cpuLimit = or_zero (c_LimitCPU c);
     cpuRequest = or_zero (c_RequestCPU c);
     (mem', swap') = (if mem = 0 then (case sp_LimitMemory sp of Some v \<Rightarrow> (word_of_int v, calculateSwap (word_of_int v)) | None \<Rightarrow> (mem, swap))
        else (mem, swap));
     cpuLimit' = (if cpuLimit = 0 then (case sp_LimitCPU sp of Some v \<Rightarrow> v | None \<Rightarrow> cpuLimit) else cpuLimit);
     cpuRequest' = (if cpuRequest = 0 then (case sp_RequestCPU sp of Some v \<Rightarrow> v | None \<Rightarrow> cpuRequest) else cpuRequest)
   in (mem', swap', cpuLimit', cpuRequest'))"

definition effectiveRunAs :: "pod \<Rightarrow> container \<Rightarrow> int option \<times> int option" where
  "effectiveRunAs pd c =
     ((case c_RunAsUser c of Some u \<Rightarrow> Some u | None \<Rightarrow> sp_RunAsUser (pod_Spec pd)),
      (case c_RunAsGroup c of Some g \<Rightarrow> Some g | None \<Rightarrow> sp_RunAsGroup (pod_Spec pd)))"

definition isPrivileged :: "container \<Rightarrow> bool" where
  "isPrivileged c \<longleftrightarrow> c_Privileged c = Some True"

definition podTerminationGracePeriod :: "pod \<Rightarrow> int" where
  "podTerminationGracePeriod pd = (case sp_TerminationGracePeriodSeconds (pod_Spec pd) of Some s \<Rightarrow> s | None \<Rightarrow> 30)"

section \<open>The OOM score\<close>

datatype PodQOSClass = PodQOSBestEffort | PodQOSGuaranteed | PodQOSBurstable

definition guaranteed_container :: "container \<Rightarrow> bool" where
  "guaranteed_container c \<longleftrightarrow>
     \<not> (or_zero (c_RequestMemory c) = 0 \<or> or_zero (c_LimitMemory c) = 0 \<or> or_zero (c_RequestCPU c) = 0 \<or> or_zero (c_LimitCPU c) = 0 \<or>
        or_zero (c_RequestMemory c) \<noteq> or_zero (c_LimitMemory c) \<or> or_zero (c_RequestCPU c) \<noteq> or_zero (c_LimitCPU c))"

definition float_to_int :: "rat \<Rightarrow> int" where
  "float_to_int x = (let n = (if 0 \<le> x then \<lfloor>x\<rfloor> else \<lceil>x\<rceil>) in if in_int64 n then n else - (2 ^ 63))"

definition total_mem_request :: "container list \<Rightarrow> int" where
  "total_mem_request cs = fold (\<lambda>c n. case c_RequestMemory c of Some v \<Rightarrow> int64 (n + v) | None \<Rightarrow> n) cs 0"

definition calculateOOMScore :: "pod \<Rightarrow> int \<Rightarrow> int \<times> PodQOSClass" where
  "calculateOOMScore pd nodeMemoryBytes = (let cs = pod_Containers pd; total = total_mem_request cs in
     if \<not> list_ex c_ResourcesSet cs then (1000, PodQOSBestEffort)
     else if list_all guaranteed_container cs then (-998, PodQOSGuaranteed)
     else if 0 < nodeMemoryBytes \<and> 0 < total
       then (min (max (int64 (2 + float_to_int (1000 * of_int total / of_int nodeMemoryBytes))) 2) 999, PodQOSBurstable)
     else (2, PodQOSBurstable))"

definition profile_of :: "pod \<Rightarrow> int \<Rightarrow> container \<Rightarrow> containerRuntimeProfile" where
  "profile_of pd score c = (case (extractResourceLimits pd c, effectiveRunAs pd c) of
     ((mem, swap, cpuLimit, cpuRequest), (runAsUser, runAsGroup)) \<Rightarrow>
       \<lparr>MemoryLimitBytes = mem, SwapLimitBytes = swap, CPULimitMillis = cpuLimit, CPURequestMillis = cpuRequest,
        RunAsUser = runAsUser, RunAsGroup = runAsGroup, OOMScoreAdjust = score\<rparr>)"

definition buildContainerRuntimeProfiles :: "pod \<Rightarrow> int \<Rightarrow> string \<rightharpoonup> containerRuntimeProfile" where
  "buildContainerRuntimeProfiles pd nodeMemoryBytes = (let score = fst (calculateOOMScore pd nodeMemoryBytes) in
     fold (\<lambda>c m. m(c_Name c \<mapsto> profile_of pd score c)) (pod_InitContainers pd @ pod_Containers pd) Map.empty)"

definition zero_profile :: containerRuntimeProfile where
  "zero_profile = \<lparr>MemoryLimitBytes = 0, SwapLimitBytes = 0, CPULimitMillis = 0, CPURequestMillis = 0,
     RunAsUser = None, RunAsGroup = None, OOMScoreAdjust = 0\<rparr>"

section \<open>The configuration of a machine\<close>

record BindMount =
  bm_HostPath :: string
  bm_ContainerPath :: string
  bm_ReadOnly :: bool
  bm_Propagation :: string

text \<open>The fields from \<open>MemoryLimitBytes\<close> to \<open>OOMScoreAdjust\<close> and the two of the user are copied from the
  profile of the container and kept together.\<close>

record PodConfig =
  pc_Name :: string
  pc_Namespace :: string
  pc_UID :: string
  pc_ContainerName :: string
  pc_Container :: container
  pc_PawnName :: string
  pc_RootFS :: string
  pc_BindMounts :: "BindMount list"
  pc_NetNSPath :: string
  pc_HostNetwork :: bool
  pc_HostPID :: bool
  pc_Privileged :: bool
  pc_Profile :: containerRuntimeProfile
  pc_Environment :: "string list"
  pc_PodIP :: string
  pc_ImageEntrypoint :: "string list"
  pc_ImageCmd :: "string list"
  pc_TerminationGracePeriodSeconds :: int

section \<open>Properties\<close>

lemma int_of_uint64: "0 \<le> v \<Longrightarrow> v < 2 ^ 63 \<Longrightarrow> uint (word_of_int v :: uint64) = v"
  by (simp add: uint_word_of_int)

lemma swap_exact:
  assumes "0 \<le> v" "v < 2 ^ 63"
  shows "uint (calculateSwap (word_of_int v)) = 2 * v"
proof -
  have "calculateSwap (word_of_int v) = word_of_int (v * 2)" by (simp add: calculateSwap_def)
  then have "uint (calculateSwap (word_of_int v)) = v * 2 mod 2 ^ 64" by (simp only: uint_word_of_int) simp
  with assms show ?thesis by simp
qed

lemma word_zero_iff: "0 \<le> v \<Longrightarrow> v < 2 ^ 63 \<Longrightarrow> (word_of_int v :: uint64) = 0 \<longleftrightarrow> v = 0"
  by (metis int_of_uint64 of_int_0 unsigned_0)

lemma fold_update_other: "n \<notin> k ` set cs \<Longrightarrow> fold (\<lambda>c m. m(k c \<mapsto> f c)) cs m0 n = m0 n"
  by (induction cs arbitrary: m0) auto

lemma fold_update_at: "distinct (map k cs) \<Longrightarrow> c \<in> set cs \<Longrightarrow> fold (\<lambda>c m. m(k c \<mapsto> f c)) cs m0 (k c) = Some (f c)"
  by (induction cs arbitrary: m0) (auto simp: fold_update_other)

definition limit_range :: "int option \<Rightarrow> bool" where
  "limit_range q \<longleftrightarrow> (case q of Some v \<Rightarrow> 0 \<le> v \<and> v < 2 ^ 63 | None \<Rightarrow> True)"

lemma extract_memory:
  assumes "limit_range (c_LimitMemory c)" and "limit_range (sp_LimitMemory (pod_Spec pd))"
    and "extractResourceLimits pd c = (mem, swap, l, r)"
  shows "uint mem = (if or_zero (c_LimitMemory c) \<noteq> 0 then or_zero (c_LimitMemory c) else or_zero (sp_LimitMemory (pod_Spec pd)))"
    and "uint swap = 2 * uint mem"
proof -
  consider (own) v where "c_LimitMemory c = Some v" "v \<noteq> 0" | (shared) v where "or_zero (c_LimitMemory c) = 0" "sp_LimitMemory (pod_Spec pd) = Some v"
    | (none) "or_zero (c_LimitMemory c) = 0" "sp_LimitMemory (pod_Spec pd) = None"
    by (cases "c_LimitMemory c"; cases "sp_LimitMemory (pod_Spec pd)"; force simp: or_zero_def)
  then have "uint mem = (if or_zero (c_LimitMemory c) \<noteq> 0 then or_zero (c_LimitMemory c) else or_zero (sp_LimitMemory (pod_Spec pd))) \<and> uint swap = 2 * uint mem"
  proof cases
    case own
    with assms show ?thesis
      by (auto simp: extractResourceLimits_def limit_range_def or_zero_def Let_def word_zero_iff int_of_uint64 swap_exact)
  next
    case shared
    with assms show ?thesis
      by (cases "c_LimitMemory c") (auto simp: extractResourceLimits_def limit_range_def or_zero_def Let_def int_of_uint64 swap_exact)
  next
    case none
    with assms show ?thesis
      by (cases "c_LimitMemory c") (auto simp: extractResourceLimits_def or_zero_def Let_def calculateSwap_def)
  qed
  then show "uint mem = (if or_zero (c_LimitMemory c) \<noteq> 0 then or_zero (c_LimitMemory c) else or_zero (sp_LimitMemory (pod_Spec pd)))"
    and "uint swap = 2 * uint mem" by blast+
qed

lemma score_class:
  assumes "calculateOOMScore pd node = (score, qos)"
  shows "(qos = PodQOSBestEffort \<and> score = 1000 \<and> \<not> list_ex c_ResourcesSet (pod_Containers pd)) \<or>
    (qos = PodQOSGuaranteed \<and> score = -998 \<and> list_ex c_ResourcesSet (pod_Containers pd)) \<or>
    (qos = PodQOSBurstable \<and> 2 \<le> score \<and> score \<le> 999 \<and> list_ex c_ResourcesSet (pod_Containers pd))"
  using assms by (simp add: calculateOOMScore_def Let_def split: if_splits) auto



end
