(* ===== verification/Gambit.thy ===== *)
theory Gambit
  imports Pod_Store Runtime_Profile "HOL-Library.Sublist"
begin

text \<open>
  The provider around the pod store: the state files on disk (\<open>node/podstate.go\<close>), the funnels that
  write them and the tracker methods (\<open>node/gambit.go\<close>), and the recovery after a restart
  (\<open>node/hydration.go\<close>). A state file is the value that was marshalled; \<open>None\<close> stands for a file
  that does not parse. The file is written to a temporary name and renamed, so a failed write
  leaves the old file. Calls to the runtime, the network and the file system whose result only
  goes to the log are recorded as actions. The order of map iterations and the directory listing
  are arguments; \<open>None\<close> as a listing is an error of \<open>os.ReadDir\<close>.
\<close>

section \<open>State\<close>

record PersistedPodState =
  pf_Pod :: "pod option"
  pf_PodIP :: string
  pf_Phase :: PodPhase
  pf_Restarts :: "string \<rightharpoonup> int"
  pf_Backoffs :: "string \<rightharpoonup> rat"

datatype node_action =
    StopMachine string string
  | NetTeardown string string string
  | Unmount string
  | VolumeCleanup string
  | RemoveDir string
  | RequestSync string string
  | NotifyPod pod
  | ResetFailedUnit string string
  | PodEvent string string string string "int list"
  | EmitFact Fact
  | LaunchRestart string string int duration
  | RestartDone string string
  | NetSetup string bool
  | PullImage string string bool
  | MountOverlay string "string list" bool
  | WriteResolvConf string string string
  | RunMachine PodConfig bool
  | AwaitExit string string bool
  | AwaitRunning string string bool
  | ShareMounts string string "BindMount list" bool
  | RunHook string string string bool
  | CheckMachined bool
  | CleanupCSI string
  | CancelSaga string

record gambit =
  g_store :: PodStore
  g_files :: "string \<rightharpoonup> PersistedPodState option"
  g_acts :: "node_action list"

type_synonym listing = "(string \<times> bool) list option"

definition act :: "node_action \<Rightarrow> gambit \<Rightarrow> gambit" where
  "act a g = g\<lparr>g_acts := g_acts g @ [a]\<rparr>"

text \<open>\<open>os.RemoveAll\<close> on a directory below the pods directory; \<open>rm\<close> tells whether it succeeds.\<close>

definition remove_dir :: "(string \<Rightarrow> bool) \<Rightarrow> string \<Rightarrow> gambit \<Rightarrow> gambit" where
  "remove_dir rm name g = act (RemoveDir name) (if rm name then g\<lparr>g_files := (g_files g)(name := None)\<rparr> else g)"

section \<open>State files\<close>

definition writePodState :: "bool \<Rightarrow> pod \<Rightarrow> PersistedPodState \<Rightarrow> gambit \<Rightarrow> gambit" where
  "writePodState ok pd st g = (if ok then g\<lparr>g_files := (g_files g)(pod_UID pd \<mapsto> Some (st\<lparr>pf_Pod := Some pd\<rparr>))\<rparr> else g)"

definition readPodState :: "gambit \<Rightarrow> string \<Rightarrow> PersistedPodState option" where
  "readPodState g uid = (case g_files g uid of Some r \<Rightarrow> r | None \<Rightarrow> None)"

definition deletePodState :: "bool \<Rightarrow> string \<Rightarrow> gambit \<Rightarrow> gambit" where
  "deletePodState ok uid g = (if ok then g\<lparr>g_files := (g_files g)(uid := None)\<rparr> else g)"

text \<open>The valid states in the order of the directory, with the pod they carry.\<close>

definition loadAllPodStates :: "listing \<Rightarrow> gambit \<Rightarrow> (pod \<times> PersistedPodState) list" where
  "loadAllPodStates entries g = (case entries of
     None \<Rightarrow> []
   | Some es \<Rightarrow> concat (map (\<lambda>(name, isDir). if \<not> isDir then [] else
       (case readPodState g name of
          None \<Rightarrow> []
        | Some st \<Rightarrow> (case pf_Pod st of None \<Rightarrow> [] | Some pd \<Rightarrow> [(pd, st)]))) es))"

section \<open>Funnels\<close>

definition persisted :: "gambit \<Rightarrow> pod \<Rightarrow> PodPhase \<Rightarrow> PersistedPodState" where
  "persisted g pd phase = \<lparr>pf_Pod = Some pd, pf_PodIP = PodIP (g_store g) (pod_UID pd), pf_Phase = phase,
     pf_Restarts = (case RestartCounts (g_store g) (pod_UID pd) of Some m \<Rightarrow> m | None \<Rightarrow> Map.empty),
     pf_Backoffs = (case RestartBackoffs (g_store g) (pod_UID pd) of Some m \<Rightarrow> m | None \<Rightarrow> Map.empty)\<rparr>"

definition notifyPodStatus :: "bool \<Rightarrow> pod \<Rightarrow> gambit \<Rightarrow> gambit" where
  "notifyPodStatus ok pd g = (let g1 = act (NotifyPod pd) g in writePodState ok pd (persisted g1 pd (ps_Phase (pod_Status pd))) g1)"

definition PersistPodState :: "bool \<Rightarrow> pod \<Rightarrow> gambit \<Rightarrow> gambit" where
  "PersistPodState ok pd g = writePodState ok pd (persisted g pd (store_PodPhase (g_store g) (pod_UID pd))) g"

definition PersistPodStateByUID :: "bool \<Rightarrow> string \<Rightarrow> gambit \<Rightarrow> gambit" where
  "PersistPodStateByUID ok uid g = (case GetPodCopy (g_store g) uid of None \<Rightarrow> g | Some pd \<Rightarrow> PersistPodState ok pd g)"

section \<open>The tracker\<close>

definition Gambit_IsInFlight :: "gambit \<Rightarrow> string \<Rightarrow> bool" where "Gambit_IsInFlight g = IsInFlight (g_store g)"
definition Gambit_HasPod :: "gambit \<Rightarrow> string \<Rightarrow> bool" where "Gambit_HasPod g = HasPod (g_store g)"
definition Gambit_PodUIDs :: "gambit \<Rightarrow> string \<rightharpoonup> string" where "Gambit_PodUIDs g = PodUIDs (g_store g)"
definition Gambit_GetPodCopy :: "gambit \<Rightarrow> string \<Rightarrow> pod option" where "Gambit_GetPodCopy g = GetPodCopy (g_store g)"

definition Gambit_EvictGhost :: "bool \<Rightarrow> string \<Rightarrow> gambit \<Rightarrow> gambit" where
  "Gambit_EvictGhost ok uid g = deletePodState ok uid (g\<lparr>g_store := EvictGhost uid (g_store g)\<rparr>)"

section \<open>Hydration\<close>

record PodMetadata =
  m_Name :: string
  m_Namespace :: string
  m_UID :: string
  m_PodIP :: string
  m_ContainerName :: string
  m_State :: MachineState
  m_ExitCode :: int

definition terminal_phase :: "PodPhase \<Rightarrow> bool" where
  "terminal_phase phase \<longleftrightarrow> phase = PodSucceeded \<or> phase = PodFailed"

definition hydrated_entry :: "pod \<times> PersistedPodState \<Rightarrow> hydratedEntry" where
  "hydrated_entry x = \<lparr>he_uid = pod_UID (fst x), he_pod = fst x, he_ip = pf_PodIP (snd x)\<rparr>"

text \<open>The loops over the two maps; \<open>names\<close> gives the order of the iteration.\<close>

definition patch_counts :: "string \<Rightarrow> string list \<Rightarrow> (string \<rightharpoonup> int) \<Rightarrow> PodStore \<Rightarrow> PodStore" where
  "patch_counts uid names m s = fold (\<lambda>c s. case m c of Some n \<Rightarrow> PatchRestartCount uid c n s | None \<Rightarrow> s) names s"

definition patch_backoffs :: "string \<Rightarrow> string list \<Rightarrow> (string \<rightharpoonup> rat) \<Rightarrow> PodStore \<Rightarrow> PodStore" where
  "patch_backoffs uid names m s = fold (\<lambda>c s. case m c of Some b \<Rightarrow> PatchBackoff uid c b s | None \<Rightarrow> s) names s"

definition restore_state :: "(string \<Rightarrow> gotime) \<Rightarrow> (string \<Rightarrow> gotime) \<Rightarrow> (string \<Rightarrow> string list) \<Rightarrow> pod \<times> PersistedPodState \<Rightarrow> PodStore \<Rightarrow> PodStore" where
  "restore_state t t' order x s = (let uid = pod_UID (fst x) in
     patch_backoffs uid (order uid) (pf_Backoffs (snd x))
       (patch_counts uid (order uid) (pf_Restarts (snd x)) (store_InitRestartState t t' (fst x) s)))"

definition stub_pod :: "PodMetadata \<Rightarrow> pod" where
  "stub_pod m = \<lparr>pod_UID = m_UID m, pod_Namespace = m_Namespace m, pod_Name = m_Name m, pod_RestartPolicy = [],
     pod_Containers = [], pod_InitContainers = [], pod_Status = empty_status, pod_Spec = empty_spec\<rparr>"

definition hydrate_machine :: "(string \<Rightarrow> gotime) \<Rightarrow> (string \<Rightarrow> gotime) \<Rightarrow> string list \<Rightarrow> PodMetadata \<Rightarrow> PodStore \<Rightarrow> PodStore" where
  "hydrate_machine t t' diskUIDs m s =
     (if m_UID m = [] \<or> m_UID m \<in> set diskUIDs then s
      else if m_Name m \<noteq> [] \<and> m_Namespace m \<noteq> [] then
        store_InitRestartState t t' (stub_pod m) (RegisterHydrated (m_UID m) (stub_pod m) (m_PodIP m) s)
      else s)"

text \<open>Directories may be named after the pod or after a container of it.\<close>

definition overlay_name :: "string \<Rightarrow> bool" where
  "overlay_name name \<longleftrightarrow> 36 < length name \<and> name ! 36 = CHR ''-''"

definition dir_uid :: "string \<Rightarrow> string" where
  "dir_uid name = (if overlay_name name then take 36 name else name)"

definition sweep_dir :: "(string \<Rightarrow> bool) \<Rightarrow> string \<times> bool \<Rightarrow> gambit \<Rightarrow> gambit" where
  "sweep_dir rm e g = (case e of (name, isDir) \<Rightarrow>
     if \<not> isDir \<or> HydratedUIDs (g_store g) (dir_uid name) then g
     else if overlay_name name then act (Unmount name) g else remove_dir rm name g)"

definition HydrateFromRuntime :: "(string \<Rightarrow> gotime) \<Rightarrow> (string \<Rightarrow> gotime) \<Rightarrow> (string \<Rightarrow> string list) \<Rightarrow> (string \<Rightarrow> bool)
    \<Rightarrow> listing \<Rightarrow> PodMetadata list option \<Rightarrow> listing \<Rightarrow> gambit \<Rightarrow> gambit" where
  "HydrateFromRuntime t t' order rm entries machines entries2 g = (let
     states = filter (\<lambda>x. \<not> terminal_phase (pf_Phase (snd x))) (loadAllPodStates entries g);
     s1 = RegisterHydratedBatch (map hydrated_entry states) (g_store g);
     s2 = fold (restore_state t t' order) states s1;
     s3 = fold (hydrate_machine t t' (map (\<lambda>x. pod_UID (fst x)) states)) (case machines of Some ms \<Rightarrow> ms | None \<Rightarrow> []) s2
   in fold (sweep_dir rm) (case entries2 of Some es \<Rightarrow> es | None \<Rightarrow> []) (g\<lparr>g_store := s3\<rparr>))"

text \<open>\<open>k8s\<close> is the listing of the informer: \<open>None\<close> without a lister or on an error. \<open>order\<close> is the
  order in which the hydrated UIDs come.\<close>

definition stale_hydrated :: "pod list option \<Rightarrow> PodStore \<Rightarrow> string \<Rightarrow> bool" where
  "stale_hydrated k8s s uid \<longleftrightarrow>
     \<not> (case GetPodCopy s uid of Some pd \<Rightarrow> pod_Containers pd \<noteq> [] | None \<Rightarrow> False) \<and>
     \<not> (case k8s of Some ps \<Rightarrow> list_ex (\<lambda>p. pod_UID p = uid) ps | None \<Rightarrow> False)"

definition purge_dirs :: "(string \<Rightarrow> bool) \<Rightarrow> listing \<Rightarrow> string \<Rightarrow> gambit \<Rightarrow> gambit" where
  "purge_dirs rm entries uid g = fold (\<lambda>(name, isDir) g. if isDir \<and> prefix (uid @ ''-'') name then act (Unmount name) g else g)
     (case entries of Some es \<Rightarrow> es | None \<Rightarrow> []) (remove_dir rm uid g)"

definition PurgeStaleHydrated :: "(string \<Rightarrow> bool) \<Rightarrow> pod list option \<Rightarrow> listing \<Rightarrow> string list \<Rightarrow> gambit \<Rightarrow> gambit" where
  "PurgeStaleHydrated rm k8s entries order g = (let
     stale = filter (\<lambda>uid. HydratedUIDs (g_store g) uid \<and> stale_hydrated k8s (g_store g) uid) order;
     g1 = (if stale \<noteq> [] then g\<lparr>g_store := PurgeHydrated stale (g_store g)\<rparr> else g)
   in fold (purge_dirs rm entries) stale g1)"

end
