(* ===== verification/Pod_Store_Props.thy ===== *)
theory Pod_Store_Props
  imports Pod_Store
begin

text \<open>
  What the pod store keeps invariant: the counters equal the sums over the registered pods, and
  every entry of the name index points to a registered pod of that name. A step relation lists the
  operations under the conditions their callers establish; two of these conditions are exactly what
  the operations do not check, and the theorems at the end show what happens without them.
\<close>

section \<open>Sums over the registered pods\<close>

definition sum_over :: "(podState \<Rightarrow> int) \<Rightarrow> (string \<rightharpoonup> podState) \<Rightarrow> int" where
  "sum_over f m = (\<Sum>u\<in>dom m. f (the (m u)))"

lemma sum_over_empty [simp]: "sum_over f Map.empty = 0"
  by (simp add: sum_over_def)

lemma sum_over_remove:
  assumes "finite (dom m)" and "m u = Some e"
  shows "sum_over f (m(u := None)) = sum_over f m - f e"
proof -
  have "sum_over f m = f (the (m u)) + (\<Sum>v\<in>dom m - {u}. f (the (m v)))"
    unfolding sum_over_def using assms by (intro sum.remove) auto
  moreover have "sum_over f (m(u := None)) = (\<Sum>v\<in>dom m - {u}. f (the (m v)))"
    unfolding sum_over_def by (rule sum.cong) auto
  ultimately show ?thesis using assms(2) by simp
qed

lemma sum_over_insert:
  assumes "finite (dom m)" and "m u = None"
  shows "sum_over f (m(u \<mapsto> e)) = sum_over f m + f e"
proof -
  have "u \<notin> dom m" using assms(2) by auto
  then have "sum_over f (m(u \<mapsto> e)) = f e + (\<Sum>v\<in>dom m. f (the ((m(u \<mapsto> e)) v)))"
    unfolding sum_over_def using assms(1) by simp
  also have "(\<Sum>v\<in>dom m. f (the ((m(u \<mapsto> e)) v))) = sum_over f m"
    unfolding sum_over_def using \<open>u \<notin> dom m\<close> by (intro sum.cong) auto
  finally show ?thesis by (simp only: add.commute)
qed

lemma sum_over_update:
  assumes "finite (dom m)" and "m u = Some e"
  shows "sum_over f (m(u \<mapsto> e')) = sum_over f m - f e + f e'"
  using sum_over_insert [of "m(u := None)" u f e'] sum_over_remove [OF assms, of f] assms(1) by simp

section \<open>The invariant\<close>

definition deleting_one :: "podState \<Rightarrow> int" where
  "deleting_one e = (if e_deleting e then 1 else 0)"

definition index_ok :: "PodStore \<Rightarrow> bool" where
  "index_ok s \<longleftrightarrow> (\<forall>k u. nameIndex s k = Some u \<longrightarrow> (\<exists>e. pods s u = Some e \<and> pod_key (e_pod e) = k))"

definition store_inv :: "PodStore \<Rightarrow> bool" where
  "store_inv s \<longleftrightarrow> finite (dom (pods s)) \<and>
     usedCPU s = int64 (sum_over (\<lambda>e. pod_cpu (e_pod e)) (pods s)) \<and>
     usedMem s = int64 (sum_over (\<lambda>e. pod_mem (e_pod e)) (pods s)) \<and>
     deletingCount s = int32 (sum_over deleting_one (pods s)) \<and> index_ok s"

lemma store_inv_New: "store_inv NewPodStore"
  by (simp add: store_inv_def NewPodStore_def index_ok_def int64_def int32_def)

lemma trigger_simps [simp]:
  "pods (triggerSnapshot s) = pods s" "usedCPU (triggerSnapshot s) = usedCPU s" "usedMem (triggerSnapshot s) = usedMem s"
  "deletingCount (triggerSnapshot s) = deletingCount s" "nameIndex (triggerSnapshot s) = nameIndex s"
  "completed (triggerSnapshot s) = completed s"
  by (simp_all add: triggerSnapshot_def)

lemma add_used_simps [simp]:
  "pods (add_used c m s) = pods s" "usedCPU (add_used c m s) = int64 (usedCPU s + c)"
  "usedMem (add_used c m s) = int64 (usedMem s + m)" "deletingCount (add_used c m s) = deletingCount s"
  "nameIndex (add_used c m s) = nameIndex s" "completed (add_used c m s) = completed s"
  by (simp_all add: add_used_def)

lemma with_pod_simps [simp]:
  "usedCPU (with_pod u f s) = usedCPU s" "usedMem (with_pod u f s) = usedMem s"
  "deletingCount (with_pod u f s) = deletingCount s" "nameIndex (with_pod u f s) = nameIndex s"
  "completed (with_pod u f s) = completed s"
  by (simp_all add: with_pod_def split: option.split)

lemma pods_with_pod: "pods (with_pod u f s) = (pods s)(u := map_option f (pods s u))"
  by (simp add: with_pod_def fun_upd_idem split: option.split)

lemma store_inv_cong:
  assumes "store_inv s" and "pods s' = pods s" and "usedCPU s' = usedCPU s" and "usedMem s' = usedMem s"
    and "deletingCount s' = deletingCount s" and "nameIndex s' = nameIndex s"
  shows "store_inv s'"
  using assms by (simp add: store_inv_def index_ok_def)

lemma store_inv_trigger [simp]: "store_inv (triggerSnapshot s) = store_inv s"
  by (simp add: store_inv_def index_ok_def)

text \<open>An update of one entry that keeps the name, the requests and the deletion mark.\<close>

lemma store_inv_put:
  assumes "store_inv s" and "pods s u = Some e" and "pod_key (e_pod e') = pod_key (e_pod e)"
    and "podResources (e_pod e') = podResources (e_pod e)" and "e_deleting e' = e_deleting e"
  shows "store_inv (s\<lparr>pods := (pods s)(u \<mapsto> e')\<rparr>)"
proof -
  have fin: "finite (dom (pods s))" using assms(1) by (simp add: store_inv_def)
  have "sum_over f ((pods s)(u \<mapsto> e')) = sum_over f (pods s)" if "f e' = f e" for f
    using sum_over_update [OF fin assms(2), of f e'] that by simp
  then have "sum_over (\<lambda>e. pod_cpu (e_pod e)) ((pods s)(u \<mapsto> e')) = sum_over (\<lambda>e. pod_cpu (e_pod e)) (pods s)"
      "sum_over (\<lambda>e. pod_mem (e_pod e)) ((pods s)(u \<mapsto> e')) = sum_over (\<lambda>e. pod_mem (e_pod e)) (pods s)"
      "sum_over deleting_one ((pods s)(u \<mapsto> e')) = sum_over deleting_one (pods s)"
    using assms(4,5) by (simp_all add: deleting_one_def)
  moreover have "index_ok (s\<lparr>pods := (pods s)(u \<mapsto> e')\<rparr>)"
    using assms(1-3) by (fastforce simp: store_inv_def index_ok_def)
  ultimately show ?thesis using assms(1) by (simp add: store_inv_def)
qed

lemma store_inv_with_pod:
  assumes "store_inv s" and "\<And>e. pods s u = Some e \<Longrightarrow> pod_key (e_pod (f e)) = pod_key (e_pod e) \<and>
      podResources (e_pod (f e)) = podResources (e_pod e) \<and> e_deleting (f e) = e_deleting e"
  shows "store_inv (with_pod u f s)"
proof (cases "pods s u")
  case None
  then show ?thesis using assms(1) by (simp add: with_pod_def)
next
  case (Some e)
  then show ?thesis using store_inv_put [OF assms(1) Some] assms(2) [OF Some] by (simp add: with_pod_def)
qed

lemma store_inv_with_pod_trigger:
  "store_inv (with_pod_trigger u f s) = store_inv (with_pod u f s)"
  by (simp add: with_pod_trigger_def with_pod_def split: option.split)

text \<open>Registering a new UID, and removing an entry with its name.\<close>

definition insert_entry :: "string \<Rightarrow> podState \<Rightarrow> PodStore \<Rightarrow> PodStore" where
  "insert_entry u e s = s\<lparr>pods := (pods s)(u \<mapsto> e), nameIndex := (nameIndex s)(pod_key (e_pod e) \<mapsto> u)\<rparr>"

definition remove_entry :: "string \<Rightarrow> podState \<Rightarrow> PodStore \<Rightarrow> PodStore" where
  "remove_entry u e s = s\<lparr>pods := (pods s)(u := None), nameIndex := (nameIndex s)(pod_key (e_pod e) := None)\<rparr>"

text \<open>The invariant while a batch is under way: the counters lag behind by what is still to be
  added, or are ahead of what is still to be subtracted.\<close>

definition store_inv_diff :: "int \<Rightarrow> int \<Rightarrow> PodStore \<Rightarrow> bool" where
  "store_inv_diff cpu mem s \<longleftrightarrow> finite (dom (pods s)) \<and>
     int64 (usedCPU s + cpu) = int64 (sum_over (\<lambda>e. pod_cpu (e_pod e)) (pods s)) \<and>
     int64 (usedMem s + mem) = int64 (sum_over (\<lambda>e. pod_mem (e_pod e)) (pods s)) \<and>
     deletingCount s = int32 (sum_over deleting_one (pods s)) \<and> index_ok s"

lemma store_inv_diff_0: "store_inv s \<Longrightarrow> store_inv_diff 0 0 s"
  by (simp add: store_inv_diff_def store_inv_def)

lemma store_inv_diff_done: "store_inv_diff cpu mem s \<Longrightarrow> store_inv (add_used cpu mem s)"
  by (simp add: store_inv_diff_def store_inv_def index_ok_def)

lemma index_ok_insert: "index_ok s \<Longrightarrow> pods s u = None \<Longrightarrow> index_ok (insert_entry u e s)"
  by (fastforce simp: index_ok_def insert_entry_def)

lemma index_ok_remove:
  assumes "index_ok s" and "pods s u = Some e"
  shows "index_ok (remove_entry u e s)"
  unfolding index_ok_def
proof (intro allI impI)
  fix k v
  assume k: "nameIndex (remove_entry u e s) k = Some v"
  then have "nameIndex s k = Some v" "k \<noteq> pod_key (e_pod e)" by (auto simp: remove_entry_def split: if_splits)
  then obtain e' where "pods s v = Some e'" "pod_key (e_pod e') = k" using assms(1) by (auto simp: index_ok_def)
  with \<open>k \<noteq> pod_key (e_pod e)\<close> assms(2) show "\<exists>e'. pods (remove_entry u e s) v = Some e' \<and> pod_key (e_pod e') = k"
    by (auto simp: remove_entry_def)
qed

lemma store_inv_diff_insert:
  assumes "store_inv_diff cpu mem s" and "pods s u = None" and "\<not> e_deleting e"
  shows "store_inv_diff (int64 (cpu + pod_cpu (e_pod e))) (int64 (mem + pod_mem (e_pod e))) (insert_entry u e s)"
proof -
  have fin: "finite (dom (pods s))" using assms(1) by (simp add: store_inv_diff_def)
  note t = sum_over_insert [OF fin assms(2)]
  have "int64 (usedCPU s + int64 (cpu + pod_cpu (e_pod e))) = int64 (int64 (usedCPU s + cpu) + pod_cpu (e_pod e))"
      "int64 (usedMem s + int64 (mem + pod_mem (e_pod e))) = int64 (int64 (usedMem s + mem) + pod_mem (e_pod e))"
    by (simp_all add: int64_add_left int64_add_right add.assoc)
  with assms(1,3) index_ok_insert [of s u e] assms(2) show ?thesis
    by (simp add: store_inv_diff_def insert_entry_def t int64_add_left deleting_one_def)
qed

lemma store_inv_diff_remove:
  assumes "store_inv_diff (- cpu) (- mem) s" and "pods s u = Some e" and "\<not> e_deleting e"
  shows "store_inv_diff (- int64 (cpu + pod_cpu (e_pod e))) (- int64 (mem + pod_mem (e_pod e))) (remove_entry u e s)"
proof -
  have fin: "finite (dom (pods s))" using assms(1) by (simp add: store_inv_diff_def)
  note t = sum_over_remove [OF fin assms(2)]
  have "int64 (usedCPU s - int64 (cpu + pod_cpu (e_pod e))) = int64 (int64 (usedCPU s - cpu) - pod_cpu (e_pod e))"
      "int64 (usedMem s - int64 (mem + pod_mem (e_pod e))) = int64 (int64 (usedMem s - mem) - pod_mem (e_pod e))"
    by (simp_all add: diff_diff_eq)
  with assms(1,3) index_ok_remove [OF _ assms(2)] show ?thesis
    by (simp add: store_inv_diff_def remove_entry_def t deleting_one_def)
qed

section \<open>Every operation keeps it\<close>

lemma store_inv_RegisterPending: "store_inv s \<Longrightarrow> pods s u = None \<Longrightarrow> store_inv (RegisterPending u pd h s)"
  using store_inv_diff_done [OF store_inv_diff_insert [OF store_inv_diff_0, of s u "new_entry pd [] PodPending False (Some h)"]]
  by (simp add: RegisterPending_def insert_entry_def new_entry_def add_used_def)

lemma store_inv_RegisterHydrated: "store_inv s \<Longrightarrow> pods s u = None \<Longrightarrow> store_inv (RegisterHydrated u pd ip s)"
  using store_inv_diff_done [OF store_inv_diff_insert [OF store_inv_diff_0, of s u "new_entry pd ip PodRunning True None"]]
  by (simp add: RegisterHydrated_def insert_entry_def new_entry_def add_used_def)

lemma hydrate_entry_insert:
  "hydrate_entry h (s, cpu, mem) = (insert_entry (he_uid h) (new_entry (he_pod h) (he_ip h) PodRunning True None) s,
     int64 (cpu + pod_cpu (he_pod h)), int64 (mem + pod_mem (he_pod h)))"
  by (simp add: hydrate_entry_def insert_entry_def new_entry_def)

lemma store_inv_batch:
  assumes "store_inv_diff cpu mem s" and "distinct (map he_uid hs)" and "list_all (\<lambda>h. pods s (he_uid h) = None) hs"
  shows "case fold hydrate_entry hs (s, cpu, mem) of (s1, c1, m1) \<Rightarrow> store_inv_diff c1 m1 s1"
  using assms
proof (induction hs arbitrary: s cpu mem)
  case (Cons h hs)
  let ?e = "new_entry (he_pod h) (he_ip h) PodRunning True None"
  have "store_inv_diff (int64 (cpu + pod_cpu (he_pod h))) (int64 (mem + pod_mem (he_pod h))) (insert_entry (he_uid h) ?e s)"
    using store_inv_diff_insert [OF Cons.prems(1), of "he_uid h" ?e] Cons.prems(3) by (simp add: new_entry_def)
  moreover have "list_all (\<lambda>g. pods (insert_entry (he_uid h) ?e s) (he_uid g) = None) hs"
    using Cons.prems(2,3) by (auto simp: insert_entry_def list_all_iff) (metis image_eqI)
  ultimately show ?case using Cons.IH Cons.prems(2) by (simp add: hydrate_entry_insert)
qed simp

lemma store_inv_RegisterHydratedBatch:
  assumes "store_inv s" and "distinct (map he_uid hs)" and "list_all (\<lambda>h. pods s (he_uid h) = None) hs"
  shows "store_inv (RegisterHydratedBatch hs s)"
  using store_inv_batch [OF store_inv_diff_0 [OF assms(1)] assms(2,3)]
  by (auto simp: RegisterHydratedBatch_def store_inv_diff_done split: prod.splits)

lemma EvictGhost_remove:
  "pods s u = Some e \<Longrightarrow> EvictGhost u s = triggerSnapshot (add_used (- pod_cpu (e_pod e)) (- pod_mem (e_pod e)) (remove_entry u e s))"
  by (simp add: EvictGhost_def remove_entry_def)

lemma store_inv_EvictGhost:
  assumes "store_inv s" and "\<not> IsDeleting s u"
  shows "store_inv (EvictGhost u s)"
proof (cases "pods s u")
  case (Some e)
  then have "\<not> e_deleting e" using assms(2) by (simp add: IsDeleting_def getPodState_def)
  from store_inv_diff_remove [of 0 0 s u e] Some this store_inv_diff_0 [OF assms(1)]
  have "store_inv_diff (- pod_cpu (e_pod e)) (- pod_mem (e_pod e)) (remove_entry u e s)"
    by (simp add: store_inv_diff_def)
  then show ?thesis using Some by (simp add: EvictGhost_remove store_inv_diff_done)
qed (use assms in \<open>simp add: EvictGhost_def\<close>)

lemma store_inv_purge:
  assumes "store_inv_diff (- cpu) (- mem) s" and "list_all (\<lambda>u. \<not> IsDeleting s u) us"
  shows "case fold purge_entry us (s, cpu, mem) of (s1, c1, m1) \<Rightarrow> store_inv_diff (- c1) (- m1) s1"
  using assms
proof (induction us arbitrary: s cpu mem)
  case (Cons u us)
  show ?case
  proof (cases "pods s u")
    case None
    with Cons show ?thesis by (simp add: purge_entry_def)
  next
    case (Some e)
    then have d: "\<not> e_deleting e" using Cons.prems(2) by (simp add: IsDeleting_def getPodState_def)
    have p: "purge_entry u (s, cpu, mem) = (remove_entry u e s, int64 (cpu + pod_cpu (e_pod e)), int64 (mem + pod_mem (e_pod e)))"
      using Some by (simp add: purge_entry_def remove_entry_def)
    have "list_all (\<lambda>v. \<not> IsDeleting (remove_entry u e s) v) us"
      using Cons.prems(2) by (auto simp: IsDeleting_def getPodState_def remove_entry_def list_all_iff)
    with Cons.IH [OF store_inv_diff_remove [OF Cons.prems(1) Some d]] p show ?thesis by simp
  qed
qed simp

lemma store_inv_PurgeHydrated:
  assumes "store_inv s" and "list_all (\<lambda>u. \<not> IsDeleting s u) us"
  shows "store_inv (PurgeHydrated us s)"
  using store_inv_purge [of 0 0 s us] store_inv_diff_0 [OF assms(1)] assms(2)
  by (auto simp: PurgeHydrated_def store_inv_diff_done split: prod.splits)

lemma podResources_stub: "pod_Containers pd = [] \<Longrightarrow> podResources pd = (0, 0)"
  by (simp add: podResources_def)

lemma store_inv_AlreadyRunning:
  assumes "store_inv s" and "\<And>e. pods s u = Some e \<Longrightarrow> pod_key (e_pod e) = pod_key pd"
  shows "store_inv (snd (AlreadyRunning u pd s))"
proof (cases "pods s u")
  case None
  then show ?thesis using assms(1) by (simp add: AlreadyRunning_def getPodState_def)
next
  case (Some e)
  have fin: "finite (dom (pods s))" using assms(1) by (simp add: store_inv_def)
  show ?thesis
  proof (cases "pod_Containers (e_pod e) = []")
    case True
    let ?e = "e\<lparr>e_pod := pd, e_hydrated := False\<rparr>"
    have t: "sum_over f ((pods s)(u \<mapsto> ?e)) = sum_over f (pods s) - f e + f ?e" for f
      by (rule sum_over_update [OF fin Some])
    have "index_ok (s\<lparr>pods := (pods s)(u \<mapsto> ?e)\<rparr>)"
      using assms Some by (fastforce simp: store_inv_def index_ok_def)
    then have "store_inv ((add_used (pod_cpu pd) (pod_mem pd) s)\<lparr>pods := (pods s)(u \<mapsto> ?e)\<rparr>)"
      using assms(1) fin by (simp add: store_inv_def t podResources_stub [OF True] deleting_one_def index_ok_def)
    then show ?thesis using True Some by (simp add: AlreadyRunning_def getPodState_def Let_def)
  next
    case False
    then show ?thesis using Some store_inv_put [OF assms(1) Some, of "e\<lparr>e_hydrated := False\<rparr>"]
      by (simp add: AlreadyRunning_def getPodState_def Let_def)
  qed
qed

lemma store_inv_MarkDeleting: "store_inv s \<Longrightarrow> store_inv (MarkDeleting u s)"
proof (cases "\<exists>e. pods s u = Some e \<and> \<not> e_deleting e")
  case True
  assume inv: "store_inv s"
  from True obtain e where e: "pods s u = Some e" "\<not> e_deleting e" by blast
  let ?e = "e\<lparr>e_deleting := True\<rparr>"
  have t: "sum_over f ((pods s)(u \<mapsto> ?e)) = sum_over f (pods s) - f e + f ?e" for f
    using inv by (intro sum_over_update e) (simp add: store_inv_def)
  have "index_ok (s\<lparr>pods := (pods s)(u \<mapsto> ?e), deletingCount := n\<rparr>)" for n
    using inv e by (fastforce simp: store_inv_def index_ok_def)
  with inv e show ?thesis by (simp add: MarkDeleting_def getPodState_def with_pod_def store_inv_def t deleting_one_def)
qed (auto simp: MarkDeleting_def getPodState_def split: option.split)

lemma store_inv_Unregister:
  assumes "store_inv s" and "\<And>e. pods s u = Some e \<Longrightarrow> pod_key (e_pod e) = name_key ns n"
  shows "store_inv (Unregister t0 t1 u ns n s)"
proof (cases "pods s u")
  case None
  then show ?thesis
    using store_inv_cong [OF assms(1)] by (simp add: Unregister_def Let_def)
next
  case (Some e)
  have fin: "finite (dom (pods s))" using assms(1) by (simp add: store_inv_def)
  let ?r = "remove_entry u e s"
  have key: "name_key ns n = pod_key (e_pod e)" using assms(2) [OF Some] by simp
  have "index_ok ?r" using index_ok_remove [OF _ Some] assms(1) by (simp add: store_inv_def)
  then have ix: "index_ok (?r\<lparr>completed := c, usedCPU := x, usedMem := y, deletingCount := d, triggerCh := b\<rparr>)" for c x y d b
    by (simp add: index_ok_def)
  show ?thesis
    using assms(1) Some fin key ix
    by (cases "e_deleting e")
      (simp_all add: Unregister_def Let_def store_inv_def sum_over_remove [OF fin Some] deleting_one_def
        remove_entry_def index_ok_def)
qed

lemma podResources_cong: "pod_Containers pd = pod_Containers pd' \<Longrightarrow> podResources pd = podResources pd'"
  by (simp add: podResources_def)

lemma pod_key_cong: "pod_Namespace pd = pod_Namespace pd' \<Longrightarrow> pod_Name pd = pod_Name pd' \<Longrightarrow> pod_key pd = pod_key pd'"
  by (simp add: pod_key_def)

lemma status_update [simp]:
  "podResources (pd\<lparr>pod_Status := st\<rparr>) = podResources pd" "pod_key (pd\<lparr>pod_Status := st\<rparr>) = pod_key pd"
  by (simp_all add: podResources_def pod_key_def)

lemma syncStatusToSpec_sel [simp]:
  "podResources (syncStatusToSpec pd) = podResources pd" "pod_key (syncStatusToSpec pd) = pod_key pd"
  by (simp_all add: syncStatusToSpec_def)

lemma store_inv_SetContainerState: "store_inv s \<Longrightarrow> store_inv (SetContainerState now u c st r s)"
proof (cases "pods s u")
  case (Some e)
  assume inv: "store_inv s"
  have "store_inv (s\<lparr>pods := (pods s)(u \<mapsto> e\<lparr>e_pod := (syncStatusToSpec (e_pod e))\<lparr>pod_Status := x\<rparr>\<rparr>)\<rparr>)" for x
    by (rule store_inv_put [OF inv Some]) simp_all
  moreover have "store_inv (s\<lparr>pods := (pods s)(u \<mapsto> e\<lparr>e_pod := syncStatusToSpec (e_pod e)\<rparr>)\<rparr>)"
    by (rule store_inv_put [OF inv Some]) simp_all
  ultimately show ?thesis using Some by (simp add: SetContainerState_def getPodState_def Let_def split: option.split)
qed (simp add: SetContainerState_def getPodState_def)

text \<open>The operations on one pod that keep its name and its requests.\<close>

inductive pod_step :: "PodStore \<Rightarrow> PodStore \<Rightarrow> bool" where
  ip: "pod_step s (SetPodIP u ip s)"
| phase: "pod_step s (SetPhase u ph s)"
| status: "pod_step s (SetPodStatus u st s)"
| container: "pod_step s (SetContainerState now u c cst r s)"
| clear: "pod_step s (ClearHydrated u s)"
| init: "pod_step s (store_InitRestartState t t' pd s)"
| init_from: "pod_step s (InitRestartStateFrom t t' u cs s)"
| probe: "pod_step s (UpdateProbeState u c fn s)"
| reset_probe: "pod_step s (ResetProbeState now u c s)"
| increment: "pod_step s (IncrementRestart now u c s)"
| patch_count: "pod_step s (PatchRestartCount u c n s)"
| patch_backoff: "pod_step s (PatchBackoff u c q s)"
| bump: "pod_step s (snd (BumpBackoff u c s))"
| restarted: "pod_step s (MarkRestarted now u c s)"
| reset: "pod_step s (ResetBackoff u c s)"
| aggregate: "pod_step s (runSnapshotAggregator s)"

lemmas local_op_defs = SetPodIP_def SetPhase_def setPhase_def SetPodStatus_def ClearHydrated_def
  store_InitRestartState_def InitRestartStateFrom_def UpdateProbeState_def ResetProbeState_def IncrementRestart_def
  PatchRestartCount_def PatchBackoff_def BumpBackoff_def MarkRestarted_def ResetBackoff_def update_restart_def

lemma pod_step_inv: "pod_step s t \<Longrightarrow> store_inv s \<Longrightarrow> store_inv t"
proof (induction rule: pod_step.induct)
  case (container s now u c cst r)
  then show ?case by (rule store_inv_SetContainerState)
next
  case (aggregate s)
  then show ?case by (simp add: runSnapshotAggregator_def store_inv_def index_ok_def)
qed (simp_all add: local_op_defs store_inv_with_pod_trigger store_inv_with_pod Let_def split: option.split)

section \<open>Runs of the store\<close>

text \<open>The remaining operations, with what their callers establish: a UID is registered once, a pod
  is replaced by one of the same name and the same requests, a pod is unregistered under its own
  name, and ghosts and stale pods are not being deleted.\<close>

definition same_pod :: "PodStore \<Rightarrow> string \<Rightarrow> pod \<Rightarrow> bool" where
  "same_pod s u pd \<longleftrightarrow> (\<forall>e. pods s u = Some e \<longrightarrow> pod_key (e_pod e) = pod_key pd \<and> podResources (e_pod e) = podResources pd)"

inductive store_step :: "PodStore \<Rightarrow> PodStore \<Rightarrow> bool" where
  register: "pods s u = None \<Longrightarrow> store_step s (RegisterPending u pd h s)"
| hydrate: "pods s u = None \<Longrightarrow> store_step s (RegisterHydrated u pd ip s)"
| hydrate_batch: "distinct (map he_uid hs) \<Longrightarrow> list_all (\<lambda>h. pods s (he_uid h) = None) hs \<Longrightarrow>
    store_step s (RegisterHydratedBatch hs s)"
| running: "(\<And>e. pods s u = Some e \<Longrightarrow> pod_key (e_pod e) = pod_key pd) \<Longrightarrow> store_step s (snd (AlreadyRunning u pd s))"
| promote: "same_pod s u pd \<Longrightarrow> store_step s (PromoteRunning u pd ip s)"
| fail: "same_pod s u pd \<Longrightarrow> store_step s (snd (MarkFailed u pd reason msg s))"
| deleting: "store_step s (MarkDeleting u s)"
| unregister: "(\<And>e. pods s u = Some e \<Longrightarrow> pod_key (e_pod e) = name_key ns n) \<Longrightarrow> store_step s (Unregister t0 t1 u ns n s)"
| evict: "\<not> IsDeleting s u \<Longrightarrow> store_step s (EvictGhost u s)"
| purge: "list_all (\<lambda>u. \<not> IsDeleting s u) us \<Longrightarrow> store_step s (PurgeHydrated us s)"
| local: "pod_step s t \<Longrightarrow> store_step s t"

lemma store_step_inv: "store_step s t \<Longrightarrow> store_inv s \<Longrightarrow> store_inv t"
proof (induction rule: store_step.induct)
  case (promote s u pd ip)
  then show ?case by (simp add: PromoteRunning_def store_inv_with_pod_trigger store_inv_with_pod same_pod_def)
next
  case (fail s u pd reason msg)
  then show ?case by (simp add: MarkFailed_def Let_def store_inv_with_pod_trigger store_inv_with_pod same_pod_def)
qed (simp_all add: store_inv_RegisterPending store_inv_RegisterHydrated store_inv_RegisterHydratedBatch
    store_inv_AlreadyRunning store_inv_MarkDeleting store_inv_Unregister store_inv_EvictGhost store_inv_PurgeHydrated
    pod_step_inv)

lemma store_run_inv: "store_step\<^sup>*\<^sup>* NewPodStore s \<Longrightarrow> store_inv s"
  by (induction rule: rtranclp_induct) (auto simp: store_inv_New intro: store_step_inv)





section \<open>The snapshot\<close>

text \<open>A pending trigger, or a published snapshot that is the current one.\<close>

definition snap_ok :: "PodStore \<Rightarrow> bool" where
  "snap_ok s \<longleftrightarrow> triggerCh s \<or> LoadSnapshot s = snapshot_of s"

lemma snap_ok_trigger [simp]: "snap_ok (triggerSnapshot s)"
  by (simp add: snap_ok_def triggerSnapshot_def)

lemma snap_ok_same: "snap_ok s \<Longrightarrow> triggerCh t = triggerCh s \<Longrightarrow> roSnap t = roSnap s \<Longrightarrow> snapshot_of t = snapshot_of s \<Longrightarrow> snap_ok t"
  by (simp add: snap_ok_def LoadSnapshot_def)

lemma snap_ok_with_pod_trigger: "snap_ok s \<Longrightarrow> snap_ok (with_pod_trigger u f s)"
  by (simp add: with_pod_trigger_def split: option.split)

definition keeps_summary :: "(podState \<Rightarrow> podState) \<Rightarrow> bool" where
  "keeps_summary f \<longleftrightarrow> (\<forall>e. e_hydrated (f e) = e_hydrated e \<and> e_ip (f e) = e_ip e \<and> e_phase (f e) = e_phase e \<and>
     pod_Name (e_pod (f e)) = pod_Name (e_pod e) \<and> pod_Namespace (e_pod (f e)) = pod_Namespace (e_pod e) \<and>
     pod_Containers (e_pod (f e)) = pod_Containers (e_pod e))"

lemma snapshot_of_put:
  assumes "keeps_summary f" and "pods s u = Some e" and "pods t = (pods s)(u \<mapsto> f e)"
  shows "snapshot_of t = snapshot_of s"
  using assms by (intro ext) (simp add: snapshot_of_def keeps_summary_def)

lemma snap_ok_with_pod:
  assumes "snap_ok s" and "keeps_summary f"
  shows "snap_ok (with_pod u f s)"
proof (cases "pods s u")
  case (Some e)
  then have "snapshot_of (with_pod u f s) = snapshot_of s"
    by (intro snapshot_of_put [OF assms(2) Some]) (simp add: with_pod_def)
  with Some show ?thesis by (intro snap_ok_same [OF assms(1)]) (simp_all add: with_pod_def)
qed (simp add: with_pod_def assms)

lemma snap_ok_SetContainerState:
  assumes "snap_ok s"
  shows "snap_ok (SetContainerState now u c st r s)"
proof (cases "pods s u")
  case (Some e)
  have "snap_ok (s\<lparr>pods := (pods s)(u \<mapsto> e\<lparr>e_pod := syncStatusToSpec (e_pod e)\<rparr>)\<rparr>)"
    using snap_ok_with_pod [OF assms, of "\<lambda>e. e\<lparr>e_pod := syncStatusToSpec (e_pod e)\<rparr>" u] Some
    by (simp add: with_pod_def keeps_summary_def syncStatusToSpec_def)
  with Some show ?thesis by (simp add: SetContainerState_def getPodState_def Let_def split: option.split)
qed (simp add: SetContainerState_def getPodState_def assms)

lemma snap_ok_MarkDeleting:
  assumes "snap_ok s"
  shows "snap_ok (MarkDeleting u s)"
proof -
  have "snap_ok (with_pod u (e_deleting_update (\<lambda>_. True)) s)"
    by (rule snap_ok_with_pod [OF assms]) (simp add: keeps_summary_def)
  then have "snap_ok ((with_pod u (e_deleting_update (\<lambda>_. True)) s)\<lparr>deletingCount := n\<rparr>)" for n
    by (rule snap_ok_same) (simp_all add: snapshot_of_def fun_eq_iff)
  with assms show ?thesis by (simp add: MarkDeleting_def getPodState_def split: option.split)
qed

lemma snap_ok_Unregister: "snap_ok s \<Longrightarrow> snap_ok (Unregister t0 t1 u ns n s)"
proof (cases "pods s u")
  case None
  assume "snap_ok s"
  then show ?thesis
    by (rule snap_ok_same) (simp_all add: Unregister_def None Let_def snapshot_of_def fun_eq_iff)
qed (simp add: Unregister_def Let_def)

lemma pod_step_snap: "pod_step s t \<Longrightarrow> snap_ok s \<Longrightarrow> snap_ok t"
proof (induction rule: pod_step.induct)
  case (container s now u c cst r)
  then show ?case by (rule snap_ok_SetContainerState)
next
  case (aggregate s)
  have "snap_ok (s\<lparr>triggerCh := False, roSnap := Some (snapshot_of s)\<rparr>)"
    by (simp add: snap_ok_def LoadSnapshot_def snapshot_of_def fun_eq_iff)
  with aggregate show ?case by (simp add: runSnapshotAggregator_def)
qed (simp_all add: local_op_defs snap_ok_with_pod_trigger snap_ok_with_pod keeps_summary_def Let_def split: option.split)

lemma snap_ok_New: "snap_ok NewPodStore"
  by (simp add: snap_ok_def NewPodStore_def LoadSnapshot_def snapshot_of_def fun_eq_iff)

lemma store_step_snap: "store_step s t \<Longrightarrow> snap_ok s \<Longrightarrow> snap_ok t"
  by (induction rule: store_step.induct)
    (simp_all add: RegisterPending_def RegisterHydrated_def RegisterHydratedBatch_def AlreadyRunning_def PromoteRunning_def
      MarkFailed_def EvictGhost_def PurgeHydrated_def Let_def snap_ok_with_pod_trigger snap_ok_MarkDeleting
      snap_ok_Unregister pod_step_snap split: option.split prod.split)

text \<open>C17: in every run of the pod store, the snapshot readers load is the summary of the registered
  pods that are not hydrated stubs, unless an aggregation round is pending; a round makes it so. No
  operation changes what the snapshot shows without triggering a round.\<close>

theorem snapshot_current:
  assumes "store_step\<^sup>*\<^sup>* NewPodStore s"
  shows "LoadSnapshot (runSnapshotAggregator s) = snapshot_of s \<and> \<not> triggerCh (runSnapshotAggregator s) \<and>
    (triggerCh s \<or> LoadSnapshot s = snapshot_of s)"
proof -
  have "snap_ok s"
    using assms
    by (induction rule: rtranclp_induct) (auto simp: snap_ok_New intro: store_step_snap)
  then show ?thesis by (auto simp: snap_ok_def runSnapshotAggregator_def LoadSnapshot_def)
qed

theorem snapshot_current_witness:
  "map_option sn_Phase (LoadSnapshot (runSnapshotAggregator (SetPhase ''u1'' PodFailed
     (RegisterPending ''u1'' (sample_pod ''Always'' [''a'']) 0 NewPodStore))) ''u1'') = Some PodFailed"
proof -
  let ?s1 = "RegisterPending ''u1'' (sample_pod ''Always'' [''a'']) 0 NewPodStore"
  have "store_step NewPodStore ?s1" by (rule store_step.register) (simp add: NewPodStore_def)
  moreover have "store_step ?s1 (SetPhase ''u1'' PodFailed ?s1)" by (intro store_step.local pod_step.phase)
  ultimately have "store_step\<^sup>*\<^sup>* NewPodStore (SetPhase ''u1'' PodFailed ?s1)"
    by (meson rtranclp.rtrancl_into_rtrancl rtranclp.rtrancl_refl)
  from snapshot_current [OF this] show ?thesis
    by (simp add: snapshot_of_def SetPhase_def setPhase_def with_pod_trigger_def with_pod_def RegisterPending_def
        new_entry_def triggerSnapshot_def add_used_def)
qed

section \<open>Restart backoff\<close>

abbreviation bump_once :: "string \<Rightarrow> string \<Rightarrow> PodStore \<Rightarrow> PodStore" where
  "bump_once u c s \<equiv> snd (BumpBackoff u c s)"

lemma RestartState_update_restart [simp]:
  "RestartState (update_restart u c f s) u c = map_option f (RestartState s u c)"
  by (simp add: RestartState_def getPodState_def update_restart_def with_pod_def split: option.split)

lemma RestartState_bump_once: "RestartState (bump_once u c s) u c = map_option bump (RestartState s u c)"
  by (simp add: BumpBackoff_def split: option.split)

lemma fst_BumpBackoff:
  "fst (BumpBackoff u c s) = (case RestartState s u c of Some r \<Rightarrow> (rs_count (bump r), rs_backoff r) | None \<Rightarrow> (0, 0))"
  by (simp add: BumpBackoff_def split: option.split)

lemma RestartState_bumps: "RestartState ((bump_once u c ^^ k) s) u c = map_option (bump ^^ k) (RestartState s u c)"
  by (induction k) (simp_all add: RestartState_bump_once option.map_comp comp_def option.map_ident)

lemma bump_backoff_step:
  "0 \<le> b \<Longrightarrow> b \<le> maxRestartBackoff \<Longrightarrow> rs_backoff r = b \<Longrightarrow> rs_backoff (bump r) = min (2 * b) maxRestartBackoff"
  by (simp add: bump_def Let_def maxRestartBackoff_def int64_def min_def)

lemma bumps_backoff:
  assumes "rs_backoff r = restartBackoffInit"
  shows "rs_backoff ((bump ^^ k) r) = min (restartBackoffInit * 2 ^ k) maxRestartBackoff"
proof (induction k)
  case 0
  with assms show ?case by (simp add: restartBackoffInit_def maxRestartBackoff_def)
next
  case (Suc k)
  have "0 \<le> restartBackoffInit" "0 \<le> maxRestartBackoff"
    by (simp_all add: restartBackoffInit_def maxRestartBackoff_def)
  then have "rs_backoff (bump ((bump ^^ k) r)) = min (2 * min (restartBackoffInit * 2 ^ k) maxRestartBackoff) maxRestartBackoff"
    by (intro bump_backoff_step) (simp_all add: Suc)
  with \<open>0 \<le> maxRestartBackoff\<close> show ?case by (simp add: min_def)
qed

lemma bumps_count: "rs_count r = 0 \<Longrightarrow> rs_count ((bump ^^ k) r) = int32 (int k)"
  by (induction k) (simp_all add: bump_def int32_def Let_def mod_simps algebra_simps)

lemma RestartState_InitRestartState:
  assumes "HasPod s (pod_UID pd)" and "c \<in> c_Name ` set (pod_Containers pd)"
  shows "RestartState (store_InitRestartState t t' pd s) (pod_UID pd) c =
    Some \<lparr>rs_count = 0, rs_backoff = restartBackoffInit, rs_lastStarted = t c\<rparr>"
proof -
  let ?r = "\<lparr>rs_count = 0, rs_backoff = restartBackoffInit, rs_lastStarted = t c\<rparr>"
  have "map_of (map (\<lambda>n. (n, \<lparr>rs_count = 0, rs_backoff = restartBackoffInit, rs_lastStarted = t n\<rparr>)) ns) c = Some ?r"
    if "c \<in> set ns" for ns
    using that by (induction ns) auto
  then have "init_restarts t (map c_Name (pod_Containers pd)) c = Some ?r"
    using assms(2) by (simp add: init_restarts_def)
  with assms(1) show ?thesis
    by (auto simp: store_InitRestartState_def RestartState_def getPodState_def with_pod_def HasPod_def)
qed

text \<open>After \<open>InitRestartState\<close> the k-th bump of a container of the pod returns the restart count
  k and the delay of 10 s doubled k - 1 times, at most 5 min.\<close>

lemma backoff_sequence:
  assumes "HasPod s (pod_UID pd)" and "c \<in> c_Name ` set (pod_Containers pd)" and "k < 2147483647"
  shows "fst (BumpBackoff (pod_UID pd) c ((bump_once (pod_UID pd) c ^^ k) (store_InitRestartState t t' pd s))) =
    (int k + 1, min (10 * Second * 2 ^ k) (5 * Minute))"
proof -
  let ?r = "\<lparr>rs_count = 0, rs_backoff = restartBackoffInit, rs_lastStarted = t c\<rparr>"
  from assms(1,2) have "RestartState (store_InitRestartState t t' pd s) (pod_UID pd) c = Some ?r"
    by (rule RestartState_InitRestartState)
  moreover have "rs_count (bump ((bump ^^ k) ?r)) = int k + 1"
    using bumps_count [of ?r "Suc k"] assms(3) by (simp add: int32_def add.commute)
  moreover have "rs_backoff ((bump ^^ k) ?r) = min (10 * Second * 2 ^ k) (5 * Minute)"
    using bumps_backoff [of ?r k] by (simp add: restartBackoffInit_def maxRestartBackoff_def)
  ultimately show ?thesis by (simp add: fst_BumpBackoff RestartState_bumps)
qed

theorem backoff_sequence_witness:
  "fst (BumpBackoff ''u1'' ''a'' ((bump_once ''u1'' ''a'' ^^ 2) (store_InitRestartState (\<lambda>_. 0) (\<lambda>_. 0)
     (sample_pod ''Always'' [''a'']) (RegisterPending ''u1'' (sample_pod ''Always'' [''a'']) 0 NewPodStore)))) = (3, 40 * Second)"
proof -
  let ?pd = "sample_pod ''Always'' [''a'']"
  have uid: "pod_UID ?pd = ''u1''" by (simp add: sample_pod_def)
  have "HasPod (RegisterPending ''u1'' ?pd 0 NewPodStore) (pod_UID ?pd)" "''a'' \<in> c_Name ` set (pod_Containers ?pd)"
    by (simp_all add: HasPod_def getPodState_def RegisterPending_def triggerSnapshot_def add_used_def sample_pod_def
        sample_container_def)
  from backoff_sequence [OF this, of 2 "\<lambda>_. 0" "\<lambda>_. 0"] show ?thesis unfolding uid by simp
qed

section \<open>Container statuses\<close>

text \<open>The status a reader finds for a name: the first one.\<close>

abbreviation first_status :: "string \<Rightarrow> container_status list \<Rightarrow> container_status option" where
  "first_status n \<equiv> find (\<lambda>st. s_Name st = n)"

lemma status_named_None: "status_named n sts = None \<longleftrightarrow> n \<notin> s_Name ` set sts"
  by (auto simp: status_named_def find_None_iff)

lemma status_named_name: "status_named n sts = Some st \<Longrightarrow> s_Name st = n"
  by (auto simp: status_named_def find_Some_iff)

lemma syncSlice_covers:
  assumes "n \<in> c_Name ` set spec"
  shows "n \<in> s_Name ` set (syncSlice spec sts)"
proof (cases "list_all (\<lambda>c. status_named (c_Name c) sts \<noteq> None) spec")
  case True
  with assms show ?thesis by (auto simp: syncSlice_def list_all_iff status_named_None)
next
  case False
  let ?f = "\<lambda>c. case status_named (c_Name c) sts of Some st \<Rightarrow> st | None \<Rightarrow> new_status (c_Name c)"
  have name: "s_Name (?f c) = c_Name c" for c
    by (simp add: new_status_def status_named_name split: option.split)
  from assms obtain c where c: "c \<in> set spec" "n = c_Name c" by (rule imageE)
  with False have "syncSlice spec sts = map ?f spec" by (auto simp: syncSlice_def)
  then have "?f c \<in> set (syncSlice spec sts)" using c by simp
  with name [of c] c(2) show ?thesis by (metis image_eqI)
qed

lemma update_named_hit:
  "n \<in> s_Name ` set sts \<Longrightarrow> \<exists>cs st. update_named n state ready sts = Some cs \<and> first_status n sts = Some st \<and>
     first_status n cs = Some (st\<lparr>s_State := state, s_Ready := ready\<rparr>) \<and>
     map s_Name cs = map s_Name sts \<and> (\<forall>m. m \<noteq> n \<longrightarrow> first_status m cs = first_status m sts)"
proof (induction sts)
  case (Cons a sts)
  show ?case
  proof (cases "s_Name a = n")
    case False
    with Cons obtain cs st where ih: "update_named n state ready sts = Some cs" "first_status n sts = Some st"
      "first_status n cs = Some (st\<lparr>s_State := state, s_Ready := ready\<rparr>)" "map s_Name cs = map s_Name sts"
      "\<forall>m. m \<noteq> n \<longrightarrow> first_status m cs = first_status m sts" by auto
    with False show ?thesis by (intro exI [of _ "a # cs"] exI [of _ st]) simp
  qed simp
qed simp

text \<open>Recording the state of a container named in the spec changes the state and the readiness
  of the status of that container and of no other; the missing statuses of the spec's containers are
  there afterwards, other pods are as before, and a snapshot round is due.\<close>

lemma container_state_recorded:
  assumes "pods s u = Some e" and "c \<in> c_Name ` set (pod_Containers (e_pod e))"
    and "sts = syncSlice (pod_Containers (e_pod e)) (ps_ContainerStatuses (pod_Status (e_pod e)))"
  shows "\<exists>e' st. pods (SetContainerState now u c state ready s) = (pods s)(u \<mapsto> e') \<and>
    triggerCh (SetContainerState now u c state ready s) \<and>
    first_status c sts = Some st \<and>
    first_status c (ps_ContainerStatuses (pod_Status (e_pod e'))) =
      Some (st\<lparr>s_State := enrich_state now (e_restarts e c) state, s_Ready := ready\<rparr>) \<and>
    (\<forall>n. n \<noteq> c \<longrightarrow> first_status n (ps_ContainerStatuses (pod_Status (e_pod e'))) = first_status n sts) \<and>
    c_Name ` set (pod_Containers (e_pod e)) \<subseteq> s_Name ` set (ps_ContainerStatuses (pod_Status (e_pod e')))"
proof -
  let ?state = "enrich_state now (e_restarts e c) state"
  have cov: "n \<in> s_Name ` set sts" if "n \<in> c_Name ` set (pod_Containers (e_pod e))" for n
    unfolding assms(3) using that by (rule syncSlice_covers)
  obtain cs st where upd: "update_named c ?state ready sts = Some cs" "first_status c sts = Some st"
    "first_status c cs = Some (st\<lparr>s_State := ?state, s_Ready := ready\<rparr>)" "map s_Name cs = map s_Name sts"
    "\<forall>m. m \<noteq> c \<longrightarrow> first_status m cs = first_status m sts"
    using update_named_hit [OF cov [OF assms(2)], of ?state ready] by blast
  let ?pd = "syncStatusToSpec (e_pod e)"
  let ?e' = "e\<lparr>e_pod := ?pd\<lparr>pod_Status := (pod_Status ?pd)\<lparr>ps_ContainerStatuses := cs\<rparr>\<rparr>\<rparr>"
  have "ps_ContainerStatuses (pod_Status ?pd) = sts" by (simp add: syncStatusToSpec_def assms(3))
  then have "SetContainerState now u c state ready s = triggerSnapshot (s\<lparr>pods := (pods s)(u \<mapsto> ?e')\<rparr>)"
    using assms(1) upd(1) by (simp add: SetContainerState_def getPodState_def Let_def)
  moreover have "s_Name ` set cs = s_Name ` set sts" using upd(4) by (metis set_map)
  ultimately show ?thesis
    using upd cov by (intro exI [of _ ?e'] exI [of _ st]) (auto simp: triggerSnapshot_def)
qed

theorem container_state_recorded_witness:
  "\<exists>e'. pods (SetContainerState 7 ''u1'' ''a'' \<lparr>Waiting = None, Running = Some 5, Terminated = None\<rparr> True
      (RegisterPending ''u1'' (sample_pod ''Always'' [''a'', ''b'']) 0 NewPodStore)) ''u1'' = Some e' \<and>
    map_option s_Ready (first_status ''a'' (ps_ContainerStatuses (pod_Status (e_pod e')))) = Some True"
proof -
  let ?pd = "sample_pod ''Always'' [''a'', ''b'']"
  let ?s = "RegisterPending ''u1'' ?pd 0 NewPodStore"
  let ?e = "new_entry ?pd [] PodPending False (Some 0)"
  have "pods ?s ''u1'' = Some ?e" "''a'' \<in> c_Name ` set (pod_Containers (e_pod ?e))"
    by (simp_all add: RegisterPending_def triggerSnapshot_def add_used_def new_entry_def sample_pod_def sample_container_def)
  from container_state_recorded [OF this refl, of 7 "\<lparr>Waiting = None, Running = Some 5, Terminated = None\<rparr>" True]
  obtain e' st where "pods (SetContainerState 7 ''u1'' ''a'' \<lparr>Waiting = None, Running = Some 5, Terminated = None\<rparr> True ?s)
      = (pods ?s)(''u1'' \<mapsto> e')"
    "first_status ''a'' (ps_ContainerStatuses (pod_Status (e_pod e'))) =
      Some (st\<lparr>s_State := enrich_state 7 (e_restarts ?e ''a'') \<lparr>Waiting = None, Running = Some 5, Terminated = None\<rparr>, s_Ready := True\<rparr>)"
    by blast
  then show ?thesis by simp
qed

section \<open>Outside the callers' discipline\<close>

lemmas store_run_simps = RegisterPending_def MarkDeleting_def EvictGhost_def Unregister_def PurgeHydrated_def
  triggerSnapshot_def add_used_def new_entry_def NewPodStore_def getPodState_def with_pod_def Let_def

text \<open>A ghost that is being deleted leaves the deletion counter up for good.\<close>

lemma evict_leaks_deletion:
  "pods (EvictGhost u (MarkDeleting u (RegisterPending u pd h NewPodStore))) = Map.empty \<and>
   DeletionsInProgress (EvictGhost u (MarkDeleting u (RegisterPending u pd h NewPodStore)))"
  by (simp add: store_run_simps DeletionsInProgress_def int32_def fun_eq_iff)

text \<open>Unregistering a pod whose name has a new UID by then hides the new pod.\<close>

lemma unregister_hides_successor:
  assumes "u \<noteq> v" and "pod_key pd = pod_key pd'"
  shows "let s = Unregister t0 t1 u (pod_Namespace pd) (pod_Name pd)
      (RegisterPending v pd' h' (RegisterPending u pd h NewPodStore))
    in HasPod s v \<and> GetPod s (pod_Namespace pd') (pod_Name pd') = None"
  using assms by (simp add: store_run_simps HasPod_def GetPod_def pod_key_def)

text \<open>A UID that is registered twice is counted twice.\<close>

lemma register_twice_counts_twice:
  "usedCPU (RegisterPending u pd h' (RegisterPending u pd h NewPodStore)) = int64 (2 * pod_cpu pd) \<and>
   dom (pods (RegisterPending u pd h' (RegisterPending u pd h NewPodStore))) = {u}"
  by (simp add: store_run_simps int64_def mod_simps algebra_simps)

end
