(* ===== verification/Gambit_Props.thy ===== *)
theory Gambit_Props
  imports Gambit Pod_Store_Props
begin

text \<open>
  State files and recovery: what a pod's file holds comes back into the store after a restart, and
  hydration registers exactly the pods of the files and of the running units.
\<close>

section \<open>Files\<close>

text \<open>A file lies in the directory of the pod it describes.\<close>

definition files_ok :: "gambit \<Rightarrow> bool" where
  "files_ok g \<longleftrightarrow> (\<forall>v st pd. g_files g v = Some (Some st) \<longrightarrow> pf_Pod st = Some pd \<longrightarrow> pod_UID pd = v)"

lemma files_ok_ops:
  assumes "files_ok g"
  shows "files_ok (writePodState ok pd st g)" "files_ok (deletePodState ok u g)" "files_ok (remove_dir rm n g)"
    "files_ok (notifyPodStatus ok pd g)" "files_ok (PersistPodStateByUID ok u g)" "files_ok (Gambit_EvictGhost ok u g)"
  using assms
  by (auto simp: files_ok_def writePodState_def deletePodState_def remove_dir_def act_def notifyPodStatus_def Let_def
      PersistPodStateByUID_def PersistPodState_def Gambit_EvictGhost_def split: option.split)

lemma loadAll_mem:
  "(pd, st) \<in> set (loadAllPodStates (Some es) g) \<longleftrightarrow> (\<exists>n. (n, True) \<in> set es \<and> readPodState g n = Some st \<and> pf_Pod st = Some pd)"
proof -
  have "(pd, st) \<in> set (if \<not> isDir then [] else case readPodState g n of None \<Rightarrow> []
      | Some st \<Rightarrow> (case pf_Pod st of None \<Rightarrow> [] | Some pd \<Rightarrow> [(pd, st)])) \<longleftrightarrow>
    isDir \<and> readPodState g n = Some st \<and> pf_Pod st = Some pd" for n isDir
    by (cases "readPodState g n"; cases "pf_Pod (the (readPodState g n))") auto
  then have "(pd, st) \<in> set (loadAllPodStates (Some es) g) \<longleftrightarrow>
      (\<exists>x\<in>set es. snd x \<and> readPodState g (fst x) = Some st \<and> pf_Pod st = Some pd)"
    unfolding loadAllPodStates_def option.case set_concat set_map UN_iff image_image split_beta by simp
  moreover have "\<dots> \<longleftrightarrow> (\<exists>n. (n, True) \<in> set es \<and> readPodState g n = Some st \<and> pf_Pod st = Some pd)"
    by (simp add: Bex_def) metis
  ultimately show ?thesis by simp
qed

lemma loadAll_uid:
  assumes "files_ok g" and "(pd, st) \<in> set (loadAllPodStates (Some es) g)"
  shows "(pod_UID pd, True) \<in> set es \<and> g_files g (pod_UID pd) = Some (Some st)"
proof -
  from assms(2) obtain n where n: "(n, True) \<in> set es" "readPodState g n = Some st" "pf_Pod st = Some pd"
    by (auto simp: loadAll_mem)
  then have "g_files g n = Some (Some st)" by (auto simp: readPodState_def split: option.splits)
  with assms(1) n show ?thesis by (auto simp: files_ok_def)
qed

section \<open>Restart state and registration\<close>

lemma dom_with_pod [simp]: "dom (pods (with_pod u f s)) = dom (pods s)"
  by (auto simp: with_pod_def split: option.splits)

lemma pods_with_pod_other [simp]: "v \<noteq> u \<Longrightarrow> pods (with_pod u f s) v = pods s v"
  by (simp add: with_pod_def split: option.split)

lemma HasPod_dom: "HasPod s u \<longleftrightarrow> u \<in> dom (pods s)"
  by (auto simp: HasPod_def getPodState_def)

lemma RestartState_update_other [simp]: "c' \<noteq> c \<Longrightarrow> RestartState (update_restart u c f s) u c' = RestartState s u c'"
  by (simp add: RestartState_def getPodState_def update_restart_def with_pod_def split: option.split)

lemma RestartState_update:
  "RestartState (update_restart u a f s) u c = (if c = a then map_option f (RestartState s u c) else RestartState s u c)"
  by simp

lemma RestartState_fold_update:
  assumes idem: "\<And>b r. F b (F b r) = F b r"
  shows "RestartState (fold (\<lambda>c s. case m c of Some b \<Rightarrow> update_restart u c (F b) s | None \<Rightarrow> s) names s) u c =
    (if c \<in> set names then (case m c of Some b \<Rightarrow> map_option (F b) (RestartState s u c) | None \<Rightarrow> RestartState s u c)
     else RestartState s u c)"
proof (induction names arbitrary: s)
  case (Cons a names)
  show ?case
  proof (cases "m a")
    case (Some b)
    show ?thesis
    proof (cases "c = a")
      case True
      with Some Cons show ?thesis by (simp add: option.map_comp comp_def idem)
    next
      case False
      with Some Cons show ?thesis by (simp split: option.split)
    qed
  next
    case None
    with Cons show ?thesis by (auto split: option.split)
  qed
qed simp

lemma RestartState_patch_counts:
  "RestartState (patch_counts u names m s) u c =
    (if c \<in> set names then (case m c of Some n \<Rightarrow> map_option (rs_count_update (\<lambda>_. n)) (RestartState s u c) | None \<Rightarrow> RestartState s u c)
     else RestartState s u c)"
  unfolding patch_counts_def PatchRestartCount_def by (rule RestartState_fold_update) simp

lemma RestartState_patch_backoffs:
  "RestartState (patch_backoffs u names m s) u c =
    (if c \<in> set names then (case m c of
       Some b \<Rightarrow> map_option (rs_backoff_update (\<lambda>_. if 0 \<le> b then \<lfloor>b * of_int Second\<rfloor> else \<lceil>b * of_int Second\<rceil>)) (RestartState s u c)
     | None \<Rightarrow> RestartState s u c)
     else RestartState s u c)"
  unfolding patch_backoffs_def PatchBackoff_def by (rule RestartState_fold_update) simp

text \<open>What restoring a state leaves of an entry.\<close>

definition same_entries :: "PodStore \<Rightarrow> PodStore \<Rightarrow> bool" where
  "same_entries s t \<longleftrightarrow> (\<forall>u. map_option (\<lambda>e. (e_pod e, e_ip e, e_hydrated e)) (pods s u) = map_option (\<lambda>e. (e_pod e, e_ip e, e_hydrated e)) (pods t u))"

lemma same_entries_trans: "same_entries s t \<Longrightarrow> same_entries t v \<Longrightarrow> same_entries s v"
  by (simp add: same_entries_def)

lemma same_entries_with_pod:
  "(\<And>e. e_pod (f e) = e_pod e \<and> e_ip (f e) = e_ip e \<and> e_hydrated (f e) = e_hydrated e) \<Longrightarrow> same_entries s (with_pod u f s)"
  by (simp add: same_entries_def with_pod_def split: option.split)

lemma same_entries_patch_counts: "same_entries s (patch_counts u names m s)"
proof (induction names arbitrary: s)
  case (Cons c names)
  have "same_entries s (case m c of Some n \<Rightarrow> PatchRestartCount u c n s | None \<Rightarrow> s)"
    by (simp add: PatchRestartCount_def update_restart_def same_entries_with_pod same_entries_def [of s s] split: option.split)
  from same_entries_trans [OF this Cons] show ?case by (simp add: patch_counts_def)
qed (simp add: patch_counts_def same_entries_def)

lemma same_entries_patch_backoffs: "same_entries s (patch_backoffs u names m s)"
proof (induction names arbitrary: s)
  case (Cons c names)
  have "same_entries s (case m c of Some n \<Rightarrow> PatchBackoff u c n s | None \<Rightarrow> s)"
    by (simp add: PatchBackoff_def update_restart_def same_entries_with_pod same_entries_def [of s s] split: option.split)
  from same_entries_trans [OF this Cons] show ?case by (simp add: patch_backoffs_def)
qed (simp add: patch_backoffs_def same_entries_def)

lemma same_entries_restore: "same_entries s (restore_state t t' order x s)"
proof -
  have "same_entries s (store_InitRestartState t t' (fst x) s)"
    by (simp add: store_InitRestartState_def same_entries_with_pod)
  then show ?thesis
    unfolding restore_state_def Let_def
    by (rule same_entries_trans [OF same_entries_trans [OF _ same_entries_patch_counts] same_entries_patch_backoffs])
qed

lemma same_entries_fold_restore: "same_entries s (fold (restore_state t t' order) xs s)"
proof (induction xs arbitrary: s)
  case (Cons x xs)
  from same_entries_trans [OF same_entries_restore Cons] show ?case by simp
qed (simp add: same_entries_def)

lemma same_entries_None: "same_entries s t \<Longrightarrow> pods t u = None \<longleftrightarrow> pods s u = None"
  unfolding same_entries_def by (cases "pods s u"; cases "pods t u"; erule allE [of _ u]) simp_all

lemma same_entries_dom: "same_entries s t \<Longrightarrow> dom (pods t) = dom (pods s)"
  by (simp add: dom_def same_entries_None)

lemma RestartState_patch_other:
  "v \<noteq> u \<Longrightarrow> pods (patch_counts u names m s) v = pods s v"
  "v \<noteq> u \<Longrightarrow> pods (patch_backoffs u names m' s) v = pods s v"
  unfolding patch_counts_def patch_backoffs_def
  by (induction names arbitrary: s)
    (auto simp: PatchRestartCount_def PatchBackoff_def update_restart_def split: option.split)

lemma restore_other: "v \<noteq> pod_UID (fst x) \<Longrightarrow> pods (restore_state t t' order x s) v = pods s v"
  by (simp add: restore_state_def Let_def RestartState_patch_other store_InitRestartState_def)

lemma fold_restore_other: "\<forall>x\<in>set xs. pod_UID (fst x) \<noteq> v \<Longrightarrow> pods (fold (restore_state t t' order) xs s) v = pods s v"
  by (induction xs arbitrary: s) (auto simp: restore_other)

lemma fold_hydrate_pods:
  "pods (fst (fold hydrate_entry hs acc)) u = (case map_of (rev (map (\<lambda>h. (he_uid h, h)) hs)) u of
     Some h \<Rightarrow> Some (new_entry (he_pod h) (he_ip h) PodRunning True None) | None \<Rightarrow> pods (fst acc) u)"
  by (induction hs rule: rev_induct) (simp_all add: hydrate_entry_def split_beta)

lemma pods_RegisterHydratedBatch:
  "pods (RegisterHydratedBatch hs s) u = (case map_of (rev (map (\<lambda>h. (he_uid h, h)) hs)) u of
     Some h \<Rightarrow> Some (new_entry (he_pod h) (he_ip h) PodRunning True None) | None \<Rightarrow> pods s u)"
  by (simp add: RegisterHydratedBatch_def split_beta triggerSnapshot_def add_used_def fold_hydrate_pods split: option.split)

lemma sweep_store [simp]: "g_store (fold (sweep_dir rm) es g) = g_store g"
  by (induction es arbitrary: g) (simp_all add: sweep_dir_def remove_dir_def act_def split_beta)

lemma hydrate_machine_other: "u \<in> set ds \<Longrightarrow> pods (hydrate_machine t t' ds m s) u = pods s u"
  by (cases "u = m_UID m") (simp_all add: hydrate_machine_def store_InitRestartState_def stub_pod_def RegisterHydrated_def triggerSnapshot_def add_used_def)

lemma fold_hydrate_machine_other: "u \<in> set ds \<Longrightarrow> pods (fold (hydrate_machine t t' ds) ms s) u = pods s u"
  by (induction ms arbitrary: s) (simp_all add: hydrate_machine_other)

section \<open>What comes back after a restart\<close>

lemma RestartState_cong: "pods s u = pods s' u \<Longrightarrow> RestartState s u c = RestartState s' u c"
  by (simp add: RestartState_def getPodState_def)

lemma RestartState_restore:
  assumes "HasPod s u" and "pod_UID pd = u" and "c \<in> c_Name ` set (pod_Containers pd)" and "c \<in> set (order u)"
    and "pf_Restarts st c = Some n" and "pf_Backoffs st c = Some (duration_seconds b)"
  shows "RestartState (restore_state t t' order (pd, st) s) u c = Some \<lparr>rs_count = n, rs_backoff = b, rs_lastStarted = t c\<rparr>"
proof -
  have "RestartState (store_InitRestartState t t' pd s) u c = Some \<lparr>rs_count = 0, rs_backoff = restartBackoffInit, rs_lastStarted = t c\<rparr>"
    using RestartState_InitRestartState [of s pd c t t'] assms(1-3) by simp
  moreover have "duration_seconds b * of_int Second = of_int b" by (simp add: duration_seconds_def)
  ultimately show ?thesis
    using assms(2,4-6) by (simp add: restore_state_def Let_def RestartState_patch_counts RestartState_patch_backoffs)
qed

lemma loadAll_uids:
  assumes "files_ok g"
  shows "\<exists>P. map (\<lambda>x. pod_UID (fst x)) (loadAllPodStates (Some es) g) = map fst (filter P es)"
proof -
  define P where "P x \<longleftrightarrow> snd x \<and> (case readPodState g (fst x) of None \<Rightarrow> False | Some st \<Rightarrow> pf_Pod st \<noteq> None)" for x
  have uid: "pod_UID pd = n" if "readPodState g n = Some st" "pf_Pod st = Some pd" for n st pd
    using assms that by (auto simp: files_ok_def readPodState_def split: option.splits)
  have "map (\<lambda>x. pod_UID (fst x)) (loadAllPodStates (Some es) g) = map fst (filter P es)"
    by (induction es) (auto simp: loadAllPodStates_def P_def uid split: option.split)
  then show ?thesis by blast
qed

lemma distinct_loaded:
  assumes "files_ok g" and "distinct (map fst es)"
  shows "distinct (map (\<lambda>x. pod_UID (fst x)) (filter Q (loadAllPodStates (Some es) g)))"
proof -
  obtain P where "map (\<lambda>x. pod_UID (fst x)) (loadAllPodStates (Some es) g) = map fst (filter P es)"
    using loadAll_uids [OF assms(1)] by blast
  then have "distinct (map (\<lambda>x. pod_UID (fst x)) (loadAllPodStates (Some es) g))"
    using assms(2) by (simp add: distinct_map_filter)
  then show ?thesis by (rule distinct_map_filter)
qed

text \<open>The store after the states of a directory have been restored, at a pod among them.\<close>

lemma restored_entry:
  assumes "distinct (map (\<lambda>x. pod_UID (fst x)) xs)" and "x \<in> set xs" and "u = pod_UID (fst x)"
    and "s = fold (restore_state t t' order) xs (RegisterHydratedBatch (map hydrated_entry xs) s0)"
  shows "\<exists>s1. HasPod s1 u \<and> pods s u = pods (restore_state t t' order x s1) u \<and>
    map_option (\<lambda>e. (e_pod e, e_ip e, e_hydrated e)) (pods s u) = Some (fst x, pf_PodIP (snd x), True)"
proof -
  let ?b = "RegisterHydratedBatch (map hydrated_entry xs) s0"
  from assms(2) obtain ys zs where split: "xs = ys @ x # zs" by (meson split_list)
  let ?s1 = "fold (restore_state t t' order) ys ?b"
  have others: "\<forall>y\<in>set ys. pod_UID (fst y) \<noteq> u" "\<forall>y\<in>set zs. pod_UID (fst y) \<noteq> u"
    using assms(1,3) split by (simp_all add: image_iff eq_commute)
  have "map_of (rev (map (\<lambda>h. (he_uid h, h)) (map hydrated_entry xs))) u = Some (hydrated_entry x)"
  proof (rule map_of_is_SomeI)
    show "distinct (map fst (rev (map (\<lambda>h. (he_uid h, h)) (map hydrated_entry xs))))"
      using assms(1) by (simp add: rev_map [symmetric] comp_def hydrated_entry_def)
    show "(u, hydrated_entry x) \<in> set (rev (map (\<lambda>h. (he_uid h, h)) (map hydrated_entry xs)))"
      using assms(2,3) by (auto simp: hydrated_entry_def)
  qed
  then have b: "pods ?b u = Some (new_entry (fst x) (pf_PodIP (snd x)) PodRunning True None)"
    by (simp add: pods_RegisterHydratedBatch hydrated_entry_def)
  have "pods ?s1 u = pods ?b u" by (rule fold_restore_other [OF others(1)])
  then have has: "HasPod ?s1 u" using b by (simp add: HasPod_def getPodState_def)
  have s: "pods s u = pods (restore_state t t' order x ?s1) u"
    using fold_restore_other [OF others(2)] by (simp add: assms(4) split)
  have "same_entries ?b s" unfolding assms(4) by (rule same_entries_fold_restore)
  then have "map_option (\<lambda>e. (e_pod e, e_ip e, e_hydrated e)) (pods s u) = map_option (\<lambda>e. (e_pod e, e_ip e, e_hydrated e)) (pods ?b u)"
    by (simp add: same_entries_def)
  with b has s show ?thesis by (intro exI [of _ ?s1]) (simp add: new_entry_def)
qed


definition sample_gambit :: gambit where
  "sample_gambit = \<lparr>g_store = bump_once ''u1'' ''a'' (store_InitRestartState (\<lambda>_. 1) (\<lambda>_. 1) (sample_pod ''Always'' [''a''])
     (RegisterPending ''u1'' (sample_pod ''Always'' [''a'']) 0 NewPodStore)), g_files = Map.empty, g_acts = []\<rparr>"


section \<open>What hydration registers\<close>

lemma dom_restored: "dom (pods (fold (restore_state t t' order) xs s)) = dom (pods s)"
  by (rule same_entries_dom [OF same_entries_fold_restore])

lemma dom_batch: "dom (pods (RegisterHydratedBatch hs s)) = dom (pods s) \<union> he_uid ` set hs"
proof -
  have "fst ` set (rev (map (\<lambda>h. (he_uid h, h)) hs)) = he_uid ` set hs" by (simp add: image_image)
  then have "map_of (rev (map (\<lambda>h. (he_uid h, h)) hs)) u = None \<longleftrightarrow> u \<notin> he_uid ` set hs" for u
    by (simp only: map_of_eq_None_iff)
  then have "pods (RegisterHydratedBatch hs s) u = None \<longleftrightarrow> pods s u = None \<and> u \<notin> he_uid ` set hs" for u
    unfolding pods_RegisterHydratedBatch by (metis (no_types, lifting) option.case_eq_if option.distinct(1))
  then show ?thesis by (auto simp: dom_def)
qed

definition fallback :: "string list \<Rightarrow> PodMetadata \<Rightarrow> bool" where
  "fallback ds m \<longleftrightarrow> m_UID m \<noteq> [] \<and> m_UID m \<notin> set ds \<and> m_Name m \<noteq> [] \<and> m_Namespace m \<noteq> []"

lemma hydrate_machine_pods:
  "pods (hydrate_machine t t' ds m s) u = (if fallback ds m \<and> u = m_UID m then
     Some ((new_entry (stub_pod m) (m_PodIP m) PodRunning True None)\<lparr>e_restarts := init_restarts t [], e_probes := Some (init_probes t' [])\<rparr>)
   else pods s u)"
  by (simp add: hydrate_machine_def fallback_def store_InitRestartState_def RegisterHydrated_def triggerSnapshot_def add_used_def
      with_pod_def stub_pod_def)

definition all_hydrated :: "PodStore \<Rightarrow> bool" where
  "all_hydrated s \<longleftrightarrow> (\<forall>u e. pods s u = Some e \<longrightarrow> e_hydrated e)"

lemma hydrate_machine_fold:
  "all_hydrated s \<Longrightarrow> all_hydrated (fold (hydrate_machine t t' ds) ms s) \<and>
   dom (pods (fold (hydrate_machine t t' ds) ms s)) = dom (pods s) \<union> m_UID ` {m \<in> set ms. fallback ds m}"
proof (induction ms arbitrary: s)
  case (Cons m ms)
  have "all_hydrated (hydrate_machine t t' ds m s)"
    using Cons.prems by (simp add: all_hydrated_def hydrate_machine_pods new_entry_def)
  moreover have "dom (pods (hydrate_machine t t' ds m s)) = dom (pods s) \<union> (if fallback ds m then {m_UID m} else {})"
    by (auto simp: dom_def hydrate_machine_pods)
  ultimately show ?case using Cons.IH [of "hydrate_machine t t' ds m s"] by auto
qed simp

lemma all_hydrated_restored: "all_hydrated s \<Longrightarrow> all_hydrated (fold (restore_state t t' order) xs s)"
proof -
  assume h: "all_hydrated s"
  have "same_entries s (fold (restore_state t t' order) xs s)" by (rule same_entries_fold_restore)
  then have "e_hydrated e" if "pods (fold (restore_state t t' order) xs s) u = Some e" for u e
    using h that unfolding same_entries_def all_hydrated_def by (cases "pods s u") (auto dest!: spec [of _ u])
  then show ?thesis by (simp add: all_hydrated_def)
qed

lemma all_hydrated_batch: "all_hydrated s \<Longrightarrow> all_hydrated (RegisterHydratedBatch hs s)"
  by (auto simp: all_hydrated_def pods_RegisterHydratedBatch new_entry_def split: option.splits)

definition swept :: "(string \<times> bool) list \<Rightarrow> PodStore \<Rightarrow> node_action \<Rightarrow> bool" where
  "swept es s a \<longleftrightarrow> (\<exists>n. (n, True) \<in> set es \<and> \<not> HydratedUIDs s (dir_uid n) \<and> (a = RemoveDir n \<or> a = Unmount n))"

lemma sweep_dir_pair:
  "sweep_dir rm (n, d) g = (if \<not> d \<or> HydratedUIDs (g_store g) (dir_uid n) then g
     else if overlay_name n then act (Unmount n) g else remove_dir rm n g)"
  by (simp add: sweep_dir_def)

lemma sweep_acts: "\<exists>as. g_acts (fold (sweep_dir rm) es g) = g_acts g @ as \<and> list_all (swept es (g_store g)) as"
proof (induction es arbitrary: g)
  case (Cons x es)
  obtain n d where x: "x = (n, d)" by (cases x)
  obtain as where as: "g_acts (fold (sweep_dir rm) es (sweep_dir rm x g)) = g_acts (sweep_dir rm x g) @ as"
    "list_all (swept es (g_store (sweep_dir rm x g))) as"
    using Cons.IH by blast
  have st: "g_store (sweep_dir rm x g) = g_store g" using sweep_store [of rm "[x]" g] by simp
  have more: "list_all (swept (x # es) (g_store g)) as"
    using as(2) unfolding st by (rule list.pred_mono_strong) (auto simp: swept_def)
  show ?case
  proof (cases "\<not> d \<or> HydratedUIDs (g_store g) (dir_uid n)")
    case True
    with as more show ?thesis by (intro exI [of _ as]) (simp add: x sweep_dir_pair)
  next
    case False
    let ?a = "if overlay_name n then Unmount n else RemoveDir n"
    have "g_acts (sweep_dir rm x g) = g_acts g @ [?a]" using False by (simp add: x sweep_dir_pair act_def remove_dir_def)
    moreover have "swept (x # es) (g_store g) ?a" using False by (simp add: swept_def x)
    ultimately show ?thesis using as more by (intro exI [of _ "?a # as"]) simp
  qed
qed simp



text \<open>A terminal pod whose unit is still loaded is registered again, as a running stub.\<close>

lemma terminal_pod_resurrected:
  assumes "u \<noteq> []" and "n \<noteq> []" and "ns \<noteq> []" and "pod_UID pd = u"
  shows "store_PodPhase (g_store (HydrateFromRuntime t t' order rm (Some [(u, True)])
      (Some [\<lparr>m_Name = n, m_Namespace = ns, m_UID = u, m_PodIP = ip, m_ContainerName = c, m_State = StateExited, m_ExitCode = 0\<rparr>]) es2
      \<lparr>g_store = NewPodStore, g_files = [u \<mapsto> Some \<lparr>pf_Pod = Some pd, pf_PodIP = ip, pf_Phase = PodSucceeded,
        pf_Restarts = Map.empty, pf_Backoffs = Map.empty\<rparr>], g_acts = []\<rparr>)) u = PodRunning"
  using assms
  by (simp add: HydrateFromRuntime_def Let_def loadAllPodStates_def readPodState_def terminal_phase_def store_PodPhase_def
      getPodState_def hydrate_machine_pods fallback_def new_entry_def)

end
