(* ===== verification/Reconciler.thy ===== *)
theory Reconciler
  imports Gambit_Props
begin

text \<open>
  The drift correction of \<open>node/reconciler.go\<close>: orphan machines, ghost pods and stale directories.
  The reconciler sees the pods through the interface \<open>PodTracker\<close>, here a record of its methods
  over an abstract state, together with the performing of actions on the node. The locale
  \<open>pod_tracker\<close> holds what the reconciler relies on; the provider of \<open>node/gambit.go\<close> satisfies it.
\<close>

section \<open>The interface\<close>

record 't PodTracker =
  trk_IsInFlight :: "'t \<Rightarrow> string \<Rightarrow> bool"
  trk_HasPod :: "'t \<Rightarrow> string \<Rightarrow> bool"
  trk_PodUIDs :: "'t \<Rightarrow> string \<Rightarrow> string option"
  trk_EvictGhost :: "string \<Rightarrow> 't \<Rightarrow> 't"
  trk_GetPodCopy :: "'t \<Rightarrow> string \<Rightarrow> pod option"
  trk_perform :: "node_action \<Rightarrow> 't \<Rightarrow> 't"

section \<open>The reconciler\<close>

definition splitNsName :: "string \<Rightarrow> string \<times> string" where
  "splitNsName nsName = (case cut_at (CHR ''/'') nsName of Some r \<Rightarrow> r | None \<Rightarrow> ([], nsName))"

definition teardown :: "'t PodTracker \<Rightarrow> PodMetadata \<Rightarrow> 't \<Rightarrow> 't" where
  "teardown T m w = (let
     w1 = trk_perform T (StopMachine (m_UID m) (m_ContainerName m)) w;
     (namespace, name) = (case trk_GetPodCopy T w1 (m_UID m) of
         Some pd \<Rightarrow> (pod_Namespace pd, pod_Name pd) | None \<Rightarrow> (m_Namespace m, m_Name m));
     w2 = trk_perform T (NetTeardown (m_UID m) namespace name) w1;
     w3 = trk_perform T (Unmount (m_UID m @ ''-'' @ m_ContainerName m)) w2;
     w4 = trk_perform T (VolumeCleanup (m_UID m)) w3
   in trk_perform T (RemoveDir (m_UID m)) w4)"

text \<open>\<open>k8s\<close> gives the pods the informer lists: \<open>None\<close> without a lister or on an error.\<close>

definition clean_machine :: "'t PodTracker \<Rightarrow> (PodMetadata \<Rightarrow> pod list option) \<Rightarrow> PodMetadata \<Rightarrow> 't \<Rightarrow> 't" where
  "clean_machine T k8s m w =
     (if trk_IsInFlight T w (m_UID m) then w
      else if trk_HasPod T w (m_UID m) then w
      else if (case k8s m of Some ps \<Rightarrow> list_ex (\<lambda>p. pod_UID p = m_UID m) ps | None \<Rightarrow> False)
      then trk_perform T (RequestSync (m_Namespace m) (m_Name m)) w
      else teardown T m w)"

definition cleanOrphans :: "'t PodTracker \<Rightarrow> PodMetadata list option \<Rightarrow> (PodMetadata \<Rightarrow> pod list option) \<Rightarrow> 't \<Rightarrow> 't" where
  "cleanOrphans T machines k8s w = (case machines of None \<Rightarrow> w | Some ms \<Rightarrow> fold (clean_machine T k8s) ms w)"

definition clean_ghost :: "'t PodTracker \<Rightarrow> (string \<Rightarrow> string option) \<Rightarrow> string list \<Rightarrow> string \<Rightarrow> 't \<Rightarrow> 't" where
  "clean_ghost T gambitUIDs k8sUIDs uid w = (case gambitUIDs uid of
     None \<Rightarrow> w
   | Some nsName \<Rightarrow>
     if trk_IsInFlight T w uid then w
     else if uid \<in> set k8sUIDs then w
     else (case splitNsName nsName of (namespace, name) \<Rightarrow>
       trk_EvictGhost T uid (trk_perform T (NetTeardown uid namespace name) w)))"

text \<open>\<open>order\<close> is the order of the iteration over the UIDs.\<close>

definition cleanGhosts :: "'t PodTracker \<Rightarrow> pod list option \<Rightarrow> string list \<Rightarrow> 't \<Rightarrow> 't" where
  "cleanGhosts T k8s order w = (case k8s of
     None \<Rightarrow> w
   | Some ps \<Rightarrow> fold (clean_ghost T (trk_PodUIDs T w) (map pod_UID ps)) order w)"

definition clean_dir :: "'t PodTracker \<Rightarrow> (string \<Rightarrow> string option) \<Rightarrow> string \<times> bool \<Rightarrow> 't \<Rightarrow> 't" where
  "clean_dir T gambitUIDs e w = (case e of (name, isDir) \<Rightarrow>
     if \<not> isDir then w
     else if gambitUIDs (dir_uid name) \<noteq> None then w
     else if trk_IsInFlight T w (dir_uid name) then w
     else trk_perform T (RemoveDir name) w)"

definition cleanStaleDirs :: "'t PodTracker \<Rightarrow> listing \<Rightarrow> 't \<Rightarrow> 't" where
  "cleanStaleDirs T entries w = (case entries of None \<Rightarrow> w | Some es \<Rightarrow> fold (clean_dir T (trk_PodUIDs T w)) es w)"

definition RunOnce :: "'t PodTracker \<Rightarrow> PodMetadata list option \<Rightarrow> (PodMetadata \<Rightarrow> pod list option) \<Rightarrow> pod list option
    \<Rightarrow> string list \<Rightarrow> listing \<Rightarrow> 't \<Rightarrow> 't" where
  "RunOnce T machines k8s_at k8s order entries w =
     cleanStaleDirs T entries (cleanGhosts T k8s order (cleanOrphans T machines k8s_at w))"

section \<open>What the reconciler relies on\<close>

text \<open>The pod an action takes something away from.\<close>

fun action_uid :: "node_action \<Rightarrow> string option" where
  "action_uid (StopMachine u _) = Some u"
| "action_uid (NetTeardown u _ _) = Some u"
| "action_uid (Unmount n) = Some (dir_uid n)"
| "action_uid (VolumeCleanup u) = Some u"
| "action_uid (RemoveDir n) = Some (dir_uid n)"
| "action_uid _ = None"

locale pod_tracker =
  fixes T :: "'t PodTracker" and log :: "'t \<Rightarrow> node_action list"
  assumes has_uids: "trk_HasPod T w u \<longleftrightarrow> trk_PodUIDs T w u \<noteq> None"
    and inflight_has: "trk_IsInFlight T w u \<Longrightarrow> trk_HasPod T w u"
    and copy_has: "trk_GetPodCopy T w u = None \<longleftrightarrow> \<not> trk_HasPod T w u"
    and evict_uids: "trk_PodUIDs T (trk_EvictGhost T u w) = (trk_PodUIDs T w)(u := None)"
    and evict_inflight: "v \<noteq> u \<Longrightarrow> trk_IsInFlight T (trk_EvictGhost T u w) v = trk_IsInFlight T w v"
    and perform_uids: "trk_PodUIDs T (trk_perform T a w) = trk_PodUIDs T w"
    and perform_inflight: "trk_IsInFlight T (trk_perform T a w) v = trk_IsInFlight T w v"
    and perform_log: "log (trk_perform T a w) = log w @ [a]"
    and evict_log: "log (trk_EvictGhost T u w) = log w"
begin

definition same_pods :: "'t \<Rightarrow> 't \<Rightarrow> bool" where
  "same_pods w w' \<longleftrightarrow> trk_PodUIDs T w' = trk_PodUIDs T w \<and> (\<forall>v. trk_IsInFlight T w' v = trk_IsInFlight T w v)"

text \<open>The actions between two states, all on pods that are not tracked in \<open>w0\<close>.\<close>

definition careful :: "'t \<Rightarrow> 't \<Rightarrow> 't \<Rightarrow> bool" where
  "careful w0 w w' \<longleftrightarrow> (\<exists>as. log w' = log w @ as \<and> list_all (\<lambda>a. \<forall>u. action_uid a = Some u \<longrightarrow> trk_PodUIDs T w0 u = None) as)"

lemma same_pods_refl: "same_pods w w" by (simp add: same_pods_def)

lemma same_pods_trans: "same_pods w w' \<Longrightarrow> same_pods w' w'' \<Longrightarrow> same_pods w w''" by (simp add: same_pods_def)

lemma careful_refl: "careful w0 w w" by (simp add: careful_def)

lemma careful_trans:
  assumes "careful w0 w w'" and "careful w0 w' w''"
  shows "careful w0 w w''"
proof -
  obtain as bs where "log w' = log w @ as" "log w'' = log w' @ bs"
    "list_all (\<lambda>a. \<forall>u. action_uid a = Some u \<longrightarrow> trk_PodUIDs T w0 u = None) as"
    "list_all (\<lambda>a. \<forall>u. action_uid a = Some u \<longrightarrow> trk_PodUIDs T w0 u = None) bs"
    using assms unfolding careful_def by blast
  then show ?thesis unfolding careful_def by (intro exI [of _ "as @ bs"]) simp
qed

lemma same_pods_perform: "same_pods w (trk_perform T a w)"
  by (simp add: same_pods_def perform_uids perform_inflight)

lemma careful_perform: "action_uid a = None \<or> trk_PodUIDs T w0 (the (action_uid a)) = None \<Longrightarrow> careful w0 w (trk_perform T a w)"
  unfolding careful_def by (intro exI [of _ "[a]"]) (auto simp: perform_log)

lemma fold_same_careful:
  assumes "\<And>x w. x \<in> set xs \<Longrightarrow> same_pods w0 w \<Longrightarrow> same_pods w (f x w) \<and> careful w0 w (f x w)" and "same_pods w0 w"
  shows "same_pods w (fold f xs w) \<and> careful w0 w (fold f xs w)"
  using assms
proof (induction xs arbitrary: w)
  case (Cons x xs)
  have step: "same_pods w (f x w)" "careful w0 w (f x w)" using Cons.prems by simp_all
  have "same_pods w0 (f x w)" using Cons.prems(2) step(1) by (rule same_pods_trans)
  then have "same_pods (f x w) (fold f xs (f x w)) \<and> careful w0 (f x w) (fold f xs (f x w))"
    using Cons.prems(1) by (intro Cons.IH) simp_all
  then show ?case using same_pods_trans [OF step(1)] careful_trans [OF step(2)] by simp
qed (simp add: same_pods_refl careful_refl)

lemma dir_uid_36: "length u = 36 \<Longrightarrow> dir_uid u = u \<and> dir_uid (u @ ''-'' @ c) = u"
  by (simp add: dir_uid_def overlay_name_def nth_append)

text \<open>The namespace and name of the metadata are used: the tracker does not know the pod.\<close>

lemma teardown_acts:
  assumes "trk_PodUIDs T w (m_UID m) = None"
  shows "log (teardown T m w) = log w @ [StopMachine (m_UID m) (m_ContainerName m),
    NetTeardown (m_UID m) (m_Namespace m) (m_Name m), Unmount (m_UID m @ ''-'' @ m_ContainerName m),
    VolumeCleanup (m_UID m), RemoveDir (m_UID m)]"
proof -
  have "trk_GetPodCopy T (trk_perform T a w) (m_UID m) = None" for a
    using assms by (simp add: copy_has has_uids perform_uids)
  then show ?thesis by (simp add: teardown_def perform_log)
qed

lemma teardown_same: "same_pods w (teardown T m w)"
  by (simp add: same_pods_def teardown_def Let_def split_beta perform_uids perform_inflight)

lemma clean_machine_ok:
  assumes "length (m_UID m) = 36" and "same_pods w0 w"
  shows "same_pods w (clean_machine T k8s m w) \<and> careful w0 w (clean_machine T k8s m w)"
proof (cases "trk_HasPod T w (m_UID m)")
  case True
  then show ?thesis by (simp add: clean_machine_def same_pods_refl careful_refl)
next
  case False
  then have none: "trk_PodUIDs T w (m_UID m) = None" "trk_PodUIDs T w0 (m_UID m) = None"
    using assms(2) by (simp_all add: has_uids same_pods_def)
  have "careful w0 w (teardown T m w)"
    unfolding careful_def using none dir_uid_36 [OF assms(1)] by (simp add: teardown_acts)
  with False show ?thesis
    by (simp add: clean_machine_def teardown_same same_pods_refl careful_refl same_pods_perform careful_perform inflight_has)
qed

lemma cleanOrphans_ok:
  assumes "\<And>m. m \<in> set ms \<Longrightarrow> length (m_UID m) = 36"
  shows "same_pods w (cleanOrphans T (Some ms) k8s w) \<and> careful w w (cleanOrphans T (Some ms) k8s w)"
  unfolding cleanOrphans_def option.case
  by (rule fold_same_careful [OF _ same_pods_refl]) (rule clean_machine_ok [OF assms])

lemma cleanStaleDirs_ok: "same_pods w (cleanStaleDirs T entries w) \<and> careful w w (cleanStaleDirs T entries w)"
proof (cases entries)
  case (Some es)
  have "same_pods w' (clean_dir T (trk_PodUIDs T w) x w') \<and> careful w w' (clean_dir T (trk_PodUIDs T w) x w')"
    if "same_pods w w'" for x w'
    by (cases x) (simp add: clean_dir_def same_pods_refl careful_refl same_pods_perform careful_perform)
  then have "same_pods w (fold (clean_dir T (trk_PodUIDs T w)) es w) \<and> careful w w (fold (clean_dir T (trk_PodUIDs T w)) es w)"
    by (intro fold_same_careful same_pods_refl)
  with Some show ?thesis by (simp add: cleanStaleDirs_def)
qed (simp add: cleanStaleDirs_def same_pods_refl careful_refl)

text \<open>The pods that stay.\<close>

definition stays :: "string list \<Rightarrow> 't \<Rightarrow> string \<Rightarrow> bool" where
  "stays k w u \<longleftrightarrow> trk_IsInFlight T w u \<or> u \<in> set k"

lemma clean_ghost_ok:
  assumes "trk_PodUIDs T w \<subseteq>\<^sub>m G"
  shows "trk_PodUIDs T (clean_ghost T G k u w) = (if stays k w u then trk_PodUIDs T w else (trk_PodUIDs T w)(u := None))"
    and "trk_IsInFlight T (clean_ghost T G k u w) v = trk_IsInFlight T w v"
    and "\<exists>as. log (clean_ghost T G k u w) = log w @ as \<and> list_all (\<lambda>a. action_uid a = Some u \<and> \<not> stays k w u) as"
proof -
  have gone: "trk_PodUIDs T w u = None" if "G u = None" using assms that by (auto simp: map_le_def dom_def)
  then have "(trk_PodUIDs T w)(u := None) = trk_PodUIDs T w" if "G u = None" using that by auto
  then show "trk_PodUIDs T (clean_ghost T G k u w) = (if stays k w u then trk_PodUIDs T w else (trk_PodUIDs T w)(u := None))"
    by (simp add: clean_ghost_def stays_def evict_uids perform_uids split_beta split: option.split)
  have "\<not> trk_IsInFlight T (trk_EvictGhost T u x) u" for x
    by (rule notI) (drule inflight_has, simp add: has_uids evict_uids)
  then show "trk_IsInFlight T (clean_ghost T G k u w) v = trk_IsInFlight T w v"
    by (cases "v = u") (simp_all add: clean_ghost_def evict_inflight perform_inflight split_beta split: option.split)
  show "\<exists>as. log (clean_ghost T G k u w) = log w @ as \<and> list_all (\<lambda>a. action_uid a = Some u \<and> \<not> stays k w u) as"
    by (auto simp: clean_ghost_def stays_def evict_log perform_log split_beta split: option.split)
qed

lemma cleanGhosts_fold:
  assumes "trk_PodUIDs T w \<subseteq>\<^sub>m G"
  shows "trk_PodUIDs T (fold (clean_ghost T G k) us w) = (\<lambda>u. if u \<in> set us \<and> \<not> stays k w u then None else trk_PodUIDs T w u) \<and>
    (\<forall>v. trk_IsInFlight T (fold (clean_ghost T G k) us w) v = trk_IsInFlight T w v) \<and>
    (\<exists>as. log (fold (clean_ghost T G k) us w) = log w @ as \<and> list_all (\<lambda>a. \<exists>u\<in>set us. action_uid a = Some u \<and> \<not> stays k w u) as)"
  using assms
proof (induction us arbitrary: w)
  case (Cons x us)
  note step = clean_ghost_ok [OF Cons.prems, of k x]
  let ?w = "clean_ghost T G k x w"
  have le: "trk_PodUIDs T ?w \<subseteq>\<^sub>m G" using Cons.prems by (auto simp: step(1) map_le_def dom_def)
  have st: "stays k ?w u = stays k w u" for u by (simp add: stays_def step(2))
  note ih = Cons.IH [OF le, unfolded st]
  obtain as bs where "log ?w = log w @ as" "list_all (\<lambda>a. action_uid a = Some x \<and> \<not> stays k w x) as"
    "log (fold (clean_ghost T G k) us ?w) = log ?w @ bs" "list_all (\<lambda>a. \<exists>u\<in>set us. action_uid a = Some u \<and> \<not> stays k w u) bs"
    using step(3) ih by blast
  then have "log (fold (clean_ghost T G k) (x # us) w) = log w @ (as @ bs) \<and>
      list_all (\<lambda>a. \<exists>u\<in>set (x # us). action_uid a = Some u \<and> \<not> stays k w u) (as @ bs)"
    by (auto simp: list_all_iff)
  moreover have "trk_PodUIDs T (fold (clean_ghost T G k) (x # us) w) =
      (\<lambda>u. if u \<in> set (x # us) \<and> \<not> stays k w u then None else trk_PodUIDs T w u)"
    using ih by (auto simp: fun_eq_iff step(1))
  moreover have "\<forall>v. trk_IsInFlight T (fold (clean_ghost T G k) (x # us) w) v = trk_IsInFlight T w v"
    using ih by (simp add: step(2))
  ultimately show ?case by blast
qed simp

lemma RunOnce_ok:
  assumes machines: "\<And>m. m \<in> set ms \<Longrightarrow> length (m_UID m) = 36"
    and order: "\<And>u. trk_HasPod T w u \<Longrightarrow> u \<in> set order"
    and w': "w' = RunOnce T (Some ms) k8s_at k8s order entries w"
  shows "(trk_HasPod T w' u \<longleftrightarrow> trk_HasPod T w u \<and>
      (trk_IsInFlight T w u \<or> (case k8s of None \<Rightarrow> True | Some ps \<Rightarrow> u \<in> pod_UID ` set ps))) \<and>
    (\<exists>as. log w' = log w @ as \<and> list_all (\<lambda>a. \<forall>v. action_uid a = Some v \<longrightarrow> \<not> trk_HasPod T w' v) as)"
proof -
  let ?w1 = "cleanOrphans T (Some ms) k8s_at w"
  let ?w2 = "cleanGhosts T k8s order ?w1"
  note o = cleanOrphans_ok [where ms = ms and k8s = k8s_at and w = w, OF machines]
  note d = cleanStaleDirs_ok [of ?w2 entries, folded RunOnce_def, folded w']
  have uids1: "trk_PodUIDs T ?w1 = trk_PodUIDs T w" and fl1: "trk_IsInFlight T ?w1 v = trk_IsInFlight T w v" for v
    using o by (simp_all add: same_pods_def)
  have ghosts: "trk_PodUIDs T ?w2 = (\<lambda>u. if (case k8s of None \<Rightarrow> False | Some ps \<Rightarrow> u \<in> set order \<and> \<not> stays (map pod_UID ps) w u) then None
        else trk_PodUIDs T w u) \<and>
      (\<exists>as. log ?w2 = log ?w1 @ as \<and> list_all (\<lambda>a. \<forall>v. action_uid a = Some v \<longrightarrow> trk_PodUIDs T ?w2 v = None) as)"
  proof (cases k8s)
    case (Some ps)
    have st: "stays (map pod_UID ps) ?w1 u = stays (map pod_UID ps) w u" for u by (simp add: stays_def fl1)
    note g = cleanGhosts_fold [of ?w1 "trk_PodUIDs T ?w1" "map pod_UID ps" order, OF map_le_refl, unfolded st uids1]
    have w2: "?w2 = fold (clean_ghost T (trk_PodUIDs T w) (map pod_UID ps)) order ?w1"
      by (simp add: cleanGhosts_def Some uids1)
    have u2: "trk_PodUIDs T ?w2 = (\<lambda>u. if u \<in> set order \<and> \<not> stays (map pod_UID ps) w u then None else trk_PodUIDs T w u)"
      using g by (simp only: w2)
    obtain as where as: "log ?w2 = log ?w1 @ as" "list_all (\<lambda>a. \<exists>u\<in>set order. action_uid a = Some u \<and> \<not> stays (map pod_UID ps) w u) as"
      using g unfolding w2 by blast
    have "list_all (\<lambda>a. \<forall>v. action_uid a = Some v \<longrightarrow> trk_PodUIDs T ?w2 v = None) as"
      using as(2) by (rule list.pred_mono_strong) (auto simp: u2)
    with as(1) u2 Some show ?thesis by auto
  qed (simp add: cleanGhosts_def uids1)
  have has: "trk_HasPod T w' v \<longleftrightarrow> trk_PodUIDs T ?w2 v \<noteq> None" for v
    using d by (simp add: has_uids same_pods_def)
  have le: "trk_PodUIDs T w v = None \<Longrightarrow> trk_PodUIDs T ?w2 v = None" for v using ghosts by simp
  obtain as bs cs where logs: "log ?w1 = log w @ as" "log ?w2 = log ?w1 @ bs" "log w' = log ?w2 @ cs"
    "list_all (\<lambda>a. \<forall>v. action_uid a = Some v \<longrightarrow> trk_PodUIDs T w v = None) as"
    "list_all (\<lambda>a. \<forall>v. action_uid a = Some v \<longrightarrow> trk_PodUIDs T ?w2 v = None) bs"
    "list_all (\<lambda>a. \<forall>v. action_uid a = Some v \<longrightarrow> trk_PodUIDs T ?w2 v = None) cs"
    using o ghosts d unfolding careful_def by blast
  have "list_all (\<lambda>a. \<forall>v. action_uid a = Some v \<longrightarrow> trk_PodUIDs T ?w2 v = None) as"
    using logs(4) by (rule list.pred_mono_strong) (simp add: le)
  with logs have "log w' = log w @ (as @ bs @ cs) \<and> list_all (\<lambda>a. \<forall>v. action_uid a = Some v \<longrightarrow> \<not> trk_HasPod T w' v) (as @ bs @ cs)"
    by (simp add: has)
  moreover have "trk_HasPod T w' u \<longleftrightarrow> trk_HasPod T w u \<and>
      (trk_IsInFlight T w u \<or> (case k8s of None \<Rightarrow> True | Some ps \<Rightarrow> u \<in> pod_UID ` set ps))"
    unfolding has fun_cong [OF conjunct1 [OF ghosts], of u]
    using order [of u] by (cases k8s) (auto simp: has_uids stays_def)
  ultimately show ?thesis by blast
qed

end

section \<open>The provider as tracker\<close>

text \<open>\<open>rm\<close> tells which directories can be removed, \<open>del\<close> whether a state file can be.\<close>

definition gambit_perform :: "(string \<Rightarrow> bool) \<Rightarrow> node_action \<Rightarrow> gambit \<Rightarrow> gambit" where
  "gambit_perform rm a g = (case a of RemoveDir n \<Rightarrow> remove_dir rm n g | _ \<Rightarrow> act a g)"

definition gambit_tracker :: "(string \<Rightarrow> bool) \<Rightarrow> (string \<Rightarrow> bool) \<Rightarrow> gambit PodTracker" where
  "gambit_tracker rm del = \<lparr>trk_IsInFlight = Gambit_IsInFlight, trk_HasPod = Gambit_HasPod, trk_PodUIDs = Gambit_PodUIDs,
     trk_EvictGhost = (\<lambda>uid. Gambit_EvictGhost (del uid) uid), trk_GetPodCopy = Gambit_GetPodCopy,
     trk_perform = gambit_perform rm\<rparr>"

lemma perform_store: "g_store (gambit_perform rm a g) = g_store g \<and> g_acts (gambit_perform rm a g) = g_acts g @ [a]"
  by (cases a) (simp_all add: gambit_perform_def act_def remove_dir_def)

lemma evict_store: "g_store (Gambit_EvictGhost ok u g) = EvictGhost u (g_store g) \<and> g_acts (Gambit_EvictGhost ok u g) = g_acts g"
  by (simp add: Gambit_EvictGhost_def deletePodState_def)

lemma EvictGhost_pods: "pods (EvictGhost u s) = (pods s)(u := None)"
  by (auto simp: EvictGhost_def triggerSnapshot_def add_used_def split: option.split)

interpretation gt: pod_tracker "gambit_tracker rm del" g_acts
proof unfold_locales
qed (simp_all add: gambit_tracker_def Gambit_HasPod_def Gambit_PodUIDs_def Gambit_GetPodCopy_def Gambit_IsInFlight_def HasPod_def PodUIDs_def
    GetPodCopy_def IsInFlight_def getPodState_def perform_store evict_store EvictGhost_pods fun_eq_iff split: option.splits)

text \<open>C3: after a pass of the reconciler exactly those pods are still tracked that are being created
  or that Kubernetes lists (all of them, when it cannot be asked), and nothing was stopped, torn
  down, unmounted or removed of a pod that is still tracked.\<close>

theorem reconcile_safe:
  assumes "list_all (\<lambda>m. length (m_UID m) = 36) ms" and "\<And>v. Gambit_HasPod g v \<Longrightarrow> v \<in> set order"
    and "g' = RunOnce (gambit_tracker rm del) (Some ms) k8s_at k8s order entries g"
  shows "(Gambit_HasPod g' u \<longleftrightarrow> Gambit_HasPod g u \<and>
      (Gambit_IsInFlight g u \<or> (case k8s of None \<Rightarrow> True | Some ps \<Rightarrow> u \<in> pod_UID ` set ps))) \<and>
    (\<exists>as. g_acts g' = g_acts g @ as \<and> list_all (\<lambda>a. \<forall>v. action_uid a = Some v \<longrightarrow> \<not> Gambit_HasPod g' v) as)"
proof -
  have ops: "trk_HasPod (gambit_tracker rm del) = Gambit_HasPod" "trk_IsInFlight (gambit_tracker rm del) = Gambit_IsInFlight"
    by (simp_all add: gambit_tracker_def)
  have ms: "\<And>m. m \<in> set ms \<Longrightarrow> length (m_UID m) = 36" using assms(1) by (simp add: list_all_iff)
  from gt.RunOnce_ok [of ms rm del g order g' k8s_at k8s entries u, unfolded ops, OF ms assms(2,3)] show ?thesis .
qed

definition tracked_gambit :: gambit where
  "tracked_gambit = \<lparr>g_store = PromoteRunning ''u1'' (sample_pod ''Always'' [''a'']) ''10.0.0.2''
     (RegisterPending ''u1'' (sample_pod ''Always'' [''a'']) 0 NewPodStore), g_files = Map.empty, g_acts = []\<rparr>"

lemma tracked_gambit_has: "Gambit_HasPod tracked_gambit v \<longleftrightarrow> v = ''u1''"
  by (simp add: Gambit_HasPod_def HasPod_def getPodState_def tracked_gambit_def PromoteRunning_def RegisterPending_def
      NewPodStore_def with_pod_trigger_def with_pod_def triggerSnapshot_def add_used_def)

theorem reconcile_safe_witness:
  "\<not> Gambit_HasPod (RunOnce (gambit_tracker (\<lambda>_. True) (\<lambda>_. True)) (Some []) (\<lambda>_. None) (Some []) [''u1''] None tracked_gambit) ''u1''"
proof -
  have "list_all (\<lambda>m. length (m_UID m) = 36) []" "\<And>v. Gambit_HasPod tracked_gambit v \<Longrightarrow> v \<in> set [''u1'']"
    by (simp_all add: tracked_gambit_has)
  moreover have "\<not> Gambit_IsInFlight tracked_gambit ''u1''"
    by (simp add: Gambit_IsInFlight_def IsInFlight_def getPodState_def tracked_gambit_def PromoteRunning_def RegisterPending_def
        NewPodStore_def with_pod_trigger_def with_pod_def triggerSnapshot_def add_used_def)
  ultimately show ?thesis
    using reconcile_safe [of "[]" tracked_gambit "[''u1'']" _ "\<lambda>_. True" "\<lambda>_. True" "\<lambda>_. None" "Some []" None "''u1''", OF _ _ refl]
    by simp
qed

text \<open>A ghost is taken off the network under the namespace and the name of its pod, whose
  composite key is split again, as long as the namespace has no slash, and then forgotten.\<close>

lemma ghost_network:
  assumes "pods (g_store g) u = Some e" and "CHR ''/'' \<notin> set (pod_Namespace (e_pod e))"
    and "\<not> Gambit_IsInFlight g u" and "u \<notin> set k"
    and "g' = clean_ghost (gambit_tracker rm del) (Gambit_PodUIDs g) k u g"
  shows "g_acts g' = g_acts g @ [NetTeardown u (pod_Namespace (e_pod e)) (pod_Name (e_pod e))] \<and> \<not> Gambit_HasPod g' u"
proof -
  have "Gambit_PodUIDs g u = Some (pod_Namespace (e_pod e) @ CHR ''/'' # pod_Name (e_pod e))"
    using assms(1) by (simp add: Gambit_PodUIDs_def PodUIDs_def pod_key_def name_key_def)
  then show ?thesis
    using assms(2-4)
    by (simp add: assms(5) clean_ghost_def splitNsName_def cut_at_append gambit_tracker_def evict_store perform_store
        Gambit_HasPod_def HasPod_def getPodState_def EvictGhost_pods)
qed

end
