(* ===== verification/Pod_Status.thy ===== *)
theory Pod_Status
  imports Gambit
begin

text \<open>
  The status a node reports for its pods, \<open>node/status.go\<close>: \<open>buildPodStatus\<close> turns the states of the
  machines into container statuses, a phase and the Ready condition; \<open>GetPodStatus\<close> chooses
  between it and the stored status. The lookup of machine states is an argument, as in the code;
  \<open>now\<close> gives the clock for the containers that have terminated, \<open>nodeIP\<close> the address
  \<open>resolveNodeIP\<close> returns.
\<close>

section \<open>Container states\<close>

abbreviation waiting_state :: "string \<Rightarrow> container_state_v1" where
  "waiting_state reason \<equiv> \<lparr>Waiting = Some reason, Running = None, Terminated = None\<rparr>"

abbreviation running_state :: "gotime \<Rightarrow> container_state_v1" where
  "running_state t \<equiv> \<lparr>Waiting = None, Running = Some t, Terminated = None\<rparr>"

abbreviation terminated_state :: "int \<Rightarrow> string \<Rightarrow> gotime \<Rightarrow> gotime \<Rightarrow> container_state_v1" where
  "terminated_state code reason t t' \<equiv> \<lparr>Waiting = None, Running = None,
     Terminated = Some \<lparr>st_ExitCode = code, st_Reason = reason, st_StartedAt = t, st_FinishedAt = t'\<rparr>\<rparr>"

definition resolveNodeIP :: "string option \<Rightarrow> string \<Rightarrow> string" where
  "resolveNodeIP outbound configured =
     (if configured \<noteq> [] then configured else case outbound of Some ip \<Rightarrow> ip | None \<Rightarrow> ''127.0.0.1'')"

definition effective_policy :: "pod \<Rightarrow> RestartPolicy" where
  "effective_policy pd = (if pod_RestartPolicy pd = [] then RestartPolicyAlways else pod_RestartPolicy pd)"

section \<open>Building a status\<close>

text \<open>The body of the loop: the status of one container and the phase after it. \<open>phase\<close> is the
  phase so far, \<open>previous\<close> the container statuses of the pod by name.\<close>

definition container_report :: "gotime \<Rightarrow> PodStore \<Rightarrow> string \<Rightarrow> RestartPolicy \<Rightarrow> (string \<rightharpoonup> container_status) \<Rightarrow> MachineState
    \<Rightarrow> PodPhase \<Rightarrow> container \<Rightarrow> bool \<times> container_state_v1 \<times> PodPhase" where
  "container_report now s uid policy previous state phase c = (let startedAt = ContainerStartedAt s uid (c_Name c) in
     case state of
       StateRunning \<Rightarrow> (IsContainerReady s uid (c_Name c), running_state startedAt, phase)
     | StateCreating \<Rightarrow> (False, waiting_state ''ContainerCreating'', PodPending)
     | StateUnknown \<Rightarrow> (case (if phase = PodPending then previous (c_Name c) else None) of
           Some p \<Rightarrow> if Running (s_State p) \<noteq> None then (s_Ready p, s_State p, phase)
             else (False, waiting_state ''ContainerCreating'', phase)
         | None \<Rightarrow> (False, waiting_state ''ContainerCreating'', phase))
     | StateFailed \<Rightarrow> if policy = RestartPolicyAlways \<or> policy = RestartPolicyOnFailure
         then (False, waiting_state ''CrashLoopBackOff'', PodRunning)
         else (False, terminated_state 1 ''Error'' startedAt now, phase)
     | StateExited \<Rightarrow> if policy = RestartPolicyAlways
         then (False, waiting_state ''CrashLoopBackOff'', PodRunning)
         else (False, terminated_state 0 ''Completed'' startedAt now, phase))"

definition restart_count :: "PodStore \<Rightarrow> string \<Rightarrow> string \<Rightarrow> int" where
  "restart_count s uid name = (case RestartCounts s uid of
     Some m \<Rightarrow> (case m name of Some n \<Rightarrow> n | None \<Rightarrow> 0) | None \<Rightarrow> 0)"

fun report_containers :: "(string \<Rightarrow> gotime) \<Rightarrow> PodStore \<Rightarrow> string \<Rightarrow> RestartPolicy \<Rightarrow> (string \<rightharpoonup> container_status)
    \<Rightarrow> (string \<Rightarrow> string \<Rightarrow> MachineState) \<Rightarrow> PodPhase \<Rightarrow> container list \<Rightarrow> container_status list \<times> PodPhase" where
  "report_containers now s uid policy previous lookup phase [] = ([], phase)"
| "report_containers now s uid policy previous lookup phase (c # cs) =
     (case container_report (now (c_Name c)) s uid policy previous (lookup uid (c_Name c)) phase c of (ready, state, phase1) \<Rightarrow>
      case report_containers now s uid policy previous lookup phase1 cs of (rest, phase2) \<Rightarrow>
        (\<lparr>s_Name = c_Name c, s_Image = c_Image c, s_Ready = ready, s_RestartCount = restart_count s uid (c_Name c),
          s_State = state\<rparr> # rest, phase2))"

definition previous_statuses :: "pod \<Rightarrow> string \<rightharpoonup> container_status" where
  "previous_statuses pd = map_of (rev (map (\<lambda>st. (s_Name st, st)) (ps_ContainerStatuses (pod_Status pd))))"

definition buildPodStatus :: "(string \<Rightarrow> gotime) \<Rightarrow> string \<Rightarrow> PodStore \<Rightarrow> pod \<Rightarrow> (string \<Rightarrow> string \<Rightarrow> MachineState) \<Rightarrow> pod_status" where
  "buildPodStatus now nodeIP s pd lookup = (let uid = pod_UID pd; ip = PodIP s uid in
     case report_containers now s uid (effective_policy pd) (previous_statuses pd) lookup PodRunning (pod_Containers pd) of
       (statuses, phase) \<Rightarrow>
         \<lparr>ps_Phase = phase, ps_Reason = [], ps_Message = [],
          ps_Conditions = [(PodReady, if list_all s_Ready statuses then ConditionTrue else ConditionFalse)],
          ps_ContainerStatuses = statuses, ps_InitContainerStatuses = [], ps_HostIP = nodeIP, ps_PodIP = ip,
          ps_PodIPs = (if ip \<noteq> [] then [ip] else []), ps_StartTime = ps_StartTime (pod_Status pd)\<rparr>)"

section \<open>Queries\<close>

text \<open>\<open>None\<close> is the not-found error of the store. \<open>lookup\<close> is the cache of the batch watcher, or the
  runtime when there is no watcher.\<close>

definition GetPodStatus :: "(string \<Rightarrow> gotime) \<Rightarrow> string \<Rightarrow> PodStore \<Rightarrow> (string \<Rightarrow> string \<Rightarrow> MachineState) \<Rightarrow> string \<Rightarrow> string
    \<Rightarrow> pod_status option" where
  "GetPodStatus now nodeIP s lookup namespace name = (case GetPod s namespace name of
     None \<Rightarrow> None
   | Some pd \<Rightarrow> let uid = pod_UID pd; phase = store_PodPhase s uid; ip = PodIP s uid in
       if phase = PodPending then
         Some (empty_status\<lparr>ps_Phase := PodPending, ps_PodIP := ip, ps_PodIPs := (if ip \<noteq> [] then [ip] else [])\<rparr>)
       else if phase = PodSucceeded \<or> phase = PodFailed then Some (pod_Status pd)
       else if ps_Phase (pod_Status pd) = PodFailed then Some (pod_Status pd)
       else Some (buildPodStatus now nodeIP s pd lookup))"

text \<open>The fallback to the runtime: an error of \<open>MachineStatus\<close> counts as unknown.\<close>

definition runtime_lookup :: "(string \<Rightarrow> string \<Rightarrow> MachineState option) \<Rightarrow> string \<Rightarrow> string \<Rightarrow> MachineState" where
  "runtime_lookup machineStatus uid name = (case machineStatus uid name of Some st \<Rightarrow> st | None \<Rightarrow> StateUnknown)"

section \<open>Properties\<close>

lemma report_names:
  "map s_Name (fst (report_containers now s uid policy previous lookup phase cs)) = map c_Name cs"
  by (induction cs arbitrary: phase) (simp_all split: prod.split add: prod.case_eq_if)

lemma report_nonterminal:
  assumes "phase = PodRunning \<or> phase = PodPending"
  shows "snd (report_containers now s uid policy previous lookup phase cs) \<in> {PodRunning, PodPending}"
  using assms
proof (induction cs arbitrary: phase)
  case Nil
  then show ?case by auto
next
  case (Cons c cs)
  let ?phase1 = "snd (snd (container_report (now (c_Name c)) s uid policy previous (lookup uid (c_Name c)) phase c))"
  have "?phase1 = PodRunning \<or> ?phase1 = PodPending"
    using Cons.prems by (elim disjE; cases "lookup uid (c_Name c)"; simp add: container_report_def Let_def split: option.split)
  from Cons.IH [OF this] show ?case by (simp add: prod.case_eq_if)
qed

text \<open>A container that is reported ready has a running machine whose probes pass, unless the
  previous status is kept while the pod is still being created.\<close>

definition honest_ready :: "PodStore \<Rightarrow> string \<Rightarrow> (string \<rightharpoonup> container_status) \<Rightarrow> (string \<Rightarrow> string \<Rightarrow> MachineState) \<Rightarrow> container_status \<Rightarrow> bool" where
  "honest_ready s uid previous lookup st \<longleftrightarrow>
     lookup uid (s_Name st) = StateRunning \<and> s_Ready st = IsContainerReady s uid (s_Name st)
       \<and> s_State st = running_state (ContainerStartedAt s uid (s_Name st))
   \<or> lookup uid (s_Name st) = StateUnknown \<and> (\<exists>p. previous (s_Name st) = Some p \<and> s_Ready st = s_Ready p
       \<and> s_State st = s_State p \<and> Running (s_State p) \<noteq> None)
   \<or> lookup uid (s_Name st) \<noteq> StateRunning \<and> \<not> s_Ready st \<and> Running (s_State st) = None"

lemma container_report_honest:
  fixes now s uid policy previous lookup c phase
  defines "r \<equiv> container_report now s uid policy previous (lookup uid (c_Name c)) phase c"
  shows "honest_ready s uid previous lookup
    \<lparr>s_Name = c_Name c, s_Image = i, s_Ready = fst r, s_RestartCount = n, s_State = fst (snd r)\<rparr>"
  unfolding honest_ready_def r_def container_report_def Let_def
  by (cases "lookup uid (c_Name c)"; simp split: option.split)

lemma report_honest:
  "list_all (honest_ready s uid previous lookup) (fst (report_containers now s uid policy previous lookup phase cs))"
  by (induction cs arbitrary: phase) (simp_all add: prod.case_eq_if container_report_honest)

section \<open>Well-formed statuses\<close>

text \<open>The state of a container is a union: exactly one of the three pointers is set.\<close>

definition wf_state :: "container_state_v1 \<Rightarrow> bool" where
  "wf_state st \<longleftrightarrow> (Waiting st \<noteq> None \<and> Running st = None \<and> Terminated st = None)
     \<or> (Waiting st = None \<and> Running st \<noteq> None \<and> Terminated st = None)
     \<or> (Waiting st = None \<and> Running st = None \<and> Terminated st \<noteq> None)"

definition wf_pod_status :: "pod \<Rightarrow> pod_status \<Rightarrow> bool" where
  "wf_pod_status pd st \<longleftrightarrow> map s_Name (ps_ContainerStatuses st) = map c_Name (pod_Containers pd)
     \<and> list_all (\<lambda>cs. wf_state (s_State cs)) (ps_ContainerStatuses st)
     \<and> ps_Phase st \<in> {PodPending, PodRunning, PodSucceeded, PodFailed}
     \<and> (\<exists>v\<in>{ConditionTrue, ConditionFalse}. ps_Conditions st = [(PodReady, v)])
     \<and> ps_PodIPs st = (if ps_PodIP st = [] then [] else [ps_PodIP st])"

lemma container_report_wf:
  "(\<And>p. previous (c_Name c) = Some p \<Longrightarrow> wf_state (s_State p)) \<Longrightarrow>
   wf_state (fst (snd (container_report now s uid policy previous state phase c)))"
  by (cases state) (auto simp: container_report_def Let_def wf_state_def split: option.split)

lemma report_wf:
  assumes "\<And>n p. previous n = Some p \<Longrightarrow> wf_state (s_State p)"
  shows "list_all (\<lambda>cs. wf_state (s_State cs)) (fst (report_containers now s uid policy previous lookup phase cs))"
  by (induction cs arbitrary: phase) (simp_all add: prod.case_eq_if container_report_wf assms)

lemma previous_wf:
  assumes "list_all (\<lambda>cs. wf_state (s_State cs)) (ps_ContainerStatuses (pod_Status pd))" and "previous_statuses pd n = Some p"
  shows "wf_state (s_State p)"
  using assms map_of_SomeD [OF assms(2) [unfolded previous_statuses_def]] by (auto simp: list_all_iff)

text \<open>C29: a status built for a pod whose stored container states are well-formed is well-formed:
  one entry per container of the specification, in its order; each state is exactly one of waiting,
  running and terminated; the phase and the one Ready condition have legal values; the list of
  addresses agrees with the address. The phase it computes is never a terminal one.\<close>

theorem status_well_formed:
  assumes "list_all (\<lambda>cs. wf_state (s_State cs)) (ps_ContainerStatuses (pod_Status pd))"
  shows "wf_pod_status pd (buildPodStatus now nodeIP s pd lookup)
    \<and> ps_Phase (buildPodStatus now nodeIP s pd lookup) \<in> {PodRunning, PodPending}"
proof -
  let ?r = "report_containers now s (pod_UID pd) (effective_policy pd) (previous_statuses pd) lookup PodRunning (pod_Containers pd)"
  have "snd ?r \<in> {PodRunning, PodPending}" by (rule report_nonterminal) simp
  moreover have "map s_Name (fst ?r) = map c_Name (pod_Containers pd)" by (rule report_names)
  moreover have "list_all (\<lambda>cs. wf_state (s_State cs)) (fst ?r)" by (rule report_wf) (rule previous_wf [OF assms])
  ultimately show ?thesis by (auto simp: wf_pod_status_def buildPodStatus_def Let_def prod.case_eq_if)
qed

theorem status_well_formed_witness:
  "wf_pod_status (sample_pod RestartPolicyAlways [''a'', ''b''])
     (buildPodStatus (\<lambda>_. 5) ''10.0.0.1'' NewPodStore (sample_pod RestartPolicyAlways [''a'', ''b'']) (\<lambda>_ _. StateFailed))"
  using status_well_formed [of "sample_pod RestartPolicyAlways [''a'', ''b'']" "\<lambda>_. 5" "''10.0.0.1''" NewPodStore "\<lambda>_ _. StateFailed"]
  by (simp add: sample_pod_def empty_status_def)



text \<open>The phase depends on the order of the containers: the last one that is creating or in back-off
  decides.\<close>

lemma phase_depends_on_order:
  assumes "lookup ''u1'' ''a'' = StateCreating" and "lookup ''u1'' ''b'' = StateFailed"
  shows "ps_Phase (buildPodStatus now ip s (sample_pod RestartPolicyAlways [''a'', ''b'']) lookup) = PodRunning"
    and "ps_Phase (buildPodStatus now ip s (sample_pod RestartPolicyAlways [''b'', ''a'']) lookup) = PodPending"
  using assms by (simp_all add: buildPodStatus_def sample_pod_def sample_container_def effective_policy_def container_report_def Let_def)

end
