(* ===== verification/Runtime_Status.thy ===== *)
theory Runtime_Status
  imports Gambit
begin

text \<open>
  How the runtime reads machine states from systemd, \<open>internal/runtime/systemd/runtime.go\<close>: the
  mapping of \<open>ActiveState\<close>, \<open>MachineStatus\<close>, \<open>ListManagedMachines\<close> and \<open>WaitForMachineExit\<close>. What
  the manager answers on the bus is an argument, \<open>None\<close> an error; for the exit status
  \<open>None\<close> is also a property of another type. Of the metadata the fields that the node reads are kept.
  The locale \<open>machine_listing\<close> is what the watchers of machines rely on.
\<close>

section \<open>Reading units\<close>

definition mapActiveState :: "string \<Rightarrow> MachineState" where
  "mapActiveState s = (if s = ''active'' \<or> s = ''reloading'' then StateRunning
     else if s = ''activating'' then StateCreating
     else if s = ''failed'' then StateFailed
     else StateExited)"

definition readExitCode :: "(string \<Rightarrow> int option) \<Rightarrow> string \<Rightarrow> int" where
  "readExitCode mainStatus unit = (case mainStatus unit of Some code \<Rightarrow> code | None \<Rightarrow> 0)"

definition readUnitEnv :: "(string \<Rightarrow> string list option) \<Rightarrow> string \<Rightarrow> string \<rightharpoonup> string" where
  "readUnitEnv environment unit = (case environment unit of
     None \<Rightarrow> Map.empty
   | Some entries \<Rightarrow> fold (\<lambda>entry m. case cut_at (CHR ''='') entry of Some (k, v) \<Rightarrow> m(k \<mapsto> v) | None \<Rightarrow> m) entries Map.empty)"

definition MachineStatus :: "(string \<Rightarrow> string option) \<Rightarrow> (string \<Rightarrow> int option) \<Rightarrow> string \<Rightarrow> MachineState" where
  "MachineStatus activeState mainStatus unit = (case activeState unit of
     None \<Rightarrow> StateUnknown
   | Some s \<Rightarrow> if mapActiveState s \<noteq> StateExited then mapActiveState s
       else if readExitCode mainStatus unit \<noteq> 0 then StateFailed else StateExited)"

definition env_or_empty :: "(string \<rightharpoonup> string) \<Rightarrow> string \<Rightarrow> string" where
  "env_or_empty env k = (case env k of Some v \<Rightarrow> v | None \<Rightarrow> [])"

definition machine_of_unit :: "string \<Rightarrow> (string \<Rightarrow> int option) \<Rightarrow> (string \<Rightarrow> string list option) \<Rightarrow> string \<times> string \<Rightarrow> PodMetadata" where
  "machine_of_unit pawnName mainStatus environment u = (let
     unit = fst u;
     state = mapActiveState (snd u);
     exitCode = readExitCode mainStatus unit;
     env = readUnitEnv environment unit;
     uid = env_or_empty env ''PERIGEOS_META_UID''
   in \<lparr>m_Name = env_or_empty env ''PERIGEOS_META_NAME'', m_Namespace = env_or_empty env ''PERIGEOS_META_NAMESPACE'',
     m_UID = (if uid = [] then trim_suffix (trim_prefix unit (''perigeos-'' @ pawnName @ ''-pod-'')) ''.service'' else uid),
     m_PodIP = env_or_empty env ''PERIGEOS_META_IP'', m_ContainerName = env_or_empty env ''PERIGEOS_META_CONTAINER'',
     m_State = (if state = StateExited \<and> exitCode \<noteq> 0 then StateFailed else state), m_ExitCode = exitCode\<rparr>)"

text \<open>\<open>units\<close> are the names and active states of the units that match the pattern of the pawn.\<close>

definition ListManagedMachines :: "string \<Rightarrow> (string \<Rightarrow> int option) \<Rightarrow> (string \<Rightarrow> string list option) \<Rightarrow> (string \<times> string) list option
    \<Rightarrow> PodMetadata list option" where
  "ListManagedMachines pawnName mainStatus environment units =
     map_option (map (machine_of_unit pawnName mainStatus environment)) units"

section \<open>Waiting for an exit\<close>

text \<open>One wake-up of the loop: the context is done, a signal with a substate, or the ticker; the last
  two carry the status a query would return, the clock of the start deadline and the clock of the
  overall deadline.\<close>

datatype wake = CtxDone | Signal string MachineState gotime gotime | Tick MachineState gotime gotime

datatype wait_result = WaitExited | WaitFailed | WaitCancelled | WaitTimeout

text \<open>\<open>checkState\<close>: the new \<open>started\<close> flag and the terminal state, if any.\<close>

definition checkState :: "gotime \<Rightarrow> bool \<Rightarrow> MachineState \<Rightarrow> gotime \<Rightarrow> bool \<times> wait_result option" where
  "checkState startDeadline started state now = (case state of
     StateRunning \<Rightarrow> (True, None)
   | StateCreating \<Rightarrow> (True, None)
   | StateFailed \<Rightarrow> (started, Some WaitFailed)
   | StateExited \<Rightarrow> (started, if started \<or> startDeadline < now then Some WaitExited else None)
   | StateUnknown \<Rightarrow> (started, None))"

definition start_substate :: "string \<Rightarrow> bool" where
  "start_substate s \<longleftrightarrow> s = ''running'' \<or> s = ''start-pre'' \<or> s = ''start'' \<or> s = ''start-post''"

text \<open>The loop over the wake-ups; \<open>None\<close>: still waiting when the list ends.\<close>

fun wait_loop :: "gotime \<Rightarrow> gotime \<Rightarrow> bool \<Rightarrow> wake list \<Rightarrow> wait_result option" where
  "wait_loop startDeadline deadline started [] = None"
| "wait_loop startDeadline deadline started (CtxDone # ws) = Some WaitCancelled"
| "wait_loop startDeadline deadline started (Signal sub state now now' # ws) =
     (if start_substate sub then wait_loop startDeadline deadline True ws
      else if sub = ''failed'' then Some WaitFailed
      else case checkState startDeadline started state now of
        (_, Some r) \<Rightarrow> Some r
      | (started', None) \<Rightarrow> if deadline < now' then Some WaitTimeout else wait_loop startDeadline deadline started' ws)"
| "wait_loop startDeadline deadline started (Tick state now now' # ws) =
     (case checkState startDeadline started state now of
        (_, Some r) \<Rightarrow> Some r
      | (started', None) \<Rightarrow> if deadline < now' then Some WaitTimeout else wait_loop startDeadline deadline started' ws)"

definition startGrace :: duration where "startGrace = 5 * Second"

definition WaitForMachineExit :: "gotime \<Rightarrow> gotime \<Rightarrow> duration \<Rightarrow> MachineState \<Rightarrow> gotime \<Rightarrow> wake list \<Rightarrow> wait_result option" where
  "WaitForMachineExit t0 t1 timeout state now ws =
     (case checkState (t1 + startGrace) False state now of
        (_, Some r) \<Rightarrow> Some r
      | (started, None) \<Rightarrow> wait_loop (t1 + startGrace) (t0 + timeout) started ws)"

section \<open>The contract of a listing\<close>

locale machine_listing =
  fixes listing :: "'a \<Rightarrow> PodMetadata list option"
  assumes known: "listing x = Some ms \<Longrightarrow> m \<in> set ms \<Longrightarrow> m_State m \<noteq> StateUnknown"
    and exited_zero: "listing x = Some ms \<Longrightarrow> m \<in> set ms \<Longrightarrow> m_State m = StateExited \<Longrightarrow> m_ExitCode m = 0"
begin

text \<open>The index a watcher builds from a listing: the last entry for a key wins.\<close>

lemma indexed_known:
  assumes "listing x = Some ms" and "map_of (rev (map (\<lambda>m. (key m, m_State m)) ms)) k = Some st"
  shows "st \<noteq> StateUnknown"
  using known [OF assms(1)] map_of_SomeD [OF assms(2)] by auto

lemma indexed_exited_zero:
  assumes ms: "listing x = Some ms" and st: "map_of (rev (map (\<lambda>m. (key m, m_State m)) ms)) k = Some StateExited"
  shows "map_of (rev (map (\<lambda>m. (key m, m_ExitCode m)) ms)) k = Some 0"
proof -
  have "map_of (map (\<lambda>m. (key m, m_State m)) xs) k = Some StateExited \<Longrightarrow> set xs \<subseteq> set ms
      \<Longrightarrow> map_of (map (\<lambda>m. (key m, m_ExitCode m)) xs) k = Some 0" for xs
    by (induction xs) (auto split: if_splits intro: exited_zero [OF ms])
  from this [of "rev ms"] st show ?thesis by (simp add: rev_map)
qed

end

lemma machine_of_unit_state:
  "m_State (machine_of_unit p ms env u) \<noteq> StateUnknown"
  "m_State (machine_of_unit p ms env u) = StateExited \<Longrightarrow> m_ExitCode (machine_of_unit p ms env u) = 0"
  by (auto simp: machine_of_unit_def Let_def mapActiveState_def split: if_splits)

interpretation lm: machine_listing "ListManagedMachines pawnName mainStatus environment"
  by unfold_locales (auto simp: ListManagedMachines_def machine_of_unit_state)

section \<open>Waiting is sound\<close>

text \<open>The wake-ups that show the machine has started.\<close>

primrec wake_started :: "wake \<Rightarrow> bool" where
  "wake_started CtxDone = False"
| "wake_started (Signal sub state _ _) = (start_substate sub \<or> state \<in> {StateRunning, StateCreating})"
| "wake_started (Tick state _ _) = (state \<in> {StateRunning, StateCreating})"

primrec wake_late :: "gotime \<Rightarrow> wake \<Rightarrow> bool" where
  "wake_late d CtxDone = False"
| "wake_late d (Signal _ _ now _) = (d < now)"
| "wake_late d (Tick _ now _) = (d < now)"

lemma checkState_cases:
  "checkState d started state now = (started \<or> state \<in> {StateRunning, StateCreating},
     if state = StateFailed then Some WaitFailed
     else if state = StateExited \<and> (started \<or> d < now) then Some WaitExited else None)"
  by (cases state) (simp_all add: checkState_def)

lemma wait_loop_exited:
  assumes "wait_loop d d' started ws = Some WaitExited"
  shows "started \<or> list_ex wake_started ws \<or> list_ex (wake_late d) ws"
  using assms
  by (induction d d' started ws rule: wait_loop.induct) (auto simp: checkState_cases split: if_splits)

lemma wait_loop_timeout:
  assumes "Tick state now now' \<in> set ws" and "d' < now'"
  shows "\<exists>r. wait_loop d d' started ws = Some r"
  using assms
  by (induction d d' started ws rule: wait_loop.induct) (auto simp: checkState_cases split: if_splits)

text \<open>C31: \<open>WaitForMachineExit\<close> never mistakes a unit that has not been started for one that is
  finished: it reports an exit only if the machine was seen starting or running at some wake-up, or
  the start grace had elapsed at one; and it cannot wait forever: one tick after the deadline
  ends it with a result.\<close>

theorem wait_exit_sound:
  "(WaitForMachineExit t0 t1 timeout state now ws = Some WaitExited \<longrightarrow>
      state \<in> {StateRunning, StateCreating} \<or> t1 + startGrace < now
        \<or> list_ex wake_started ws \<or> list_ex (wake_late (t1 + startGrace)) ws)
   \<and> (Tick state' now1 now2 \<in> set ws \<and> t0 + timeout < now2 \<longrightarrow>
      (\<exists>r. WaitForMachineExit t0 t1 timeout state now ws = Some r))"
  unfolding WaitForMachineExit_def checkState_cases
  by (auto split: if_splits dest: wait_loop_exited intro: wait_loop_timeout)

theorem wait_exit_sound_witness:
  "WaitForMachineExit 0 0 (300 * Second) StateUnknown 1 [Tick StateExited 1 1, Signal ''running'' StateRunning 2 2, Tick StateExited 3 3]
     = Some WaitExited
   \<and> list_ex wake_started [Tick StateExited 1 1, Signal ''running'' StateRunning 2 2, Tick StateExited 3 3]
   \<and> (\<exists>r. WaitForMachineExit 0 0 1 StateUnknown 1 [Tick StateUnknown 2 2] = Some r)"
proof -
  let ?ws = "[Tick StateExited 1 1, Signal ''running'' StateRunning 2 2, Tick StateExited 3 3]"
  have w: "WaitForMachineExit 0 0 (300 * Second) StateUnknown 1 ?ws = Some WaitExited"
    by (simp add: WaitForMachineExit_def checkState_def startGrace_def start_substate_def)
  have "list_ex wake_started ?ws"
    using wait_exit_sound [of 0 0 "300 * Second" StateUnknown 1 ?ws] w by (simp add: startGrace_def)
  moreover have "\<exists>r. WaitForMachineExit 0 0 1 StateUnknown 1 [Tick StateUnknown 2 2] = Some r"
    using wait_exit_sound [of 0 0 1 StateUnknown 1 "[Tick StateUnknown 2 2]" StateUnknown 2 2] by simp
  ultimately show ?thesis using w by blast
qed

text \<open>The same holds for \<open>MachineStatus\<close>, which is unknown exactly when the bus call failed.\<close>

lemma MachineStatus_states:
  "MachineStatus active code unit = StateUnknown \<longleftrightarrow> active unit = None"
  "MachineStatus active code unit = StateExited \<Longrightarrow> readExitCode code unit = 0"
  by (auto simp: MachineStatus_def mapActiveState_def split: option.splits if_splits)

end
