(* ===== verification/Probe_Scheduler.thy ===== *)
theory Probe_Scheduler
  imports Pod_Store
begin

text \<open>
  The probe scheduler, \<open>internal/probescheduler/scheduler.go\<close>: every two seconds the containers of
  the running pods that have a probe due are probed, each in a goroutine of its own, and the
  outcome goes into the pod store and as a \<open>ProbeFact\<close> to the event bus. \<open>ProbeState\<close> hands out
  the pointer into the store, and \<open>IsDue\<close> seeds the first probe time through it; the model writes
  that back. The goroutines of a cycle are tasks that run in an order the scheduler chooses. The
  state is the store and the facts sent so far.
\<close>

section \<open>Probing one container\<close>

text \<open>The readings of the clock and the jitter in the handling of one probe.\<close>

record probe_clock =
  pc_seed :: gotime
  pc_since_start :: gotime
  pc_since_last :: gotime
  pc_mark :: gotime
  pc_reset :: gotime
  pc_jitter :: int

type_synonym sched_state = "PodStore \<times> Fact list"

definition safeThreshold :: "int \<Rightarrow> int \<Rightarrow> int" where
  "safeThreshold val defaultVal = (if val \<le> 0 then defaultVal else val)"

text \<open>\<open>IsDue\<close> on the state in the store.\<close>

definition probe_due :: "probe_clock \<Rightarrow> string \<Rightarrow> string \<Rightarrow> string \<Rightarrow> probe option \<Rightarrow> PodStore \<Rightarrow> bool \<times> PodStore" where
  "probe_due k uid c kind pb s = (case pb of
     None \<Rightarrow> (False, s)
   | Some p \<Rightarrow> (case ProbeState s uid c of
       None \<Rightarrow> (False, s)
     | Some ps \<Rightarrow> (case isDue (pc_seed k) (pc_since_start k) (pc_since_last k) (pc_jitter k) ps kind
           (p_PeriodSeconds p) (p_InitialDelaySeconds p) of
         (due, ps') \<Rightarrow> (due, UpdateProbeState uid c (\<lambda>_. ps') s))))"

text \<open>\<open>UpdateProbeState\<close> with \<open>MarkProbed\<close> and an evaluation that may ask for a restart.\<close>

definition eval_probe :: "gotime \<Rightarrow> string \<Rightarrow> (ContainerProbeState \<Rightarrow> bool \<times> ContainerProbeState) \<Rightarrow> string \<Rightarrow> string
    \<Rightarrow> PodStore \<Rightarrow> bool \<times> PodStore" where
  "eval_probe now kind eval uid c s = (case ProbeState s uid c of
     None \<Rightarrow> (False, s)
   | Some ps \<Rightarrow> (case eval (markProbed now ps kind) of
       (restart, ps') \<Rightarrow> (restart, UpdateProbeState uid c (\<lambda>_. ps') s)))"

text \<open>The fact sent after an update, if the container is still tracked.\<close>

definition send_probe :: "string \<Rightarrow> string \<Rightarrow> string \<Rightarrow> probe \<Rightarrow> ProbeResult \<Rightarrow> (ContainerProbeState \<Rightarrow> bool) \<Rightarrow> sched_state \<Rightarrow> sched_state" where
  "send_probe uid c kind p result ready st = (case st of (s, sent) \<Rightarrow> (case ProbeState s uid c of
     None \<Rightarrow> (s, sent)
   | Some updated \<Rightarrow> (s, sent @ [ProbeFact uid c kind (result = ProbeSuccess) (ready updated) (StartupPassed updated)
       (safeThreshold (p_SuccessThreshold p) 1) (safeThreshold (p_FailureThreshold p) 3)])))"

definition probe_startup :: "(string \<Rightarrow> probe_clock) \<Rightarrow> (probe \<Rightarrow> ProbeResult) \<Rightarrow> string \<Rightarrow> string \<Rightarrow> probe \<Rightarrow> sched_state \<Rightarrow> sched_state" where
  "probe_startup k run uid c p st = (case st of (s, sent) \<Rightarrow>
     (case probe_due (k ''startup'') uid c ''startup'' (Some p) s of (due, s1) \<Rightarrow>
       if \<not> due then (s1, sent) else
       let result = run p;
         s2 = snd (eval_probe (pc_mark (k ''startup'')) ''startup'' (\<lambda>ps. EvalStartup ps p result) uid c s1)
       in send_probe uid c ''startup'' p result StartupPassed (s2, sent)))"

definition probe_liveness :: "(string \<Rightarrow> probe_clock) \<Rightarrow> (probe \<Rightarrow> ProbeResult) \<Rightarrow> string \<Rightarrow> string \<Rightarrow> probe option \<Rightarrow> sched_state \<Rightarrow> bool \<times> sched_state" where
  "probe_liveness k run uid c pb st = (case (pb, st) of
     (None, _) \<Rightarrow> (False, st)
   | (Some p, (s, sent)) \<Rightarrow>
     (case probe_due (k ''liveness'') uid c ''liveness'' pb s of (due, s1) \<Rightarrow>
       if \<not> due then (False, (s1, sent)) else
       let result = run p in
       (case eval_probe (pc_mark (k ''liveness'')) ''liveness'' (\<lambda>ps. EvalLiveness ps p result) uid c s1 of (restart, s2) \<Rightarrow>
         let s3 = (if restart then ResetProbeState (pc_reset (k ''liveness'')) uid c s2 else s2)
         in (restart, send_probe uid c ''liveness'' p result (\<lambda>_. \<not> restart) (s3, sent)))))"

definition probe_readiness :: "(string \<Rightarrow> probe_clock) \<Rightarrow> (probe \<Rightarrow> ProbeResult) \<Rightarrow> string \<Rightarrow> string \<Rightarrow> probe option \<Rightarrow> sched_state \<Rightarrow> sched_state" where
  "probe_readiness k run uid c pb st = (case (pb, st) of
     (None, _) \<Rightarrow> st
   | (Some p, (s, sent)) \<Rightarrow>
     (case probe_due (k ''readiness'') uid c ''readiness'' pb s of (due, s1) \<Rightarrow>
       if \<not> due then (s1, sent) else
       let result = run p;
         s2 = snd (eval_probe (pc_mark (k ''readiness'')) ''readiness'' (\<lambda>ps. (False, EvalReadiness ps p result)) uid c s1)
       in send_probe uid c ''readiness'' p result pr_Ready (s2, sent)))"

definition probeContainer :: "(string \<Rightarrow> probe_clock) \<Rightarrow> (probe \<Rightarrow> ProbeResult) \<Rightarrow> string \<Rightarrow> container \<Rightarrow> sched_state \<Rightarrow> sched_state" where
  "probeContainer k run uid c st = (case ProbeState (fst st) uid (c_Name c) of
     None \<Rightarrow> st
   | Some ps \<Rightarrow> (case c_StartupProbe c of
       Some p \<Rightarrow> if \<not> StartupPassed ps then probe_startup k run uid (c_Name c) p st
         else (case probe_liveness k run uid (c_Name c) (c_LivenessProbe c) st of (restart, st1) \<Rightarrow>
           if restart then st1 else probe_readiness k run uid (c_Name c) (c_ReadinessProbe c) st1)
     | None \<Rightarrow> (case probe_liveness k run uid (c_Name c) (c_LivenessProbe c) st of (restart, st1) \<Rightarrow>
           if restart then st1 else probe_readiness k run uid (c_Name c) (c_ReadinessProbe c) st1)))"

section \<open>A cycle\<close>

text \<open>The check before a goroutine is started: startup, then liveness, then readiness.\<close>

definition has_any_due :: "(string \<Rightarrow> probe_clock) \<Rightarrow> string \<Rightarrow> container \<Rightarrow> PodStore \<Rightarrow> bool \<times> PodStore" where
  "has_any_due k uid c s =
     (case probe_due (k ''startup'') uid (c_Name c) ''startup'' (c_StartupProbe c) s of (due, s1) \<Rightarrow>
       if due then (True, s1) else
     (case probe_due (k ''liveness'') uid (c_Name c) ''liveness'' (c_LivenessProbe c) s1 of (due, s2) \<Rightarrow>
       if due then (True, s2) else
      probe_due (k ''readiness'') uid (c_Name c) ''readiness'' (c_ReadinessProbe c) s2))"

type_synonym probe_task = "string \<times> container \<times> string"

definition probed_phase :: "PodPhase \<Rightarrow> bool" where
  "probed_phase phase \<longleftrightarrow> \<not> (phase = PodPending \<or> phase = PodSucceeded \<or> phase = PodFailed)"

text \<open>The (UID, container, IP) triples of a snapshot, in the order of the two loops; \<open>order\<close> is the
  order of the map iteration.\<close>

definition cycle_containers :: "(string \<rightharpoonup> PodEntry) \<Rightarrow> string list \<Rightarrow> probe_task list" where
  "cycle_containers entries order = concat (map (\<lambda>uid. case entries uid of
     None \<Rightarrow> []
   | Some e \<Rightarrow> if probed_phase (pe_Phase e) then map (\<lambda>c. (uid, c, pe_PodIP e)) (pod_Containers (pe_Pod e)) else []) order)"

definition check_container :: "(string \<Rightarrow> string \<Rightarrow> string \<Rightarrow> probe_clock) \<Rightarrow> probe_task \<Rightarrow> PodStore \<times> probe_task list \<Rightarrow> PodStore \<times> probe_task list" where
  "check_container k task acc = (case (task, acc) of ((uid, c, ip), (s, tasks)) \<Rightarrow>
     (case ProbeState s uid (c_Name c) of
       None \<Rightarrow> (s, tasks)
     | Some _ \<Rightarrow> (case has_any_due (k uid (c_Name c)) uid c s of (due, s1) \<Rightarrow>
         (s1, if due then tasks @ [task] else tasks))))"

definition run_task :: "(string \<Rightarrow> string \<Rightarrow> string \<Rightarrow> probe_clock) \<Rightarrow> (probe_task \<Rightarrow> probe \<Rightarrow> ProbeResult) \<Rightarrow> probe_task \<Rightarrow> sched_state \<Rightarrow> sched_state" where
  "run_task k run task st = (case task of (uid, c, ip) \<Rightarrow> probeContainer (k uid (c_Name c)) (run task) uid c st)"

text \<open>\<open>sched\<close> is the order in which the goroutines take effect; tasks that the cancelled context
  stopped are left out of it.\<close>

definition runProbeCycle :: "(string \<Rightarrow> string \<Rightarrow> string \<Rightarrow> probe_clock) \<Rightarrow> (string \<Rightarrow> string \<Rightarrow> string \<Rightarrow> probe_clock)
    \<Rightarrow> (probe_task \<Rightarrow> probe \<Rightarrow> ProbeResult) \<Rightarrow> string list \<Rightarrow> (probe_task list \<Rightarrow> probe_task list) \<Rightarrow> sched_state \<Rightarrow> sched_state" where
  "runProbeCycle kc kp run order sched st = (case st of (s, sent) \<Rightarrow>
     (case fold (check_container kc) (cycle_containers (Snapshot s) order) (s, []) of (s1, tasks) \<Rightarrow>
       fold (run_task kp run) (sched tasks) (s1, sent)))"

end
