(* ===== verification/Batch_Watcher.thy ===== *)
theory Batch_Watcher
  imports Pod_Status Runtime_Status Probe_Scheduler Unit_Names
begin

text \<open>
  The watcher of a pawn's machines, \<open>node/batchwatcher.go\<close>: one listing of the machines per poll,
  compared with the pods of the store; probes, restart policy, terminal phases and the pushes of
  changed statuses. A poll and the handling of a unit event are serialised by \<open>pollMu\<close>, so each is a
  function on the state of the watcher. Restart goroutines run beside them: launching one is an
  action, and \<open>restart_done\<close> is its deferred cleanup. The maps with value \<open>true\<close> are predicates. The
  readings of the clock, the outcome of probes and of file writes, and the order in which the
  store is iterated and the probe goroutines take effect are in a record of the environment; the
  purpose of a reading is a string.
\<close>

section \<open>State\<close>

record BatchWatcher =
  bw_g :: gambit
  prevStateMap :: "string \<rightharpoonup> MachineState"
  prevReady :: "string \<rightharpoonup> bool"
  stateCache :: "string \<rightharpoonup> MachineState"
  sameMap :: bool
  seenRunning :: "string \<Rightarrow> bool"
  restarting :: "string \<Rightarrow> bool"
  pokeCh :: bool

text \<open>A poll publishes its map as \<open>stateCache\<close> and keeps the same map as \<open>prevStateMap\<close>. From then on a
  write into the cache is a write into both; \<open>sameMap\<close> tells whether the two fields hold one map.\<close>

definition put_cache :: "string \<Rightarrow> MachineState \<Rightarrow> BatchWatcher \<Rightarrow> BatchWatcher" where
  "put_cache key state bw = bw\<lparr>stateCache := (stateCache bw)(key \<mapsto> state),
     prevStateMap := (if sameMap bw then (prevStateMap bw)(key \<mapsto> state) else prevStateMap bw)\<rparr>"

record poll_env =
  en_nodeIP :: string
  en_now :: "string \<Rightarrow> string \<Rightarrow> gotime"
  en_write :: "string \<Rightarrow> string \<Rightarrow> bool"
  en_clock :: "string \<Rightarrow> string \<Rightarrow> string \<Rightarrow> string \<Rightarrow> probe_clock"
  en_run :: "string \<Rightarrow> probe_task \<Rightarrow> probe \<Rightarrow> ProbeResult"
  en_order :: "string list"
  en_sched :: "probe_task list \<Rightarrow> probe_task list"

definition container_key :: "string \<Rightarrow> string \<Rightarrow> string" where
  "container_key uid containerName = uid @ ''/'' @ containerName"

abbreviation bw_store :: "BatchWatcher \<Rightarrow> PodStore" where
  "bw_store bw \<equiv> g_store (bw_g bw)"

definition with_store :: "(PodStore \<Rightarrow> PodStore) \<Rightarrow> BatchWatcher \<Rightarrow> BatchWatcher" where
  "with_store f bw = bw\<lparr>bw_g := (bw_g bw)\<lparr>g_store := f (bw_store bw)\<rparr>\<rparr>"

definition bw_act :: "node_action \<Rightarrow> BatchWatcher \<Rightarrow> BatchWatcher" where
  "bw_act a bw = bw\<lparr>bw_g := act a (bw_g bw)\<rparr>"

definition mark_seen :: "string \<Rightarrow> BatchWatcher \<Rightarrow> BatchWatcher" where
  "mark_seen key bw = bw\<lparr>seenRunning := (seenRunning bw)(key := True)\<rparr>"

text \<open>The containers of the hydrated pods that run count as seen.\<close>

definition StartBatchWatcher :: "gambit \<Rightarrow> BatchWatcher" where
  "StartBatchWatcher g = \<lparr>bw_g = g, prevStateMap = Map.empty, prevReady = Map.empty, stateCache = Map.empty, sameMap = False,
     seenRunning = (\<lambda>key. \<exists>uid pd c. GetPods (g_store g) uid = Some pd \<and> store_PodPhase (g_store g) (pod_UID pd) = PodRunning
       \<and> c \<in> set (pod_Containers pd) \<and> key = container_key (pod_UID pd) (c_Name c)),
     restarting = (\<lambda>_. False), pokeCh = False\<rparr>"

definition Poke :: "BatchWatcher \<Rightarrow> BatchWatcher" where
  "Poke bw = bw\<lparr>pokeCh := True\<rparr>"

definition MarkRunning :: "string \<Rightarrow> string \<Rightarrow> BatchWatcher \<Rightarrow> BatchWatcher" where
  "MarkRunning uid containerName bw = mark_seen (container_key uid containerName) bw"

definition ContainerState_bw :: "BatchWatcher \<Rightarrow> string \<Rightarrow> string \<Rightarrow> MachineState" where
  "ContainerState_bw bw uid containerName = (case stateCache bw (container_key uid containerName) of
     Some st \<Rightarrow> st | None \<Rightarrow> StateUnknown)"

definition isInitContainer :: "pod \<Rightarrow> string \<Rightarrow> bool" where
  "isInitContainer pd containerName \<longleftrightarrow> list_ex (\<lambda>c. c_Name c = containerName) (pod_InitContainers pd)"

section \<open>Restarts\<close>

definition maybeRestart :: "string \<Rightarrow> string \<Rightarrow> BatchWatcher \<Rightarrow> BatchWatcher" where
  "maybeRestart uid containerName bw = (let key = container_key uid containerName in
     if IsDeleting (bw_store bw) uid then bw
     else if restarting bw key then bw
     else case BumpBackoff uid containerName (bw_store bw) of ((count, backoff), s') \<Rightarrow>
       let bw1 = with_store (\<lambda>_. s') (bw\<lparr>restarting := (restarting bw)(key := True)\<rparr>) in
       if count = 0 then bw1\<lparr>restarting := (restarting bw1)(key := False)\<rparr>
       else bw_act (LaunchRestart uid containerName count backoff) bw1)"

text \<open>The deferred cleanup of the goroutine.\<close>

definition restart_done :: "string \<Rightarrow> string \<Rightarrow> BatchWatcher \<Rightarrow> BatchWatcher" where
  "restart_done uid containerName bw =
     bw_act (RestartDone uid containerName) (bw\<lparr>restarting := (restarting bw)(container_key uid containerName := False)\<rparr>)"

section \<open>Probes\<close>

definition bw_startup :: "(string \<Rightarrow> probe_clock) \<Rightarrow> (probe \<Rightarrow> ProbeResult) \<Rightarrow> string \<Rightarrow> string \<Rightarrow> probe \<Rightarrow> BatchWatcher \<Rightarrow> BatchWatcher" where
  "bw_startup k run uid c p bw = (case probe_due (k ''startup'') uid c ''startup'' (Some p) (bw_store bw) of (due, s1) \<Rightarrow>
     if \<not> due then with_store (\<lambda>_. s1) bw else
     let result = run p in
     case eval_probe (pc_mark (k ''startup'')) ''startup'' (\<lambda>ps. EvalStartup ps p result) uid c s1 of (restart, s2) \<Rightarrow>
       let bw2 = with_store (\<lambda>_. s2) bw;
         bw3 = (case ProbeState s2 uid c of
             None \<Rightarrow> bw2
           | Some ps \<Rightarrow>
               if result = ProbeSuccess \<and> StartupPassed ps then bw_act (PodEvent uid EventTypeNormal ''Started'' c []) bw2
               else if result = ProbeFailure
               then bw_act (PodEvent uid EventTypeWarning ''Unhealthy'' c [StartupFailCount ps, p_FailureThreshold p]) bw2
               else bw2)
       in if restart then maybeRestart uid c bw3 else bw3)"

definition bw_liveness :: "(string \<Rightarrow> probe_clock) \<Rightarrow> (probe \<Rightarrow> ProbeResult) \<Rightarrow> string \<Rightarrow> string \<Rightarrow> probe option \<Rightarrow> BatchWatcher
    \<Rightarrow> bool \<times> BatchWatcher" where
  "bw_liveness k run uid c pb bw = (case pb of
     None \<Rightarrow> (False, bw)
   | Some p \<Rightarrow> (case probe_due (k ''liveness'') uid c ''liveness'' pb (bw_store bw) of (due, s1) \<Rightarrow>
     if \<not> due then (False, with_store (\<lambda>_. s1) bw) else
     let result = run p in
     case eval_probe (pc_mark (k ''liveness'')) ''liveness'' (\<lambda>ps. EvalLiveness ps p result) uid c s1 of (restart, s2) \<Rightarrow>
       let s3 = (if restart then ResetProbeState (pc_reset (k ''liveness'')) uid c s2 else s2);
         bw3 = with_store (\<lambda>_. s3) bw;
         bw4 = (if result = ProbeFailure then (case ProbeState s3 uid c of
             None \<Rightarrow> bw3
           | Some ps \<Rightarrow> bw_act (PodEvent uid EventTypeWarning ''Unhealthy'' c [LiveFailCount ps, p_FailureThreshold p]) bw3) else bw3)
       in (restart, if restart then maybeRestart uid c bw4 else bw4)))"

text \<open>\<open>wasReady\<close> is read through the pointer before the update.\<close>

definition bw_readiness :: "(string \<Rightarrow> probe_clock) \<Rightarrow> (probe \<Rightarrow> ProbeResult) \<Rightarrow> string \<Rightarrow> string \<Rightarrow> probe option \<Rightarrow> BatchWatcher \<Rightarrow> BatchWatcher" where
  "bw_readiness k run uid c pb bw = (case pb of
     None \<Rightarrow> bw
   | Some p \<Rightarrow> (case probe_due (k ''readiness'') uid c ''readiness'' pb (bw_store bw) of (due, s1) \<Rightarrow>
     if \<not> due then with_store (\<lambda>_. s1) bw else
     let result = run p;
       ready = (\<lambda>s. case ProbeState s uid c of Some ps \<Rightarrow> pr_Ready ps | None \<Rightarrow> False);
       s2 = snd (eval_probe (pc_mark (k ''readiness'')) ''readiness'' (\<lambda>ps. (False, EvalReadiness ps p result)) uid c s1);
       bw2 = with_store (\<lambda>_. s2) bw;
       bw3 = (if result = ProbeFailure then bw_act (PodEvent uid EventTypeWarning ''Unhealthy'' c []) bw2 else bw2)
     in if \<not> ready s1 \<and> ready s2 then bw_act (PodEvent uid EventTypeNormal ''ProbeReady'' c []) bw3 else bw3))"

definition runProbes :: "(string \<Rightarrow> probe_clock) \<Rightarrow> (probe \<Rightarrow> ProbeResult) \<Rightarrow> string \<Rightarrow> container \<Rightarrow> BatchWatcher \<Rightarrow> BatchWatcher" where
  "runProbes k run uid c bw = (let
     rest = (case bw_liveness k run uid (c_Name c) (c_LivenessProbe c) bw of (restart, bw1) \<Rightarrow>
       if restart then bw1 else bw_readiness k run uid (c_Name c) (c_ReadinessProbe c) bw1)
   in case ProbeState (bw_store bw) uid (c_Name c) of
     None \<Rightarrow> bw
   | Some ps \<Rightarrow> (case c_StartupProbe c of
       Some p \<Rightarrow> if \<not> StartupPassed ps then bw_startup k run uid (c_Name c) p bw else rest
     | None \<Rightarrow> rest))"

section \<open>Looking up states\<close>

definition makeStateLookup :: "BatchWatcher \<Rightarrow> (string \<rightharpoonup> MachineState) \<Rightarrow> string \<Rightarrow> string \<Rightarrow> MachineState" where
  "makeStateLookup bw stateMap uid containerName = (let key = container_key uid containerName in
     case stateMap key of
       Some st \<Rightarrow> st
     | None \<Rightarrow> if restarting bw key then StateFailed else if seenRunning bw key then StateExited else StateUnknown)"

text \<open>Status computed for the current pod and pushed.\<close>

definition push_status :: "poll_env \<Rightarrow> string \<Rightarrow> string \<Rightarrow> pod \<Rightarrow> pod_status \<Rightarrow> BatchWatcher \<Rightarrow> BatchWatcher" where
  "push_status env purpose uid pd status bw =
     bw\<lparr>bw_g := notifyPodStatus (en_write env purpose uid) (pd\<lparr>pod_Status := status\<rparr>) (bw_g bw)\<rparr>"

section \<open>One pod\<close>

definition restartBackoffReset :: duration where "restartBackoffReset = 10 * Minute"

definition check_running :: "poll_env \<Rightarrow> string \<Rightarrow> string \<Rightarrow> container \<Rightarrow> BatchWatcher \<Rightarrow> BatchWatcher" where
  "check_running env uid podIP c bw = (let
     key = container_key uid (c_Name c);
     bw1 = mark_seen key bw;
     bw2 = (case RestartState (bw_store bw1) uid (c_Name c) of
         Some rs \<Rightarrow> if restartBackoffReset < time_sub (en_now env ''since'' key) (rs_lastStarted rs)
           then with_store (ResetBackoff uid (c_Name c)) bw1 else bw1
       | None \<Rightarrow> bw1)
   in runProbes (en_clock env ''check'' uid (c_Name c)) (en_run env ''check'' (uid, c, podIP)) uid c bw2)"

text \<open>A container that is not running any more: its stored state is cleared, and an event is
  recorded when the state is new.\<close>

definition check_stopped :: "poll_env \<Rightarrow> string \<Rightarrow> container \<Rightarrow> MachineState \<Rightarrow> int \<Rightarrow> BatchWatcher \<Rightarrow> BatchWatcher" where
  "check_stopped env uid c state code bw = (let
     key = container_key uid (c_Name c);
     bw1 = with_store (SetContainerState (en_now env ''stopped'' key) uid (c_Name c) (waiting_state []) False) bw
   in if prevStateMap bw1 key = Some state then bw1
      else if state = StateExited \<and> code = 0 then bw_act (PodEvent uid EventTypeNormal ''Completed'' (c_Name c) [code]) bw1
      else bw_act (PodEvent uid EventTypeWarning ''Failed'' (c_Name c) [code]) bw1)"

record pod_check =
  allExited :: bool
  allSucceeded :: bool
  anyRestarting :: bool

definition check_container_state :: "poll_env \<Rightarrow> (string \<rightharpoonup> MachineState) \<Rightarrow> (string \<rightharpoonup> int) \<Rightarrow> string \<Rightarrow> string \<Rightarrow> RestartPolicy \<Rightarrow> container
    \<Rightarrow> pod_check \<times> BatchWatcher \<Rightarrow> pod_check \<times> BatchWatcher" where
  "check_container_state env stateMap exitCodeMap uid podIP policy c acc = (case acc of (ck, bw) \<Rightarrow> let
     key = container_key uid (c_Name c);
     exists = (stateMap key \<noteq> None);
     state = (case stateMap key of Some st \<Rightarrow> st | None \<Rightarrow> StateExited);
     code = (case exitCodeMap key of Some n \<Rightarrow> n | None \<Rightarrow> 0);
     unseen = (\<not> seenRunning bw key \<and> (state = StateExited \<or> state = StateUnknown));
     fast_exit = (exists \<and> state = StateExited \<and> code = 0)
   in if restarting bw key \<or> unseen \<and> \<not> fast_exit then (ck\<lparr>allExited := False, allSucceeded := False\<rparr>, bw)
      else let bw1 = (if unseen then mark_seen key bw else bw) in
      case state of
        StateRunning \<Rightarrow> (ck\<lparr>allExited := False, allSucceeded := False\<rparr>, check_running env uid podIP c bw1)
      | StateCreating \<Rightarrow> (ck\<lparr>allExited := False, allSucceeded := False\<rparr>, bw1)
      | StateFailed \<Rightarrow> (let bw2 = check_stopped env uid c StateFailed code bw1 in
          if policy = RestartPolicyAlways \<or> policy = RestartPolicyOnFailure
          then (ck\<lparr>allExited := False, allSucceeded := False, anyRestarting := True\<rparr>, maybeRestart uid (c_Name c) bw2)
          else (ck\<lparr>allSucceeded := False\<rparr>, bw2))
      | StateExited \<Rightarrow> (let bw2 = check_stopped env uid c StateExited code bw1 in
          if policy = RestartPolicyAlways
          then (ck\<lparr>allExited := False, anyRestarting := True\<rparr>, maybeRestart uid (c_Name c) bw2)
          else (ck, bw2))
      | StateUnknown \<Rightarrow> (ck, bw1))"

text \<open>The push of a status with containers in back-off.\<close>

definition push_backoff :: "poll_env \<Rightarrow> (string \<rightharpoonup> MachineState) \<Rightarrow> string \<Rightarrow> BatchWatcher \<Rightarrow> BatchWatcher" where
  "push_backoff env stateMap uid bw = (case GetPodCopy (bw_store bw) uid of
     None \<Rightarrow> bw
   | Some pd \<Rightarrow> let status = buildPodStatus (\<lambda>c. en_now env ''backoff'' (container_key uid c)) (en_nodeIP env) (bw_store bw) pd
         (makeStateLookup bw stateMap) in
       if ps_Phase status = PodRunning then push_status env ''backoff'' uid pd status bw else bw)"

definition set_terminal :: "poll_env \<Rightarrow> (string \<rightharpoonup> MachineState) \<Rightarrow> string \<Rightarrow> PodPhase \<Rightarrow> pod \<Rightarrow> BatchWatcher \<Rightarrow> BatchWatcher" where
  "set_terminal env stateMap uid terminalPhase pd bw = (let
     lookup = (\<lambda>u cn. case stateMap (container_key u cn) of Some st \<Rightarrow> st | None \<Rightarrow> StateExited);
     bw1 = with_store (SetPhase uid terminalPhase) bw;
     bw2 = (case GetPodCopy (bw_store bw1) uid of
         None \<Rightarrow> bw1
       | Some cur \<Rightarrow> push_status env ''terminal'' uid cur
           ((buildPodStatus (\<lambda>c. en_now env ''terminal'' (container_key uid c)) (en_nodeIP env) (bw_store bw1) cur lookup)
             \<lparr>ps_Phase := terminalPhase\<rparr>) bw1)
   in fold (\<lambda>c. bw_act (ResetFailedUnit uid (c_Name c))) (pod_Containers pd) bw2)"

definition checkPod :: "poll_env \<Rightarrow> (string \<rightharpoonup> MachineState) \<Rightarrow> (string \<rightharpoonup> int) \<Rightarrow> string \<Rightarrow> pod \<Rightarrow> string \<Rightarrow> BatchWatcher \<Rightarrow> BatchWatcher" where
  "checkPod env stateMap exitCodeMap uid pd podIP bw =
     (case fold (check_container_state env stateMap exitCodeMap uid podIP (effective_policy pd)) (pod_Containers pd)
         (\<lparr>allExited = True, allSucceeded = True, anyRestarting = False\<rparr>, bw) of (ck, bw1) \<Rightarrow>
       let bw2 = (if anyRestarting ck \<and> \<not> IsDeleting (bw_store bw1) uid then push_backoff env stateMap uid bw1 else bw1) in
       if \<not> allExited ck then bw2
       else set_terminal env stateMap uid (if allSucceeded ck then PodSucceeded else PodFailed) pd bw2)"

section \<open>A poll\<close>

definition state_index :: "PodMetadata list \<Rightarrow> string \<rightharpoonup> MachineState" where
  "state_index machines = map_of (rev (map (\<lambda>m. (container_key (m_UID m) (m_ContainerName m), m_State m)) machines))"

definition exit_index :: "PodMetadata list \<Rightarrow> string \<rightharpoonup> int" where
  "exit_index machines = map_of (rev (map (\<lambda>m. (container_key (m_UID m) (m_ContainerName m), m_ExitCode m)) machines))"

text \<open>The fan-out: the containers whose machine runs, checked one after the other, then the probe
  goroutines of those with a probe due.\<close>

definition running_tasks :: "(string \<rightharpoonup> MachineState) \<Rightarrow> (string \<rightharpoonup> PodEntry) \<Rightarrow> string list \<Rightarrow> probe_task list" where
  "running_tasks stateMap entries order = filter (\<lambda>(uid, c, ip). stateMap (container_key uid (c_Name c)) = Some StateRunning)
     (cycle_containers entries order)"

definition probe_fanout :: "poll_env \<Rightarrow> (string \<rightharpoonup> MachineState) \<Rightarrow> (string \<rightharpoonup> PodEntry) \<Rightarrow> BatchWatcher \<Rightarrow> BatchWatcher" where
  "probe_fanout env stateMap entries bw =
     (case fold (check_container (en_clock env ''due'')) (running_tasks stateMap entries (en_order env)) (bw_store bw, []) of
       (s1, tasks) \<Rightarrow> fold (\<lambda>(uid, c, ip). runProbes (en_clock env ''fanout'' uid (c_Name c)) (en_run env ''fanout'' (uid, c, ip)) uid c)
         (en_sched env tasks) (with_store (\<lambda>_. s1) bw))"

text \<open>The coalescer: did the state or the readiness of a container change?\<close>

definition note_change :: "(string \<rightharpoonup> MachineState) \<Rightarrow> string \<Rightarrow> container \<Rightarrow> bool \<times> BatchWatcher \<Rightarrow> bool \<times> BatchWatcher" where
  "note_change stateMap uid c acc = (case acc of (changed, bw) \<Rightarrow> let
     key = container_key uid (c_Name c);
     changed1 = (changed \<or> prevStateMap bw key = None \<or> prevStateMap bw key \<noteq> stateMap key);
     ready = IsContainerReady (bw_store bw) uid (c_Name c)
   in if stateMap key = Some StateRunning \<and> ProbeState (bw_store bw) uid (c_Name c) \<noteq> None \<and> prevReady bw key \<noteq> Some ready
      then (True, bw\<lparr>prevReady := (prevReady bw)(key \<mapsto> ready)\<rparr>)
      else (changed1, bw))"

definition needs_reeval :: "(string \<rightharpoonup> MachineState) \<Rightarrow> string \<Rightarrow> pod \<Rightarrow> BatchWatcher \<Rightarrow> bool" where
  "needs_reeval stateMap uid pd bw \<longleftrightarrow> list_ex (\<lambda>c. let key = container_key uid (c_Name c) in
     prevStateMap bw key \<noteq> None \<and> stateMap key \<noteq> None \<and> prevStateMap bw key \<noteq> stateMap key) (pod_Containers pd)"

definition check_entry :: "poll_env \<Rightarrow> (string \<rightharpoonup> MachineState) \<Rightarrow> (string \<rightharpoonup> int) \<Rightarrow> (string \<rightharpoonup> PodEntry) \<Rightarrow> string
    \<Rightarrow> string list \<times> BatchWatcher \<Rightarrow> string list \<times> BatchWatcher" where
  "check_entry env stateMap exitCodeMap entries uid acc = (case (entries uid, acc) of
     (None, _) \<Rightarrow> acc
   | (Some e, (changedPods, bw)) \<Rightarrow>
       if pe_Phase e = PodPending then acc
       else if IsDeleting (bw_store bw) uid then acc
       else if terminal_phase (pe_Phase e) \<and> \<not> needs_reeval stateMap uid (pe_Pod e) bw then acc
       else if pod_Containers (pe_Pod e) = [] then acc
       else (case fold (note_change stateMap uid) (pod_Containers (pe_Pod e)) (False, bw) of (changed, bw1) \<Rightarrow>
         (if changed then uid # changedPods else changedPods,
          checkPod env stateMap exitCodeMap uid (pe_Pod e) (pe_PodIP e) bw1)))"

definition coalesce :: "poll_env \<Rightarrow> (string \<rightharpoonup> MachineState) \<Rightarrow> string list \<Rightarrow> string \<Rightarrow> BatchWatcher \<Rightarrow> BatchWatcher" where
  "coalesce env stateMap changedPods uid bw =
     (if uid \<notin> set changedPods then bw
      else let phase = store_PodPhase (bw_store bw) uid in
      if phase = PodPending \<or> terminal_phase phase then bw
      else case GetPodCopy (bw_store bw) uid of
        None \<Rightarrow> bw
      | Some pd \<Rightarrow> push_status env ''coalesce'' uid pd
          (buildPodStatus (\<lambda>c. en_now env ''coalesce'' (container_key uid c)) (en_nodeIP env) (bw_store bw) pd (makeStateLookup bw stateMap)) bw)"

definition active_key :: "(string \<rightharpoonup> PodEntry) \<Rightarrow> string list \<Rightarrow> string \<Rightarrow> bool" where
  "active_key entries order key \<longleftrightarrow> list_ex (\<lambda>uid. case entries uid of
     None \<Rightarrow> False
   | Some e \<Rightarrow> list_ex (\<lambda>c. key = container_key uid (c_Name c)) (pod_Containers (pe_Pod e))) order"

definition rotate_maps :: "(string \<rightharpoonup> MachineState) \<Rightarrow> (string \<rightharpoonup> PodEntry) \<Rightarrow> string list \<Rightarrow> BatchWatcher \<Rightarrow> BatchWatcher" where
  "rotate_maps stateMap entries order bw = bw\<lparr>prevStateMap := stateMap, sameMap := True,
     prevReady := (\<lambda>k. if active_key entries order k then prevReady bw k else None),
     seenRunning := (\<lambda>k. active_key entries order k \<and> seenRunning bw k)\<rparr>"

definition poll :: "poll_env \<Rightarrow> PodMetadata list option \<Rightarrow> BatchWatcher \<Rightarrow> BatchWatcher" where
  "poll env listed bw = (case listed of
     None \<Rightarrow> bw
   | Some machines \<Rightarrow> let
       stateMap = state_index machines;
       bw1 = bw\<lparr>stateCache := stateMap, sameMap := False\<rparr>;
       entries = Snapshot (bw_store bw1);
       bw2 = probe_fanout env stateMap entries bw1
     in case fold (check_entry env stateMap (exit_index machines) entries) (en_order env) ([], bw2) of (changedPods, bw3) \<Rightarrow>
       rotate_maps stateMap entries (en_order env) (fold (coalesce env stateMap changedPods) (en_order env) bw3))"

section \<open>Unit events\<close>

definition substate_starting :: "string \<Rightarrow> bool" where
  "substate_starting sub \<longleftrightarrow> sub = ''start-pre'' \<or> sub = ''start'' \<or> sub = ''start-post''"

definition substate_state :: "string \<Rightarrow> MachineState option" where
  "substate_state sub = (if sub = ''running'' then Some StateRunning
     else if sub = ''failed'' then Some StateFailed
     else if substate_starting sub then Some StateCreating else None)"

text \<open>The informational event of a stop; \<open>pd\<close> is the pod, if it is known.\<close>

definition stop_event :: "string \<Rightarrow> string \<Rightarrow> string \<Rightarrow> pod option \<Rightarrow> BatchWatcher \<Rightarrow> BatchWatcher" where
  "stop_event uid c sub pd bw = (if pd = None then bw
     else if sub = ''stop-sigterm'' \<or> sub = ''stop-watchdog'' then bw_act (PodEvent uid EventTypeNormal ''Killing'' c []) bw
     else if sub = ''stop-sigkill'' \<or> sub = ''stop-kill'' then bw_act (PodEvent uid EventTypeWarning ''Killing'' c []) bw
     else bw)"

definition unit_transition :: "string \<Rightarrow> string \<Rightarrow> MachineState \<Rightarrow> pod option \<Rightarrow> BatchWatcher \<Rightarrow> bool \<times> BatchWatcher" where
  "unit_transition uid c state pd bw = (let
     key = container_key uid c;
     isInit = (case pd of Some p \<Rightarrow> isInitContainer p c | None \<Rightarrow> False);
     bw1 = (if state = StateRunning then mark_seen key bw else bw);
     prev = stateCache bw1 key;
     bw2 = put_cache key state bw1
   in if prev = Some state then (False, bw2)
      else (state = StateRunning \<and> \<not> isInit \<or> state = StateFailed,
        if state = StateRunning \<and> pd \<noteq> None
        then bw_act (PodEvent uid EventTypeNormal (if isInit then ''InitStarted'' else ''Started'') c []) bw2 else bw2))"

text \<open>\<open>send\<close> tells whether an event bus is wired; \<open>listed\<close> is what a poll would see.\<close>

definition handleUnitEvent :: "poll_env \<Rightarrow> string \<Rightarrow> bool \<Rightarrow> PodMetadata list option \<Rightarrow> string \<Rightarrow> string \<Rightarrow> BatchWatcher \<Rightarrow> BatchWatcher" where
  "handleUnitEvent env pawnName send listed unitName sub bw =
     (if take (length (''perigeos-'' @ pawnName @ ''-'')) unitName \<noteq> ''perigeos-'' @ pawnName @ ''-'' then bw
      else case ParseUnitName pawnName unitName of
        None \<Rightarrow> bw
      | Some (uid, c) \<Rightarrow> if uid = [] then bw else let
          pd = GetPodCopy (bw_store bw) uid;
          bw1 = (if sub \<noteq> ''running'' \<and> \<not> substate_starting sub
            then with_store (SetContainerState (en_now env ''event'' (container_key uid c)) uid c (waiting_state []) False) bw else bw);
          bw2 = stop_event uid c sub pd bw1;
          bw3 = (if send then bw_act (EmitFact (UnitFact uid unitName sub 0)) bw2 else bw2)
        in case substate_state sub of
          None \<Rightarrow> bw3
        | Some state \<Rightarrow> (case unit_transition uid c state pd bw3 of (trigger, bw4) \<Rightarrow>
            if trigger then poll env listed bw4 else bw4))"

end
