(* ===== verification/Probe_Scheduler_Props.thy ===== *)
theory Probe_Scheduler_Props
  imports Probe_Scheduler "HOL-Library.Multiset"
begin

text \<open>
  The probe scheduler works on one entry of the store at a time: probing a container is a function
  of its probe state, lifted to the store. From this follow the gate of the startup probe and that
  the order of the goroutines of a cycle does not matter.
\<close>

section \<open>The store's probe states\<close>

lemma ProbeState_Update_same [simp]: "ProbeState (UpdateProbeState u c f s) u c = map_option f (ProbeState s u c)"
  by (simp add: ProbeState_def UpdateProbeState_def getPodState_def with_pod_def split: option.split)

lemma ProbeState_Update_other [simp]:
  "(u', c') \<noteq> (u, c) \<Longrightarrow> ProbeState (UpdateProbeState u c f s) u' c' = ProbeState s u' c'"
  by (auto simp: ProbeState_def UpdateProbeState_def getPodState_def with_pod_def split: option.split)

lemma map_option_o: "map_option f (map_option g x) = map_option (\<lambda>y. f (g y)) x"
  by (simp add: option.map_comp comp_def)

lemma Update_Update [simp]:
  "UpdateProbeState u c f (UpdateProbeState u c g s) = UpdateProbeState u c (\<lambda>x. f (g x)) s"
  by (simp add: UpdateProbeState_def with_pod_def map_option_o split: option.split)

lemma Update_const:
  assumes "ProbeState s u c = Some ps"
  shows "UpdateProbeState u c f s = UpdateProbeState u c (\<lambda>_. f ps) s"
  using assms by (auto simp: UpdateProbeState_def ProbeState_def getPodState_def with_pod_def split: option.splits)

lemma Update_id:
  assumes "ProbeState s u c = Some ps"
  shows "UpdateProbeState u c (\<lambda>_. ps) s = s"
proof -
  from assms obtain e m where e: "pods s u = Some e" "e_probes e = Some m" "m c = Some ps"
    by (auto simp: ProbeState_def getPodState_def split: option.splits)
  then have "m(c \<mapsto> ps) = m" by auto
  with e have "e\<lparr>e_probes := Some (m(c \<mapsto> ps))\<rparr> = e" by simp
  moreover have "(pods s)(u \<mapsto> e) = pods s" using e(1) by auto
  ultimately show ?thesis using e by (simp add: UpdateProbeState_def with_pod_def)
qed

lemma Reset_Update:
  assumes "ProbeState s u c = Some ps"
  shows "ResetProbeState now u c s = UpdateProbeState u c (\<lambda>_. zero_ProbeState\<lparr>StartedAt := now\<rparr>) s"
  using assms by (auto simp: ResetProbeState_def UpdateProbeState_def ProbeState_def getPodState_def with_pod_def split: option.splits)

lemma Update_commute:
  assumes "(u, c) \<noteq> (u', c')"
  shows "UpdateProbeState u c f (UpdateProbeState u' c' g s) = UpdateProbeState u' c' g (UpdateProbeState u c f s)"
  using assms
  by (cases "u = u'") (auto simp: UpdateProbeState_def with_pod_def map_option_o fun_upd_twist split: option.split intro!: option.map_cong)

section \<open>Probing as a function of the container's state\<close>

definition due_ps :: "probe_clock \<Rightarrow> string \<Rightarrow> probe \<Rightarrow> ContainerProbeState \<Rightarrow> bool \<times> ContainerProbeState" where
  "due_ps k kind p ps = isDue (pc_seed k) (pc_since_start k) (pc_since_last k) (pc_jitter k) ps kind
     (p_PeriodSeconds p) (p_InitialDelaySeconds p)"

definition probe_fact :: "string \<Rightarrow> string \<Rightarrow> string \<Rightarrow> probe \<Rightarrow> ProbeResult \<Rightarrow> bool \<Rightarrow> bool \<Rightarrow> Fact" where
  "probe_fact u c kind p result ready startup = ProbeFact u c kind (result = ProbeSuccess) ready startup
     (safeThreshold (p_SuccessThreshold p) 1) (safeThreshold (p_FailureThreshold p) 3)"

definition startup_ps :: "probe_clock \<Rightarrow> ProbeResult \<Rightarrow> string \<Rightarrow> string \<Rightarrow> probe \<Rightarrow> ContainerProbeState \<Rightarrow> ContainerProbeState \<times> Fact list" where
  "startup_ps k r u c p ps = (let d = due_ps k ''startup'' p ps in
     if \<not> fst d then (snd d, []) else
     let ps2 = snd (EvalStartup (markProbed (pc_mark k) (snd d) ''startup'') p r)
     in (ps2, [probe_fact u c ''startup'' p r (StartupPassed ps2) (StartupPassed ps2)]))"

definition liveness_ps :: "probe_clock \<Rightarrow> ProbeResult \<Rightarrow> string \<Rightarrow> string \<Rightarrow> probe \<Rightarrow> ContainerProbeState \<Rightarrow> bool \<times> ContainerProbeState \<times> Fact list" where
  "liveness_ps k r u c p ps = (let d = due_ps k ''liveness'' p ps in
     if \<not> fst d then (False, snd d, []) else
     let e = EvalLiveness (markProbed (pc_mark k) (snd d) ''liveness'') p r;
       ps2 = (if fst e then zero_ProbeState\<lparr>StartedAt := pc_reset k\<rparr> else snd e)
     in (fst e, ps2, [probe_fact u c ''liveness'' p r (\<not> fst e) (StartupPassed ps2)]))"

definition readiness_ps :: "probe_clock \<Rightarrow> ProbeResult \<Rightarrow> string \<Rightarrow> string \<Rightarrow> probe \<Rightarrow> ContainerProbeState \<Rightarrow> ContainerProbeState \<times> Fact list" where
  "readiness_ps k r u c p ps = (let d = due_ps k ''readiness'' p ps in
     if \<not> fst d then (snd d, []) else
     let ps2 = EvalReadiness (markProbed (pc_mark k) (snd d) ''readiness'') p r
     in (ps2, [probe_fact u c ''readiness'' p r (pr_Ready ps2) (StartupPassed ps2)]))"

definition main_ps :: "(string \<Rightarrow> probe_clock) \<Rightarrow> (probe \<Rightarrow> ProbeResult) \<Rightarrow> string \<Rightarrow> container \<Rightarrow> ContainerProbeState \<Rightarrow> ContainerProbeState \<times> Fact list" where
  "main_ps k run u c ps = (let
     l = (case c_LivenessProbe c of Some p \<Rightarrow> liveness_ps (k ''liveness'') (run p) u (c_Name c) p ps | None \<Rightarrow> (False, ps, []));
     r = (case c_ReadinessProbe c of Some p \<Rightarrow> readiness_ps (k ''readiness'') (run p) u (c_Name c) p (fst (snd l)) | None \<Rightarrow> (fst (snd l), []))
   in if fst l then snd l else (fst r, snd (snd l) @ snd r))"

definition probe_ps :: "(string \<Rightarrow> probe_clock) \<Rightarrow> (probe \<Rightarrow> ProbeResult) \<Rightarrow> string \<Rightarrow> container \<Rightarrow> ContainerProbeState \<Rightarrow> ContainerProbeState \<times> Fact list" where
  "probe_ps k run u c ps = (case c_StartupProbe c of
     Some p \<Rightarrow> if \<not> StartupPassed ps then startup_ps (k ''startup'') (run p) u (c_Name c) p ps else main_ps k run u c ps
   | None \<Rightarrow> main_ps k run u c ps)"

text \<open>The store with the state of one container replaced, and more facts sent.\<close>

definition lift_ps :: "string \<Rightarrow> string \<Rightarrow> ContainerProbeState \<times> Fact list \<Rightarrow> sched_state \<Rightarrow> sched_state" where
  "lift_ps u c r st = (UpdateProbeState u c (\<lambda>_. fst r) (fst st), snd st @ snd r)"

lemma probe_due_lift:
  "ProbeState s u c = Some ps \<Longrightarrow> probe_due k u c kind (Some p) s =
     (fst (due_ps k kind p ps), UpdateProbeState u c (\<lambda>_. snd (due_ps k kind p ps)) s)"
  by (simp add: probe_due_def due_ps_def split_beta)

lemma eval_probe_lift:
  "ProbeState s u c = Some ps \<Longrightarrow> eval_probe now kind ev u c s =
     (fst (ev (markProbed now ps kind)), UpdateProbeState u c (\<lambda>_. snd (ev (markProbed now ps kind))) s)"
  by (simp add: eval_probe_def split_beta)

lemma send_probe_lift:
  "ProbeState s u c = Some ps \<Longrightarrow> send_probe u c kind p r ready (s, sent) =
     (s, sent @ [probe_fact u c kind p r (ready ps) (StartupPassed ps)])"
  by (simp add: send_probe_def probe_fact_def)

lemmas lift_simps = probe_due_lift eval_probe_lift send_probe_lift Let_def lift_ps_def

lemma probe_startup_lift:
  assumes "ProbeState (fst st) u c = Some ps"
  shows "probe_startup k run u c p st = lift_ps u c (startup_ps (k ''startup'') (run p) u c p ps) st"
  using assms by (cases st) (simp add: probe_startup_def startup_ps_def lift_simps)

lemma probe_liveness_lift:
  assumes "ProbeState (fst st) u c = Some ps"
  shows "probe_liveness k run u c (Some p) st =
    (fst (liveness_ps (k ''liveness'') (run p) u c p ps), lift_ps u c (snd (liveness_ps (k ''liveness'') (run p) u c p ps)) st)"
  using assms by (cases st) (simp add: probe_liveness_def liveness_ps_def Reset_Update lift_simps)

lemma probe_readiness_lift:
  assumes "ProbeState (fst st) u c = Some ps"
  shows "probe_readiness k run u c (Some p) st = lift_ps u c (readiness_ps (k ''readiness'') (run p) u c p ps) st"
  using assms by (cases st) (simp add: probe_readiness_def readiness_ps_def lift_simps)

lemma lift_ps_state: "ProbeState (fst st) u c = Some ps \<Longrightarrow> ProbeState (fst (lift_ps u c r st)) u c = Some (fst r)"
  by (simp add: lift_ps_def)

lemma lift_lift [simp]: "lift_ps u c r2 (lift_ps u c r1 st) = lift_ps u c (fst r2, snd r1 @ snd r2) st"
  by (simp add: lift_ps_def)

lemma lift_id: "ProbeState (fst st) u c = Some ps \<Longrightarrow> lift_ps u c (ps, []) st = st"
  by (simp add: lift_ps_def Update_id)

lemma main_lift:
  assumes "ProbeState (fst st) u (c_Name c) = Some ps"
  shows "(case probe_liveness k run u (c_Name c) (c_LivenessProbe c) st of (restart, st1) \<Rightarrow>
      if restart then st1 else probe_readiness k run u (c_Name c) (c_ReadinessProbe c) st1) =
    lift_ps u (c_Name c) (main_ps k run u c ps) st"
proof -
  define l where "l = (case c_LivenessProbe c of Some p \<Rightarrow> liveness_ps (k ''liveness'') (run p) u (c_Name c) p ps | None \<Rightarrow> (False, ps, []))"
  have live: "probe_liveness k run u (c_Name c) (c_LivenessProbe c) st = (fst l, lift_ps u (c_Name c) (snd l) st)"
    using assms by (simp add: l_def probe_liveness_lift lift_id split: option.split) (simp add: probe_liveness_def)
  have state: "ProbeState (fst (lift_ps u (c_Name c) (snd l) st)) u (c_Name c) = Some (fst (snd l))"
    using assms by (rule lift_ps_state)
  have ready: "probe_readiness k run u (c_Name c) (c_ReadinessProbe c) (lift_ps u (c_Name c) (snd l) st) =
      lift_ps u (c_Name c) (case c_ReadinessProbe c of
          Some p \<Rightarrow> readiness_ps (k ''readiness'') (run p) u (c_Name c) p (fst (snd l)) | None \<Rightarrow> (fst (snd l), []))
        (lift_ps u (c_Name c) (snd l) st)"
    using probe_readiness_lift [OF state] lift_id [OF state]
    by (cases "c_ReadinessProbe c") (simp_all add: probe_readiness_def)
  show ?thesis by (simp add: live ready main_ps_def l_def [symmetric] Let_def)
qed

text \<open>Probing a tracked container is a function of its state alone, and changes nothing else.\<close>

lemma probeContainer_lift:
  assumes "ProbeState (fst st) u (c_Name c) = Some ps"
  shows "probeContainer k run u c st = lift_ps u (c_Name c) (probe_ps k run u c ps) st"
  using assms main_lift [OF assms, of k run]
  by (simp add: probeContainer_def probe_ps_def probe_startup_lift split: option.split)

section \<open>The startup gate\<close>

fun fact_kind :: "Fact \<Rightarrow> string option" where
  "fact_kind (ProbeFact _ _ kind _ _ _ _ _) = Some kind"
| "fact_kind _ = None"

lemma due_ps_frame:
  "LiveFailCount (snd (due_ps k kind p ps)) = LiveFailCount ps \<and> pr_Ready (snd (due_ps k kind p ps)) = pr_Ready ps \<and>
   ReadyFailCount (snd (due_ps k kind p ps)) = ReadyFailCount ps \<and> ReadySuccessCount (snd (due_ps k kind p ps)) = ReadySuccessCount ps \<and>
   StartupPassed (snd (due_ps k kind p ps)) = StartupPassed ps \<and> StartupFailCount (snd (due_ps k kind p ps)) = StartupFailCount ps \<and>
   StartedAt (snd (due_ps k kind p ps)) = StartedAt ps"
  by (simp add: due_ps_def isDue_def Let_def split: option.split)

lemma startup_ps_frame:
  assumes "\<not> StartupPassed ps"
  shows "LiveFailCount (fst (startup_ps k r u c p ps)) = LiveFailCount ps \<and> pr_Ready (fst (startup_ps k r u c p ps)) = pr_Ready ps \<and>
    (StartupPassed (fst (startup_ps k r u c p ps)) \<longrightarrow> r = ProbeSuccess \<and> fst (due_ps k ''startup'' p ps)) \<and>
    list_all (\<lambda>f. UID f = u \<and> fact_kind f = Some ''startup'') (snd (startup_ps k r u c p ps))"
  using assms due_ps_frame [of k "''startup''" p ps]
  by (simp add: startup_ps_def EvalStartup_def markProbed_def probe_fact_def Let_def)

text \<open>C26: while the startup probe of a container has not passed, the scheduler sends startup facts
  only, leaves liveness count and readiness alone, and lets the container through only after a
  startup probe that was due and succeeded. A liveness restart closes the gate again.\<close>

theorem startup_gates:
  assumes "ProbeState s u (c_Name c) = Some ps" and "c_StartupProbe c = Some p"
  shows "\<exists>ps' facts. ProbeState (fst (probeContainer k run u c (s, sent))) u (c_Name c) = Some ps' \<and>
    snd (probeContainer k run u c (s, sent)) = sent @ facts \<and>
    (\<not> StartupPassed ps \<longrightarrow> LiveFailCount ps' = LiveFailCount ps \<and> pr_Ready ps' = pr_Ready ps \<and>
      list_all (\<lambda>f. UID f = u \<and> fact_kind f = Some ''startup'') facts \<and>
      (StartupPassed ps' \<longrightarrow> run p = ProbeSuccess)) \<and>
    (StartupPassed ps \<longrightarrow> fst (probe_liveness k run u (c_Name c) (c_LivenessProbe c) (s, sent)) \<longrightarrow> \<not> StartupPassed ps')"
proof -
  have st: "ProbeState (fst (s, sent)) u (c_Name c) = Some ps" using assms(1) by simp
  let ?r = "probe_ps k run u c ps"
  have run: "probeContainer k run u c (s, sent) = lift_ps u (c_Name c) ?r (s, sent)" by (rule probeContainer_lift [OF st])
  have "\<not> StartupPassed (fst ?r)"
    if passed: "StartupPassed ps" and restart: "fst (probe_liveness k run u (c_Name c) (c_LivenessProbe c) (s, sent))"
  proof -
    from restart obtain q where q: "c_LivenessProbe c = Some q" by (cases "c_LivenessProbe c") (simp_all add: probe_liveness_def)
    with restart have "fst (liveness_ps (k ''liveness'') (run q) u (c_Name c) q ps)" by (simp add: probe_liveness_lift [OF st])
    with q passed assms(2) show ?thesis
      by (simp add: probe_ps_def main_ps_def liveness_ps_def Let_def zero_ProbeState_def split: if_splits)
  qed
  moreover have "LiveFailCount (fst ?r) = LiveFailCount ps \<and> pr_Ready (fst ?r) = pr_Ready ps \<and>
      list_all (\<lambda>f. UID f = u \<and> fact_kind f = Some ''startup'') (snd ?r) \<and> (StartupPassed (fst ?r) \<longrightarrow> run p = ProbeSuccess)"
    if "\<not> StartupPassed ps"
    using that assms(2) startup_ps_frame [OF that, of "k ''startup''" "run p" u "c_Name c" p] by (simp add: probe_ps_def)
  ultimately show ?thesis
    using lift_ps_state [OF st, of ?r] by (intro exI [of _ "fst ?r"] exI [of _ "snd ?r"]) (simp add: run lift_ps_def)
qed

definition sample_probe :: probe where
  "sample_probe = \<lparr>p_InitialDelaySeconds = 0, p_PeriodSeconds = 10, p_TimeoutSeconds = 1, p_SuccessThreshold = 1,
     p_FailureThreshold = 3, p_HTTPGet = None, p_TCPSocket = None, p_Exec = Some [''true'']\<rparr>"

definition sample_clock :: probe_clock where
  "sample_clock = \<lparr>pc_seed = 1, pc_since_start = 30 * Second, pc_since_last = 30 * Second, pc_mark = 30 * Second,
     pc_reset = 31 * Second, pc_jitter = 0\<rparr>"

definition probed_pod :: pod where
  "probed_pod = (sample_pod ''Always'' [])\<lparr>pod_Containers :=
     [(sample_container ''a'')\<lparr>c_StartupProbe := Some sample_probe\<rparr>, (sample_container ''b'')\<lparr>c_LivenessProbe := Some sample_probe\<rparr>]\<rparr>"

definition probed_store :: PodStore where
  "probed_store = store_InitRestartState (\<lambda>_. 1) (\<lambda>_. 1) probed_pod
     (SetPhase ''u1'' PodRunning (RegisterPending ''u1'' probed_pod 0 NewPodStore))"

lemmas probed_simps = probed_store_def store_InitRestartState_def SetPhase_def setPhase_def RegisterPending_def NewPodStore_def
  triggerSnapshot_def add_used_def new_entry_def with_pod_def with_pod_trigger_def probed_pod_def sample_pod_def sample_container_def
  init_probes_def getPodState_def

lemma probed_store_state: "ProbeState probed_store ''u1'' ''a'' = Some (zero_ProbeState\<lparr>StartedAt := 1, pr_Ready := True\<rparr>)"
  by (simp add: probed_simps ProbeState_def)

theorem startup_gates_witness:
  "\<exists>ps'. ProbeState (fst (probeContainer (\<lambda>_. sample_clock) (\<lambda>_. ProbeSuccess) ''u1'' ((sample_container ''a'')\<lparr>c_StartupProbe := Some sample_probe\<rparr>)
     (probed_store, []))) ''u1'' ''a'' = Some ps' \<and> LiveFailCount ps' = 0 \<and> pr_Ready ps'"
proof -
  let ?c = "(sample_container ''a'')\<lparr>c_StartupProbe := Some sample_probe\<rparr>"
  let ?ps = "zero_ProbeState\<lparr>StartedAt := 1, pr_Ready := True\<rparr>"
  have n: "c_Name ?c = ''a''" by (simp add: sample_container_def)
  have "ProbeState probed_store ''u1'' (c_Name ?c) = Some ?ps" "c_StartupProbe ?c = Some sample_probe"
    unfolding n by (simp_all add: probed_store_state)
  from startup_gates [OF this, of "\<lambda>_. sample_clock" "\<lambda>_. ProbeSuccess" "[]"] obtain ps' where
    "ProbeState (fst (probeContainer (\<lambda>_. sample_clock) (\<lambda>_. ProbeSuccess) ''u1'' ?c (probed_store, []))) ''u1'' (c_Name ?c) = Some ps'"
    "\<not> StartupPassed ?ps \<longrightarrow> LiveFailCount ps' = LiveFailCount ?ps \<and> pr_Ready ps' = pr_Ready ?ps"
    by blast
  then show ?thesis unfolding n by (simp add: zero_ProbeState_def)
qed

section \<open>The order of the goroutines\<close>

text \<open>A task with the facts as a multiset.\<close>

definition task_key :: "probe_task \<Rightarrow> string \<times> string" where
  "task_key t = (fst t, c_Name (fst (snd t)))"

definition run_task_m :: "(string \<Rightarrow> string \<Rightarrow> string \<Rightarrow> probe_clock) \<Rightarrow> (probe_task \<Rightarrow> probe \<Rightarrow> ProbeResult) \<Rightarrow> probe_task
    \<Rightarrow> PodStore \<times> Fact multiset \<Rightarrow> PodStore \<times> Fact multiset" where
  "run_task_m k run t st = (case (t, st) of ((u, c, ip), (s, M)) \<Rightarrow> (case ProbeState s u (c_Name c) of
     None \<Rightarrow> (s, M)
   | Some ps \<Rightarrow> (let r = probe_ps (k u (c_Name c)) (run t) u c ps in
       (UpdateProbeState u (c_Name c) (\<lambda>_. fst r) s, M + mset (snd r)))))"

definition forget_order :: "sched_state \<Rightarrow> PodStore \<times> Fact multiset" where
  "forget_order st = (fst st, mset (snd st))"

lemma run_task_m: "forget_order (run_task k run t st) = run_task_m k run t (forget_order st)"
proof (cases t)
  case (fields u c ip)
  show ?thesis
  proof (cases "ProbeState (fst st) u (c_Name c)")
    case (Some ps)
    with fields show ?thesis
      by (simp add: forget_order_def run_task_def run_task_m_def probeContainer_lift lift_ps_def Let_def)
  qed (simp add: fields forget_order_def run_task_def run_task_m_def probeContainer_def)
qed

lemma fold_run_task_m: "forget_order (fold (run_task k run) ts st) = fold (run_task_m k run) ts (forget_order st)"
  by (induction ts arbitrary: st) (simp_all add: run_task_m)

lemma run_task_m_commute:
  assumes "task_key t \<noteq> task_key t'"
  shows "run_task_m k run t (run_task_m k run t' st) = run_task_m k run t' (run_task_m k run t st)"
proof (cases t, cases t', cases st)
  fix u c ip u' c' ip' s M
  assume t: "t = (u, c, ip)" "t' = (u', c', ip')" "st = (s, M)"
  with assms have "(u, c_Name c) \<noteq> (u', c_Name c')" "(u', c_Name c') \<noteq> (u, c_Name c)" by (auto simp: task_key_def)
  then show ?thesis
    unfolding t
    by (cases "ProbeState s u (c_Name c)"; cases "ProbeState s u' (c_Name c')")
      (simp_all add: run_task_m_def Let_def Update_commute ac_simps)
qed

lemma tasks_permute:
  assumes "inj_on task_key (set ts)" and "mset ts = mset ts'"
  shows "fold (run_task_m k run) ts = fold (run_task_m k run) ts'"
proof (rule fold_multiset_equiv [OF _ assms(2)])
  fix x y
  assume "x \<in> set ts" "y \<in> set ts"
  with assms(1) have "x = y \<or> task_key x \<noteq> task_key y" by (auto dest: inj_onD)
  then show "run_task_m k run x \<circ> run_task_m k run y = run_task_m k run y \<circ> run_task_m k run x"
    by (auto simp: fun_eq_iff run_task_m_commute)
qed

definition distinct_names :: "PodStore \<Rightarrow> bool" where
  "distinct_names s \<longleftrightarrow> (\<forall>u e. Snapshot s u = Some e \<longrightarrow> distinct (map c_Name (pod_Containers (pe_Pod e))))"

lemma cycle_containers_mem:
  "(u, c, ip) \<in> set (cycle_containers entries order) \<Longrightarrow>
   \<exists>e. entries u = Some e \<and> c \<in> set (pod_Containers (pe_Pod e)) \<and> ip = pe_PodIP e"
  by (auto simp: cycle_containers_def split: option.splits if_splits) metis

lemma cycle_containers_inj:
  assumes "distinct_names s"
  shows "inj_on task_key (set (cycle_containers (Snapshot s) order))"
proof (rule inj_onI)
  fix x y
  assume xy: "x \<in> set (cycle_containers (Snapshot s) order)" "y \<in> set (cycle_containers (Snapshot s) order)"
    "task_key x = task_key y"
  obtain u c ip u' c' ip' where t: "x = (u, c, ip)" "y = (u', c', ip')" by (cases x, cases y)
  from xy t obtain e where e: "Snapshot s u = Some e" "c \<in> set (pod_Containers (pe_Pod e))" "ip = pe_PodIP e"
    using cycle_containers_mem by blast
  from xy(2) t obtain e' where e': "Snapshot s u' = Some e'" "c' \<in> set (pod_Containers (pe_Pod e'))" "ip' = pe_PodIP e'"
    using cycle_containers_mem by blast
  from xy(3) t have "u = u'" "c_Name c = c_Name c'" by (simp_all add: task_key_def)
  moreover from this e(1) e'(1) have "e = e'" by simp
  moreover from assms e(1) have "inj_on c_Name (set (pod_Containers (pe_Pod e)))"
    by (simp add: distinct_names_def distinct_map)
  ultimately show "x = y" using e e' t by (simp add: inj_on_def)
qed

lemma check_tasks: "set (snd (fold (check_container k) ts acc)) \<subseteq> set (snd acc) \<union> set ts"
proof (induction ts arbitrary: acc)
  case (Cons t ts)
  have "set (snd (check_container k t acc)) \<subseteq> insert t (set (snd acc))"
    by (cases t; cases acc) (auto simp: check_container_def split: option.split prod.split)
  with Cons [of "check_container k t acc"] show ?case by auto
qed simp

text \<open>C18: the order in which the goroutines of a probe cycle take effect does not matter: two
  orders of the same tasks leave the same store and send the same facts, up to their order, when
  the containers of each pod have different names.\<close>

theorem probe_cycle_order:
  assumes "distinct_names s" and "\<And>ts. mset (sched ts) \<subseteq># mset ts" and "\<And>ts. mset (sched ts) = mset (sched' ts)"
  shows "fst (runProbeCycle kc kp run order sched (s, sent)) = fst (runProbeCycle kc kp run order sched' (s, sent)) \<and>
    mset (snd (runProbeCycle kc kp run order sched (s, sent))) = mset (snd (runProbeCycle kc kp run order sched' (s, sent)))"
proof -
  define r where "r = fold (check_container kc) (cycle_containers (Snapshot s) order) (s, [])"
  have "set (sched (snd r)) \<subseteq> set (snd r)" using set_mset_mono [OF assms(2) [of "snd r"]] by simp
  then have "set (sched (snd r)) \<subseteq> set (cycle_containers (Snapshot s) order)"
    using check_tasks [of kc "cycle_containers (Snapshot s) order" "(s, [])"] by (auto simp: r_def)
  then have "inj_on task_key (set (sched (snd r)))" by (rule inj_on_subset [OF cycle_containers_inj [OF assms(1)]])
  then have "fold (run_task_m kp run) (sched (snd r)) = fold (run_task_m kp run) (sched' (snd r))"
    by (rule tasks_permute [OF _ assms(3)])
  then have "forget_order (fold (run_task kp run) (sched (snd r)) (fst r, sent)) =
      forget_order (fold (run_task kp run) (sched' (snd r)) (fst r, sent))"
    by (simp add: fold_run_task_m)
  then show ?thesis by (simp add: runProbeCycle_def r_def [symmetric] split_beta forget_order_def)
qed

theorem probe_cycle_order_witness:
  "fst (runProbeCycle (\<lambda>_ _ _. sample_clock) (\<lambda>_ _ _. sample_clock) (\<lambda>_ _. ProbeSuccess) [''u1''] (\<lambda>ts. ts) (probed_store, [])) =
   fst (runProbeCycle (\<lambda>_ _ _. sample_clock) (\<lambda>_ _ _. sample_clock) (\<lambda>_ _. ProbeSuccess) [''u1''] rev (probed_store, []))"
proof -
  have "distinct_names probed_store" by (auto simp: distinct_names_def Snapshot_def probed_simps)
  from probe_cycle_order [OF this, of "\<lambda>ts. ts" rev "\<lambda>_ _ _. sample_clock" "\<lambda>_ _ _. sample_clock" "\<lambda>_ _. ProbeSuccess" "[''u1'']" "[]"] show ?thesis by simp
qed

end
