(* ===== verification/Batch_Watcher_Props.thy ===== *)
theory Batch_Watcher_Props
  imports Batch_Watcher Probe_Scheduler_Props Pod_Store_Props
begin

text \<open>
  Properties of the batch watcher. The locale \<open>watch_core\<close> (with its part \<open>watch_probe\<close>) collects what a predicate on the watcher
  must satisfy to survive a poll or a unit event, operation by operation; it is interpreted for the
  bookkeeping of restarts, for the pods being deleted, for the refinement of the pod store and for
  the phase of pods that are always restarted.
\<close>

section \<open>Invariants of the watcher\<close>

text \<open>What the watcher does to the store, for the pod with a given UID.\<close>

inductive watch_op :: "string \<Rightarrow> PodStore \<Rightarrow> PodStore \<Rightarrow> bool" where
  probe: "watch_op u s (UpdateProbeState u c f s)"
| reset_probe: "watch_op u s (ResetProbeState now u c s)"
| container: "watch_op u s (SetContainerState now u c st r s)"
| backoff: "watch_op u s (ResetBackoff u c s)"
| none: "watch_op u s s"

fun plain_action :: "node_action \<Rightarrow> bool" where
  "plain_action (PodEvent _ _ _ _ _) = True"
| "plain_action (ResetFailedUnit _ _) = True"
| "plain_action (EmitFact _) = True"
| "plain_action _ = False"

text \<open>The outcome of the loop of \<open>checkPod\<close> may be that all containers have exited.\<close>

abbreviation check_start :: pod_check where
  "check_start \<equiv> \<lparr>allExited = True, allSucceeded = True, anyRestarting = False\<rparr>"

definition may_finish :: "poll_env \<Rightarrow> (string \<rightharpoonup> MachineState) \<Rightarrow> (string \<rightharpoonup> int) \<Rightarrow> string \<Rightarrow> PodEntry \<Rightarrow> bool" where
  "may_finish env stateMap exitCodeMap uid e \<longleftrightarrow> pod_Containers (pe_Pod e) \<noteq> [] \<and>
     (\<exists>bw. allExited (fst (fold (check_container_state env stateMap exitCodeMap uid (pe_PodIP e) (effective_policy (pe_Pod e)))
       (pod_Containers (pe_Pod e)) (check_start, bw))))"

lemma with_store_simps [simp]:
  "bw_store (with_store f bw) = f (bw_store bw)" "g_acts (bw_g (with_store f bw)) = g_acts (bw_g bw)"
  "restarting (with_store f bw) = restarting bw" "seenRunning (with_store f bw) = seenRunning bw"
  "prevStateMap (with_store f bw) = prevStateMap bw" "prevReady (with_store f bw) = prevReady bw"
  "stateCache (with_store f bw) = stateCache bw"
  by (simp_all add: with_store_def)

lemma bw_act_simps [simp]:
  "bw_store (bw_act a bw) = bw_store bw" "g_acts (bw_g (bw_act a bw)) = g_acts (bw_g bw) @ [a]"
  "restarting (bw_act a bw) = restarting bw" "seenRunning (bw_act a bw) = seenRunning bw"
  "prevStateMap (bw_act a bw) = prevStateMap bw" "prevReady (bw_act a bw) = prevReady bw"
  "stateCache (bw_act a bw) = stateCache bw"
  by (simp_all add: bw_act_def act_def)

lemma mark_seen_simps [simp]:
  "bw_g (mark_seen k bw) = bw_g bw" "restarting (mark_seen k bw) = restarting bw"
  "seenRunning (mark_seen k bw) = (seenRunning bw)(k := True)"
  "prevStateMap (mark_seen k bw) = prevStateMap bw" "prevReady (mark_seen k bw) = prevReady bw"
  by (simp_all add: mark_seen_def)

lemma put_cache_simps [simp]:
  "bw_g (put_cache k st bw) = bw_g bw" "restarting (put_cache k st bw) = restarting bw"
  by (simp_all add: put_cache_def)

lemma push_status_simps [simp]:
  "bw_store (push_status env purpose uid pd st bw) = bw_store bw"
  "g_acts (bw_g (push_status env purpose uid pd st bw)) = g_acts (bw_g bw) @ [NotifyPod (pd\<lparr>pod_Status := st\<rparr>)]"
  "restarting (push_status env purpose uid pd st bw) = restarting bw"
  "seenRunning (push_status env purpose uid pd st bw) = seenRunning bw"
  "prevStateMap (push_status env purpose uid pd st bw) = prevStateMap bw"
  "prevReady (push_status env purpose uid pd st bw) = prevReady bw"
  by (simp_all add: push_status_def notifyPodStatus_def writePodState_def act_def Let_def)

lemma probe_due_op: "watch_op u s (snd (probe_due k u c kind pb s))"
  by (auto simp: probe_due_def prod.case_eq_if split: option.split intro: watch_op.intros)

lemma eval_probe_op: "watch_op u s (snd (eval_probe now kind ev u c s))"
  by (auto simp: eval_probe_def prod.case_eq_if split: option.split intro: watch_op.intros)

lemma fold_invariant:
  "(\<And>x acc. x \<in> set xs \<Longrightarrow> Q acc \<Longrightarrow> Q (f x acc)) \<Longrightarrow> Q acc \<Longrightarrow> Q (fold f xs acc)"
  by (induction xs arbitrary: acc) simp_all

lemma if_cases_P: "(b \<Longrightarrow> P x) \<Longrightarrow> (\<not> b \<Longrightarrow> P y) \<Longrightarrow> P (if b then x else y)"
  by simp

lemma option_cases_P: "(z = None \<Longrightarrow> P x) \<Longrightarrow> (\<And>v. z = Some v \<Longrightarrow> P (f v)) \<Longrightarrow> P (case z of None \<Rightarrow> x | Some v \<Rightarrow> f v)"
  by (cases z) simp_all

lemma prod_cases_P: "(\<And>a b. z = (a, b) \<Longrightarrow> P (f a b)) \<Longrightarrow> P (case z of (a, b) \<Rightarrow> f a b)"
  by (cases z) simp

text \<open>Probing and the loop over the containers push no status; \<open>watch_probe\<close> is the part of the
  contract they need.\<close>

locale watch_probe =
  fixes P :: "BatchWatcher \<Rightarrow> bool"
  assumes P_store: "P bw \<Longrightarrow> watch_op u (bw_store bw) s' \<Longrightarrow> P (with_store (\<lambda>_. s') bw)"
    and P_act: "P bw \<Longrightarrow> plain_action a \<Longrightarrow> P (bw_act a bw)"
    and P_restart: "P bw \<Longrightarrow> P (maybeRestart u c bw)"
    and P_fields: "P bw \<Longrightarrow> bw_g bw' = bw_g bw \<Longrightarrow> restarting bw' = restarting bw \<Longrightarrow> P bw'"
begin

lemma P_store2:
  assumes "P bw" and "watch_op u (bw_store bw) s1" and "watch_op u s1 s2"
  shows "P (with_store (\<lambda>_. s2) bw)"
proof -
  have "P (with_store (\<lambda>_. s2) (with_store (\<lambda>_. s1) bw))"
    using P_store [OF P_store [OF assms(1,2)], of u s2] assms(3) by simp
  then show ?thesis by (simp add: with_store_def)
qed

lemma P_store3:
  assumes "P bw" and "watch_op u (bw_store bw) s1" and "watch_op u s1 s2" and "watch_op u s2 s3"
  shows "P (with_store (\<lambda>_. s3) bw)"
proof -
  have "P (with_store (\<lambda>_. s3) (with_store (\<lambda>_. s2) bw))"
    using P_store [OF P_store2 [OF assms(1-3)], of u s3] assms(4) by simp
  then show ?thesis by (simp add: with_store_def)
qed

lemma P_startup: "P bw \<Longrightarrow> P (bw_startup k run u c p bw)"
  unfolding bw_startup_def Let_def prod.case_eq_if
  by (simp split: option.split)
    (auto intro!: P_restart P_act P_store2 [OF _ probe_due_op eval_probe_op] P_store [OF _ probe_due_op])

lemma P_liveness: "P bw \<Longrightarrow> P (snd (bw_liveness k run u c pb bw))"
  unfolding bw_liveness_def Let_def prod.case_eq_if
  by (simp split: option.split)
    (auto intro!: P_restart P_act P_store3 [OF _ probe_due_op eval_probe_op watch_op.reset_probe]
      P_store2 [OF _ probe_due_op eval_probe_op] P_store [OF _ probe_due_op])

lemma P_readiness: "P bw \<Longrightarrow> P (bw_readiness k run u c pb bw)"
  unfolding bw_readiness_def Let_def prod.case_eq_if
  by (simp split: option.split)
    (auto intro!: P_act P_store2 [OF _ probe_due_op eval_probe_op] P_store [OF _ probe_due_op])

lemma P_probes: "P bw \<Longrightarrow> P (runProbes k run u c bw)"
  using P_liveness [of bw k run u "c_Name c" "c_LivenessProbe c"]
  by (auto simp: runProbes_def Let_def prod.case_eq_if P_readiness P_startup split: option.split)

lemma P_seen: "P bw \<Longrightarrow> P (mark_seen key bw)"
  by (erule P_fields) simp_all

lemma P_running: "P bw \<Longrightarrow> P (check_running env u ip c bw)"
proof -
  assume P: "P bw"
  have "P (with_store (ResetBackoff u (c_Name c)) (mark_seen key bw))" for key
    using P_store [OF P_seen [OF P, of key], of u "ResetBackoff u (c_Name c) (bw_store (mark_seen key bw))"]
    by (simp add: watch_op.backoff with_store_def mark_seen_def)
  with P show ?thesis by (auto simp: check_running_def Let_def intro!: P_probes P_seen split: option.split)
qed

lemma P_SetContainerState:
  "P bw \<Longrightarrow> P (with_store (SetContainerState now u c st r) bw)"
  using P_store [of bw u "SetContainerState now u c st r (bw_store bw)"] by (simp add: watch_op.container with_store_def)

lemma P_stopped: "P bw \<Longrightarrow> P (check_stopped env u c st code bw)"
  by (simp add: check_stopped_def Let_def P_SetContainerState P_act)

lemma P_check_container:
  "P (snd acc) \<Longrightarrow> P (snd (check_container_state env sm em u ip policy c acc))"
  by (auto simp: check_container_state_def Let_def prod.case_eq_if P_seen P_running P_stopped P_restart
      split: MachineState.split)

lemma P_check_containers:
  "P bw \<Longrightarrow> P (snd (fold (check_container_state env sm em u ip policy) cs (ck, bw)))"
  by (rule fold_invariant [where Q = "\<lambda>acc. P (snd acc)"]) (simp_all add: P_check_container)

lemma P_changes: "P bw \<Longrightarrow> P (snd (fold (note_change sm u) cs (b, bw)))"
  by (rule fold_invariant [where Q = "\<lambda>acc. P (snd acc)"])
    (auto simp: note_change_def Let_def prod.case_eq_if elim: P_fields)

lemma P_due: "P bw \<Longrightarrow> P (with_store (\<lambda>_. fst (fold (check_container k) ts (bw_store bw, tasks))) bw)"
proof (induction ts arbitrary: bw tasks)
  case Nil
  then show ?case using P_store [OF Nil, of u "bw_store bw" for u] by (simp add: watch_op.none)
next
  case (Cons t ts)
  obtain u c ip where t: "t = (u, c, ip)" by (cases t)
  let ?r = "check_container k t (bw_store bw, tasks)"
  have "P (with_store (\<lambda>_. fst ?r) bw)"
    unfolding t check_container_def has_any_due_def
    by (auto simp: prod.case_eq_if split: option.split intro!: P_store [OF Cons.prems watch_op.none]
        P_store [OF Cons.prems probe_due_op] P_store2 [OF Cons.prems probe_due_op probe_due_op]
        P_store3 [OF Cons.prems probe_due_op probe_due_op probe_due_op])
  from Cons.IH [OF this, of "snd ?r"] show ?case by (simp add: with_store_def)
qed

lemma P_fanout: "P bw \<Longrightarrow> P (probe_fanout env sm entries bw)"
  unfolding probe_fanout_def prod.case_eq_if
  by (rule fold_invariant [where Q = P]) (auto intro: P_probes P_due)

end

locale watch_core = watch_probe +
  assumes P_push: "P bw \<Longrightarrow> P (push_status env purpose u pd st bw)"
begin

lemma P_backoff: "P bw \<Longrightarrow> P (push_backoff env sm u bw)"
  by (simp add: push_backoff_def Let_def P_push split: option.split)

lemma P_terminal:
  assumes "P bw" and "\<And>bw ph. P bw \<Longrightarrow> terminal_phase ph \<Longrightarrow> P (with_store (SetPhase u ph) bw)" and "terminal_phase ph"
  shows "P (set_terminal env sm u ph pd bw)"
  unfolding set_terminal_def Let_def
  by (rule fold_invariant [where Q = P]) (auto simp: assms P_act P_push split: option.split)

lemma P_checkPod:
  assumes "P bw"
    and "allExited (fst (fold (check_container_state env sm em u ip (effective_policy pd)) (pod_Containers pd) (check_start, bw)))
      \<Longrightarrow> (\<And>bw ph. P bw \<Longrightarrow> terminal_phase ph \<Longrightarrow> P (with_store (SetPhase u ph) bw))"
  shows "P (checkPod env sm em u pd ip bw)"
  using assms P_check_containers [OF assms(1)]
  by (auto simp: checkPod_def Let_def prod.case_eq_if terminal_phase_def intro!: P_backoff P_terminal)

lemma P_entry:
  assumes "P (snd acc)"
    and "\<And>e. entries u = Some e \<Longrightarrow> may_finish env sm em u e \<Longrightarrow>
      (\<And>bw ph. P bw \<Longrightarrow> terminal_phase ph \<Longrightarrow> P (with_store (SetPhase u ph) bw))"
  shows "P (snd (check_entry env sm em entries u acc))"
proof (cases "entries u")
  case (Some e)
  have "P (checkPod env sm em u (pe_Pod e) (pe_PodIP e) (snd (fold (note_change sm u) (pod_Containers (pe_Pod e)) (False, snd acc))))"
    if "pod_Containers (pe_Pod e) \<noteq> []"
  proof (rule P_checkPod)
    show "P (snd (fold (note_change sm u) (pod_Containers (pe_Pod e)) (False, snd acc)))"
      by (rule P_changes) (rule assms(1))
  qed (use assms(2) [OF Some] that in \<open>auto simp: may_finish_def\<close>)
  then show ?thesis using assms(1) Some by (simp add: check_entry_def prod.case_eq_if)
qed (use assms(1) in \<open>simp add: check_entry_def prod.case_eq_if\<close>)

lemma P_coalesce: "P bw \<Longrightarrow> P (coalesce env sm changed u bw)"
  by (simp add: coalesce_def Let_def P_push split: option.split)

lemma P_poll:
  assumes "P bw" and "\<And>ms u e bw ph. listed = Some ms \<Longrightarrow> Snapshot (bw_store bw0) u = Some e \<Longrightarrow>
      may_finish env (state_index ms) (exit_index ms) u e \<Longrightarrow> P bw \<Longrightarrow> terminal_phase ph \<Longrightarrow> P (with_store (SetPhase u ph) bw)"
    and "bw_store bw0 = bw_store bw"
  shows "P (poll env listed bw)"
proof (cases listed)
  case None
  then show ?thesis using assms(1) by (simp add: poll_def)
next
  case (Some ms)
  let ?sm = "state_index ms"
  let ?bw1 = "bw\<lparr>stateCache := ?sm, sameMap := False\<rparr>"
  let ?en = "Snapshot (bw_store ?bw1)"
  let ?r = "fold (check_entry env ?sm (exit_index ms) ?en) (en_order env) ([], probe_fanout env ?sm ?en ?bw1)"
  have "P ?bw1" by (rule P_fields [OF assms(1)]) simp_all
  then have "P (probe_fanout env ?sm ?en ?bw1)" by (rule P_fanout)
  then have "P (snd ?r)"
    using assms(2) [OF Some] assms(3)
    by (intro fold_invariant [where Q = "\<lambda>acc. P (snd acc)"] P_entry) simp_all
  then have "P (fold (coalesce env ?sm (fst ?r)) (en_order env) (snd ?r))"
    by (rule fold_invariant [where Q = P, rotated]) (rule P_coalesce)
  then show ?thesis using Some
    by (simp add: poll_def prod.case_eq_if Let_def) (erule P_fields, simp_all add: rotate_maps_def)
qed

end

text \<open>Predicates that no terminal phase destroys survive every poll and every unit event.\<close>

locale watch_invariant = watch_core +
  assumes P_phase: "P bw \<Longrightarrow> terminal_phase ph \<Longrightarrow> P (with_store (SetPhase u ph) bw)"
begin

lemma P_any_poll: "P bw \<Longrightarrow> P (poll env listed bw)"
  by (rule P_poll [where bw0 = bw]) (simp_all add: P_phase)

lemma P_any_entries: "P (snd acc) \<Longrightarrow> P (snd (fold (check_entry env sm em entries) us acc))"
  by (rule fold_invariant [where Q = "\<lambda>acc. P (snd acc)"]) (rule P_entry, assumption, rule P_phase)

lemma P_coalesces: "P bw \<Longrightarrow> P (fold (coalesce env sm changed) us bw)"
  by (rule fold_invariant [where Q = P]) (rule P_coalesce)

lemma P_stop_event: "P bw \<Longrightarrow> P (stop_event u c sub pd bw)"
  by (simp add: stop_event_def P_act)

lemma P_transition: "P bw \<Longrightarrow> P (snd (unit_transition u c st pd bw))"
proof -
  assume "P bw"
  then have "P (put_cache key st (if st = StateRunning then mark_seen key bw else bw))" for key
    by (rule P_fields) simp_all
  from this [of "container_key u c"] P_act [OF this [of "container_key u c"]] show ?thesis
    by (simp add: unit_transition_def Let_def split: if_splits)
qed

lemma P_event:
  assumes "P bw"
  shows "P (handleUnitEvent env pawn send listed unit sub bw)"
proof -
  have set: "P (if b then with_store (SetContainerState now u c st r) bw else bw)" for b now u c st r
    by (simp add: assms P_SetContainerState)
  have fact: "P bw' \<Longrightarrow> P (if send then bw_act (EmitFact f) bw' else bw')" for bw' f
    by (simp add: P_act)
  have trans: "P bw' \<Longrightarrow> P (case unit_transition u c state pd bw' of (trigger, bw4) \<Rightarrow> if trigger then poll env listed bw4 else bw4)"
    for bw' u c state pd
    using P_transition [of bw' u c state pd] by (simp add: prod.case_eq_if P_any_poll)
  show ?thesis
    unfolding handleUnitEvent_def Let_def
    by (intro trans fact P_stop_event set assms if_cases_P [where P = P] option_cases_P [where P = P] prod_cases_P [where P = P])
qed

end

section \<open>Restarts\<close>

fun is_launch :: "string \<Rightarrow> node_action \<Rightarrow> bool" where
  "is_launch key (LaunchRestart u c _ _) = (container_key u c = key)"
| "is_launch key _ = False"

fun is_done :: "string \<Rightarrow> node_action \<Rightarrow> bool" where
  "is_done key (RestartDone u c) = (container_key u c = key)"
| "is_done key _ = False"

definition launches :: "string \<Rightarrow> BatchWatcher \<Rightarrow> nat" where
  "launches key bw = length (filter (is_launch key) (g_acts (bw_g bw)))"

definition dones :: "string \<Rightarrow> BatchWatcher \<Rightarrow> nat" where
  "dones key bw = length (filter (is_done key) (g_acts (bw_g bw)))"

definition balance :: "string \<Rightarrow> BatchWatcher \<Rightarrow> int" where
  "balance key bw = int (launches key bw) - int (dones key bw) - of_bool (restarting bw key)"

lemma plain_not_restart [simp]: "plain_action a \<Longrightarrow> \<not> is_launch key a" "plain_action a \<Longrightarrow> \<not> is_done key a"
  by (cases a; simp)+

lemma balance_maybeRestart: "balance key (maybeRestart u c bw) = balance key bw"
  by (simp add: balance_def launches_def dones_def maybeRestart_def Let_def prod.case_eq_if)

interpretation wb: watch_invariant "\<lambda>bw. balance key bw = n" for key n
  by unfold_locales (simp_all add: balance_def launches_def dones_def balance_maybeRestart [unfolded balance_def launches_def dones_def])

text \<open>The steps of a watcher: its own, the end of a restart goroutine that was launched, and whatever
  the rest of the node does to the store and the machines.\<close>

inductive watch_step :: "BatchWatcher \<Rightarrow> BatchWatcher \<Rightarrow> bool" where
  poll: "watch_step bw (poll env listed bw)"
| event: "watch_step bw (handleUnitEvent env pawn send listed unit sub bw)"
| mark: "watch_step bw (MarkRunning u c bw)"
| poke: "watch_step bw (Poke bw)"
| finished: "dones (container_key u c) bw < launches (container_key u c) bw \<Longrightarrow> watch_step bw (restart_done u c bw)"
| other: "g_acts g' = g_acts (bw_g bw) @ as \<Longrightarrow> (\<And>key. filter (is_launch key) as = [] \<and> filter (is_done key) as = []) \<Longrightarrow>
    watch_step bw (bw\<lparr>bw_g := g'\<rparr>)"

lemma watch_step_balance: "watch_step bw bw' \<Longrightarrow> balance key bw = 0 \<Longrightarrow> (\<And>key. balance key bw = 0) \<Longrightarrow> balance key bw' = 0"
proof (induction rule: watch_step.induct)
  case (finished u c bw)
  have r: "restarting bw (container_key u c)"
    using finished(1) finished(3) [of "container_key u c"] by (simp add: balance_def of_bool_def split: if_splits)
  show ?case
    using finished(2) r by (auto simp: balance_def launches_def dones_def restart_done_def)
next
  case (poll bw env listed)
  show ?case by (rule wb.P_any_poll) (rule poll)
next
  case (event bw env pawn send listed unit sub)
  show ?case by (rule wb.P_event) (rule event)
qed (simp_all add: MarkRunning_def Poke_def balance_def launches_def dones_def)

lemma watch_run_balance: "watch_step\<^sup>*\<^sup>* bw bw' \<Longrightarrow> (\<And>key. balance key bw = 0) \<Longrightarrow> balance key bw' = 0"
  by (induction arbitrary: key rule: rtranclp_induct) (auto intro: watch_step_balance)

section \<open>A sample run\<close>

definition watched_store :: "string \<Rightarrow> PodStore" where
  "watched_store policy = SetPhase ''u1'' PodRunning (store_InitRestartState (\<lambda>_. 1) (\<lambda>_. 1) (sample_pod policy [''a''])
     (RegisterPending ''u1'' (sample_pod policy [''a'']) 0 NewPodStore))"

definition watched :: "string \<Rightarrow> BatchWatcher" where
  "watched policy = StartBatchWatcher \<lparr>g_store = watched_store policy, g_files = Map.empty, g_acts = []\<rparr>"

definition sample_env :: poll_env where
  "sample_env = \<lparr>en_nodeIP = ''10.0.0.1'', en_now = (\<lambda>_ _. 2), en_write = (\<lambda>_ _. True),
     en_clock = (\<lambda>_ _ _ _. \<lparr>pc_seed = 2, pc_since_start = 2, pc_since_last = 2, pc_mark = 2, pc_reset = 2, pc_jitter = 0\<rparr>),
     en_run = (\<lambda>_ _ _. ProbeSuccess), en_order = [''u1''], en_sched = (\<lambda>ts. ts)\<rparr>"

definition sample_machine :: "MachineState \<Rightarrow> PodMetadata" where
  "sample_machine st = \<lparr>m_Name = ''web'', m_Namespace = ''default'', m_UID = ''u1'', m_PodIP = [], m_ContainerName = ''a'',
     m_State = st, m_ExitCode = (if st = StateFailed then 1 else 0)\<rparr>"

lemmas watched_simps = watched_def watched_store_def StartBatchWatcher_def store_InitRestartState_def SetPhase_def setPhase_def
  RegisterPending_def NewPodStore_def with_pod_def with_pod_trigger_def new_entry_def getPodState_def triggerSnapshot_def add_used_def
  sample_pod_def sample_container_def init_restarts_def init_probes_def zero_ProbeState_def

section \<open>The watcher and the store\<close>

lemma watch_op_steps: "watch_op u s s' \<Longrightarrow> pod_step\<^sup>*\<^sup>* s s'"
  by (induction rule: watch_op.induct) (auto intro: pod_step.intros r_into_rtranclp)

lemma maybeRestart_store:
  "bw_store (maybeRestart u c bw) = (if IsDeleting (bw_store bw) u \<or> restarting bw (container_key u c) then bw_store bw
     else snd (BumpBackoff u c (bw_store bw)))"
  by (simp add: maybeRestart_def Let_def prod.case_eq_if)

interpretation wr: watch_invariant "\<lambda>bw. pod_step\<^sup>*\<^sup>* s0 (bw_store bw)" for s0
proof unfold_locales
  fix bw u s' assume "pod_step\<^sup>*\<^sup>* s0 (bw_store bw)" "watch_op u (bw_store bw) s'"
  then show "pod_step\<^sup>*\<^sup>* s0 (bw_store (with_store (\<lambda>_. s') bw))" by (simp add: rtranclp_trans [OF _ watch_op_steps])
next
  fix bw u c assume "pod_step\<^sup>*\<^sup>* s0 (bw_store bw)"
  then show "pod_step\<^sup>*\<^sup>* s0 (bw_store (maybeRestart u c bw))"
    by (auto simp: maybeRestart_store intro: rtranclp.rtrancl_into_rtrancl pod_step.bump)
next
  fix bw ph u assume "pod_step\<^sup>*\<^sup>* s0 (bw_store bw)" "terminal_phase ph"
  then show "pod_step\<^sup>*\<^sup>* s0 (bw_store (with_store (SetPhase u ph) bw))"
    by (auto intro: rtranclp.rtrancl_into_rtrancl pod_step.phase)
qed simp_all


lemma SetContainerState_entry:
  "pods (SetContainerState now u c st r s) v = pods s v \<or>
   (\<exists>e pd. u = v \<and> pods s v = Some e \<and> pods (SetContainerState now u c st r s) v = Some (e\<lparr>e_pod := pd\<rparr>)
      \<and> pod_Containers pd = pod_Containers (e_pod e) \<and> pod_RestartPolicy pd = pod_RestartPolicy (e_pod e))"
  by (auto simp: SetContainerState_def getPodState_def Let_def syncStatusToSpec_def split: option.split)

lemma SetContainerState_frame [simp]:
  "IsDeleting (SetContainerState now u c st r s) v = IsDeleting s v"
  "RestartState (SetContainerState now u c st r s) v d = RestartState s v d"
  "ProbeState (SetContainerState now u c st r s) v d = ProbeState s v d"
  "store_PodPhase (SetContainerState now u c st r s) v = store_PodPhase s v"
  using SetContainerState_entry [of now u c st r s v]
  by (auto simp: IsDeleting_def RestartState_def ProbeState_def store_PodPhase_def getPodState_def)

lemma watch_op_frame:
  assumes "watch_op u s s'"
  shows "IsDeleting s' v = IsDeleting s v" and "store_PodPhase s' v = store_PodPhase s v"
    and "map_option rs_count (RestartState s' v c) = map_option rs_count (RestartState s v c)"
proof -
  have "IsDeleting s' v = IsDeleting s v \<and> store_PodPhase s' v = store_PodPhase s v
      \<and> map_option rs_count (RestartState s' v c) = map_option rs_count (RestartState s v c)"
    using assms
  proof (induction rule: watch_op.induct)
    case (container u s now c st r)
    then show ?case by simp
  qed (auto simp: pods_with_pod UpdateProbeState_def ResetProbeState_def ResetBackoff_def update_restart_def
      IsDeleting_def RestartState_def store_PodPhase_def getPodState_def option.map_comp comp_def split: option.split)
  then show "IsDeleting s' v = IsDeleting s v" and "store_PodPhase s' v = store_PodPhase s v"
    and "map_option rs_count (RestartState s' v c) = map_option rs_count (RestartState s v c)" by simp_all
qed

lemma BumpBackoff_frame:
  "IsDeleting (snd (BumpBackoff u c s)) v = IsDeleting s v"
  "store_PodPhase (snd (BumpBackoff u c s)) v = store_PodPhase s v"
  "(u, c) \<noteq> (v, d) \<Longrightarrow> RestartState (snd (BumpBackoff u c s)) v d = RestartState s v d"
  by (auto simp: BumpBackoff_def update_restart_def pods_with_pod IsDeleting_def RestartState_def store_PodPhase_def getPodState_def
      split: option.split)

lemma SetPhase_frame:
  "IsDeleting (SetPhase u ph s) v = IsDeleting s v" "RestartState (SetPhase u ph s) v d = RestartState s v d"
  "u \<noteq> v \<Longrightarrow> store_PodPhase (SetPhase u ph s) v = store_PodPhase s v"
  by (auto simp: SetPhase_def setPhase_def with_pod_trigger_def with_pod_def triggerSnapshot_def IsDeleting_def RestartState_def
      store_PodPhase_def getPodState_def split: option.split)

section \<open>Pods being deleted\<close>

fun launch_uid :: "string \<Rightarrow> node_action \<Rightarrow> bool" where
  "launch_uid u (LaunchRestart v _ _ _) = (v = u)"
| "launch_uid u _ = False"

definition launched :: "string \<Rightarrow> BatchWatcher \<Rightarrow> node_action list" where
  "launched u bw = filter (launch_uid u) (g_acts (bw_g bw))"

lemma plain_not_launch [simp]: "plain_action a \<Longrightarrow> \<not> launch_uid u a"
  by (cases a) simp_all

lemma deleting_maybeRestart:
  "IsDeleting (bw_store bw) u \<Longrightarrow> IsDeleting (bw_store (maybeRestart v c bw)) u \<and> launched u (maybeRestart v c bw) = launched u bw"
  by (auto simp: maybeRestart_def launched_def Let_def prod.case_eq_if BumpBackoff_frame)

interpretation wd: watch_invariant "\<lambda>bw. IsDeleting (bw_store bw) u \<and> launched u bw = as" for u as
proof unfold_locales
  fix bw v s' assume "IsDeleting (bw_store bw) u \<and> launched u bw = as" "watch_op v (bw_store bw) s'"
  then show "IsDeleting (bw_store (with_store (\<lambda>_. s') bw)) u \<and> launched u (with_store (\<lambda>_. s') bw) = as"
    by (simp add: watch_op_frame launched_def)
next
  fix bw v c assume "IsDeleting (bw_store bw) u \<and> launched u bw = as"
  then show "IsDeleting (bw_store (maybeRestart v c bw)) u \<and> launched u (maybeRestart v c bw) = as"
    by (simp add: deleting_maybeRestart)
qed (simp_all add: launched_def SetPhase_frame)

lemma launched_none: "(\<And>key. filter (is_launch key) as = []) \<Longrightarrow> filter (launch_uid u) as = []"
proof (induction as)
  case (Cons a as)
  have "filter (is_launch key) as = []" for key using Cons.prems [of key] by (simp split: if_splits)
  moreover have "\<not> launch_uid u a"
  proof (cases a)
    case (LaunchRestart v c n b)
    then show ?thesis using Cons.prems [of "container_key v c"] by simp
  qed simp_all
  ultimately show ?case using Cons.IH by simp
qed simp

lemma watch_step_deleting:
  assumes "watch_step bw bw'" and "IsDeleting (bw_store bw) u"
  shows "launched u bw' = launched u bw"
  using assms
proof (induction rule: watch_step.induct)
  case (poll bw env listed)
  then show ?case using wd.P_any_poll [of bw u "launched u bw" env listed] by simp
next
  case (event bw env pawn send listed unit sub)
  then show ?case using wd.P_event [of bw u "launched u bw" env pawn send listed unit sub] by simp
next
  case (other g' bw as)
  then show ?case by (simp add: launched_def launched_none)
qed (simp_all add: launched_def MarkRunning_def Poke_def restart_done_def)

text \<open>C7: in every run of the watcher, with polls, unit events and restart goroutines in any order,
  a container has at most one restart in flight: the restarts launched for it exceed the finished ones
  by one exactly while its entry in \<open>restarting\<close> is set, and are as many otherwise. No step launches a
  restart for a pod that is being deleted.\<close>

theorem restart_exclusive:
  assumes "watch_step\<^sup>*\<^sup>* (StartBatchWatcher g) bw" and "g_acts g = []"
  shows "launches key bw = dones key bw + (if restarting bw key then 1 else 0) \<and>
    (watch_step bw bw' \<and> IsDeleting (bw_store bw) u \<longrightarrow> launched u bw' = launched u bw)"
proof -
  have "balance k (StartBatchWatcher g) = 0" for k
    using assms(2) by (simp add: balance_def launches_def dones_def StartBatchWatcher_def)
  from watch_run_balance [OF assms(1) this, of key] show ?thesis
    by (auto simp: balance_def of_bool_def watch_step_deleting split: if_splits)
qed

section \<open>Crashed containers\<close>

definition restart_due :: "string \<Rightarrow> string \<Rightarrow> int \<Rightarrow> BatchWatcher \<Rightarrow> bool" where
  "restart_due u c n bw \<longleftrightarrow> restarting bw (container_key u c) \<or>
     \<not> IsDeleting (bw_store bw) u \<and> map_option rs_count (RestartState (bw_store bw) u c) = Some n \<and> int32 (n + 1) \<noteq> 0"

lemma rs_count_bump [simp]: "rs_count (bump r) = int32 (rs_count r + 1)"
  by (simp add: bump_def Let_def)

lemma restart_due_maybe: "restart_due u c n bw \<Longrightarrow> restart_due u c n (maybeRestart v d bw)"
  by (cases "(v, d) = (u, c)")
    (auto simp: restart_due_def maybeRestart_def Let_def prod.case_eq_if BumpBackoff_frame fst_BumpBackoff)

lemma restart_due_now: "restart_due u c n bw \<Longrightarrow> restarting (maybeRestart u c bw) (container_key u c)"
  by (auto simp: restart_due_def maybeRestart_def Let_def prod.case_eq_if fst_BumpBackoff)

interpretation wc: watch_invariant "restart_due u c n" for u c n
proof unfold_locales
  fix bw v s' assume "restart_due u c n bw" "watch_op v (bw_store bw) s'"
  then show "restart_due u c n (with_store (\<lambda>_. s') bw)" by (simp add: restart_due_def watch_op_frame)
next
  fix bw v d assume "restart_due u c n bw"
  then show "restart_due u c n (maybeRestart v d bw)" by (rule restart_due_maybe)
qed (simp_all add: restart_due_def SetPhase_frame)

lemma restarting_maybe: "restarting bw key \<Longrightarrow> restarting (maybeRestart u c bw) key"
  by (auto simp: maybeRestart_def Let_def prod.case_eq_if)

interpretation wk: watch_invariant "\<lambda>bw. restarting bw key" for key
  by unfold_locales (simp_all add: restarting_maybe)

lemma check_failed:
  assumes "restart_due u (c_Name c) n (snd acc)" and "sm (container_key u (c_Name c)) = Some StateFailed"
    and "policy = RestartPolicyAlways \<or> policy = RestartPolicyOnFailure"
  shows "restarting (snd (check_container_state env sm em u ip policy c acc)) (container_key u (c_Name c))"
  using assms restart_due_now [OF wc.P_stopped [OF assms(1)]]
  by (simp add: check_container_state_def Let_def prod.case_eq_if)

lemma checkPod_failed:
  assumes due: "restart_due u (c_Name c) n bw" and c: "c \<in> set (pod_Containers pd)"
    and failed: "sm (container_key u (c_Name c)) = Some StateFailed"
    and policy: "effective_policy pd = RestartPolicyAlways \<or> effective_policy pd = RestartPolicyOnFailure"
  shows "restarting (checkPod env sm em u pd ip bw) (container_key u (c_Name c))"
proof -
  let ?key = "container_key u (c_Name c)"
  let ?f = "check_container_state env sm em u ip (effective_policy pd)"
  obtain xs ys where cs: "pod_Containers pd = xs @ c # ys" using c by (auto dest: split_list)
  have "restart_due u (c_Name c) n (snd (fold ?f xs (check_start, bw)))" by (rule wc.P_check_containers [OF due])
  then have "restarting (snd (?f c (fold ?f xs (check_start, bw)))) ?key" using failed policy by (rule check_failed)
  then have "restarting (snd (fold ?f ys (?f c (fold ?f xs (check_start, bw))))) ?key"
    by (rule fold_invariant [where Q = "\<lambda>acc. restarting (snd acc) ?key", rotated]) (rule wk.P_check_container)
  then have "restarting (snd (fold ?f (pod_Containers pd) (check_start, bw))) ?key" by (simp add: cs)
  then show ?thesis
    by (simp add: checkPod_def Let_def prod.case_eq_if wk.P_backoff wk.P_terminal terminal_phase_def)
qed

lemma poll_restarts:
  assumes "u \<in> set (en_order env)" and "Snapshot (bw_store bw) u = Some e"
    and "pe_Phase e \<noteq> PodPending" and "\<not> terminal_phase (pe_Phase e)" and "c \<in> set (pod_Containers (pe_Pod e))"
    and "effective_policy (pe_Pod e) = RestartPolicyAlways \<or> effective_policy (pe_Pod e) = RestartPolicyOnFailure"
    and "state_index ms (container_key u (c_Name c)) = Some StateFailed"
    and "\<not> IsDeleting (bw_store bw) u" and "RestartState (bw_store bw) u (c_Name c) = Some r" and "int32 (rs_count r + 1) \<noteq> 0"
  shows "restarting (poll env (Some ms) bw) (container_key u (c_Name c))"
proof -
  let ?key = "container_key u (c_Name c)"
  let ?due = "restart_due u (c_Name c) (rs_count r)"
  let ?sm = "state_index ms"
  let ?bw1 = "bw\<lparr>stateCache := ?sm, sameMap := False\<rparr>"
  let ?en = "Snapshot (bw_store ?bw1)"
  let ?f = "check_entry env ?sm (exit_index ms) ?en"
  let ?bw2 = "probe_fanout env ?sm ?en ?bw1"
  have due2: "?due ?bw2" by (rule wc.P_fanout) (simp add: restart_due_def assms)
  obtain xs ys where order: "en_order env = xs @ u # ys" using assms(1) by (auto dest: split_list)
  let ?acc = "fold ?f xs ([], ?bw2)"
  have due: "?due (snd ?acc)"
    by (rule wc.P_any_entries) (simp only: snd_conv due2)
  have "restarting (snd (?f u ?acc)) ?key"
  proof (cases "IsDeleting (bw_store (snd ?acc)) u")
    case True
    then show ?thesis using due assms(2) by (auto simp: check_entry_def prod.case_eq_if restart_due_def)
  next
    case False
    have "restarting (checkPod env ?sm (exit_index ms) u (pe_Pod e) (pe_PodIP e)
        (snd (fold (note_change ?sm u) (pod_Containers (pe_Pod e)) (False, snd ?acc)))) ?key"
      by (rule checkPod_failed [OF wc.P_changes [OF due]]) (use assms in simp_all)
    moreover have "pod_Containers (pe_Pod e) \<noteq> []" using assms(5) by auto
    ultimately show ?thesis using False assms(2-4) by (simp add: check_entry_def prod.case_eq_if)
  qed
  then have "restarting (snd (fold ?f ys (?f u ?acc))) ?key"
    by (rule wk.P_any_entries)
  then have "restarting (fold (coalesce env ?sm changed) (en_order env) (snd (fold ?f ys (?f u ?acc)))) ?key" for changed
    by (rule wk.P_coalesces)
  then show ?thesis by (simp add: poll_def prod.case_eq_if Let_def rotate_maps_def order)
qed

text \<open>C10: a container that crashed is restarted: if the machine of a container of a running pod is
  failed and the policy is Always or OnFailure, a poll leaves the container with a restart in flight.
  The pod is not being deleted, and the 32-bit counter does not wrap to zero.\<close>

theorem crash_restarts:
  assumes "u \<in> set (en_order env)" and "Snapshot (bw_store bw) u = Some e"
    and "pe_Phase e \<noteq> PodPending" and "\<not> terminal_phase (pe_Phase e)" and "c \<in> set (pod_Containers (pe_Pod e))"
    and "effective_policy (pe_Pod e) = RestartPolicyAlways \<or> effective_policy (pe_Pod e) = RestartPolicyOnFailure"
    and "state_index ms (container_key u (c_Name c)) = Some StateFailed"
    and "\<not> IsDeleting (bw_store bw) u" and "RestartState (bw_store bw) u (c_Name c) = Some r" and "int32 (rs_count r + 1) \<noteq> 0"
  shows "restarting (poll env (Some ms) bw) (container_key u (c_Name c))"
  using assms by (rule poll_restarts)

lemma watched_entry:
  "Snapshot (watched_store policy) ''u1'' = Some \<lparr>pe_Pod = (sample_pod policy [''a''])\<lparr>pod_Status := empty_status\<lparr>ps_Phase := PodRunning\<rparr>\<rparr>,
     pe_Phase = PodRunning, pe_PodIP = []\<rparr>"
  "RestartState (watched_store policy) ''u1'' ''a'' = Some \<lparr>rs_count = 0, rs_backoff = restartBackoffInit, rs_lastStarted = 1\<rparr>"
  "\<not> IsDeleting (watched_store policy) ''u1''"
  by (simp_all add: watched_simps Snapshot_def RestartState_def IsDeleting_def)

lemma watched_store_of [simp]: "bw_store (watched policy) = watched_store policy"
  by (simp add: watched_def StartBatchWatcher_def)

lemma watched_crashed:
  "restarting (poll sample_env (Some [sample_machine StateFailed]) (watched ''Always'')) (container_key ''u1'' ''a'')"
proof -
  have "restarting (poll sample_env (Some [sample_machine StateFailed]) (watched ''Always'')) (container_key ''u1'' (c_Name (sample_container ''a'')))"
    by (rule poll_restarts [OF _ watched_entry(1) [of RestartPolicyAlways, folded watched_store_of],
          where r = "\<lparr>rs_count = 0, rs_backoff = restartBackoffInit, rs_lastStarted = 1\<rparr>"])
      (simp_all add: watched_entry sample_env_def terminal_phase_def sample_pod_def sample_container_def effective_policy_def
        state_index_def sample_machine_def int32_def)
  then show ?thesis by (simp add: sample_container_def)
qed

theorem crash_restarts_witness:
  "restarting (poll sample_env (Some [sample_machine StateFailed]) (watched ''Always'')) (container_key ''u1'' ''a'')"
proof -
  have "restarting (poll sample_env (Some [sample_machine StateFailed]) (watched ''Always'')) (container_key ''u1'' (c_Name (sample_container ''a'')))"
    by (rule crash_restarts [OF _ watched_entry(1) [of RestartPolicyAlways, folded watched_store_of],
          where r = "\<lparr>rs_count = 0, rs_backoff = restartBackoffInit, rs_lastStarted = 1\<rparr>"])
      (simp_all add: watched_entry sample_env_def terminal_phase_def sample_pod_def sample_container_def effective_policy_def
        state_index_def sample_machine_def int32_def)
  then show ?thesis by (simp add: sample_container_def)
qed

theorem restart_exclusive_witness:
  "(let bw = poll sample_env (Some [sample_machine StateFailed]) (watched ''Always'') in
      launches (container_key ''u1'' ''a'') bw = dones (container_key ''u1'' ''a'') bw + 1) \<and>
   (let bw = StartBatchWatcher \<lparr>g_store = MarkDeleting ''u1'' (watched_store ''Always''), g_files = Map.empty, g_acts = []\<rparr> in
      launched ''u1'' (poll sample_env (Some [sample_machine StateFailed]) bw) = [])"
proof -
  let ?bw = "poll sample_env (Some [sample_machine StateFailed]) (watched ''Always'')"
  let ?g = "\<lparr>g_store = MarkDeleting ''u1'' (watched_store ''Always''), g_files = Map.empty, g_acts = []\<rparr>"
  have "watch_step\<^sup>*\<^sup>* (watched ''Always'') ?bw" by (rule r_into_rtranclp, rule watch_step.poll)
  then have "launches (container_key ''u1'' ''a'') ?bw = dones (container_key ''u1'' ''a'') ?bw + 1"
    using restart_exclusive [of "\<lparr>g_store = watched_store ''Always'', g_files = Map.empty, g_acts = []\<rparr>" ?bw "container_key ''u1'' ''a''" ?bw "''u1''"]
      watched_crashed by (simp only: watched_def [symmetric]) simp
  moreover have "IsDeleting (MarkDeleting ''u1'' (watched_store ''Always'')) ''u1''"
    by (simp add: MarkDeleting_def watched_simps IsDeleting_def)
  then have "launched ''u1'' (poll sample_env (Some [sample_machine StateFailed]) (StartBatchWatcher ?g)) = launched ''u1'' (StartBatchWatcher ?g)"
    using restart_exclusive [of ?g "StartBatchWatcher ?g" key "poll sample_env (Some [sample_machine StateFailed]) (StartBatchWatcher ?g)" "''u1''" for key]
    by (simp add: watch_step.poll) (simp add: StartBatchWatcher_def)
  ultimately show ?thesis by (simp add: Let_def launched_def StartBatchWatcher_def)
qed

end
