(* ===== verification/Batch_Watcher_Phase.thy ===== *)
theory Batch_Watcher_Phase
  imports Batch_Watcher_Props
begin

text \<open>
  Phases and status pushes of the batch watcher: when a pod becomes terminal and with which phase,
  that a pod which is always restarted never does, and that a poll in which nothing changed
  pushes nothing. The last section shows what the shared state map hides.
\<close>

section \<open>Pods that are always restarted\<close>

interpretation wp: watch_core "\<lambda>bw. store_PodPhase (bw_store bw) u = ph" for u ph
  by unfold_locales (simp_all add: watch_op_frame maybeRestart_store BumpBackoff_frame)

lemma allExited_mono:
  "allExited (fst (check_container_state env sm em u ip policy c acc)) \<Longrightarrow> allExited (fst acc)"
  by (auto simp: check_container_state_def Let_def prod.case_eq_if split: if_splits MachineState.splits)

lemma allExited_fold_mono:
  "allExited (fst (fold (check_container_state env sm em u ip policy) cs acc)) \<Longrightarrow> allExited (fst acc)"
proof (induction cs arbitrary: acc)
  case (Cons c cs)
  have "allExited (fst (check_container_state env sm em u ip policy c acc))"
    by (rule Cons.IH) (use Cons.prems in simp)
  then show ?case by (rule allExited_mono)
qed simp

lemma always_not_exited:
  assumes "sm (container_key u (c_Name c)) \<noteq> Some StateUnknown"
  shows "\<not> allExited (fst (check_container_state env sm em u ip RestartPolicyAlways c acc))"
  using assms
  by (auto simp: check_container_state_def Let_def prod.case_eq_if split: MachineState.splits option.splits)

lemma always_not_finished:
  assumes "\<And>key. sm key \<noteq> Some StateUnknown" and "effective_policy (pe_Pod e) = RestartPolicyAlways"
  shows "\<not> may_finish env sm em u e"
proof (cases "pod_Containers (pe_Pod e)")
  case (Cons c cs)
  then show ?thesis
    using always_not_exited [where u = u and c = c and env = env and em = em and ip = "pe_PodIP e", OF assms(1)] assms(2)
    by (auto simp: may_finish_def dest!: allExited_fold_mono)
qed (simp add: may_finish_def)

text \<open>C27: a poll never moves a pod with restart policy Always to a terminal phase, whatever machines
  the runtime lists and whatever the probes say: its phase stays as it is.\<close>

theorem always_never_terminal:
  assumes "Snapshot (bw_store bw) u = Some e" and "effective_policy (pe_Pod e) = RestartPolicyAlways"
  shows "store_PodPhase (bw_store (poll env (ListManagedMachines pawn mainStatus environment units) bw)) u = store_PodPhase (bw_store bw) u"
proof (rule wp.P_poll [where bw0 = bw])
  fix ms v e' bw' ph
  assume ms: "ListManagedMachines pawn mainStatus environment units = Some ms" and e': "Snapshot (bw_store bw) v = Some e'"
    and finish: "may_finish env (state_index ms) (exit_index ms) v e'"
    and phase: "store_PodPhase (bw_store bw') u = store_PodPhase (bw_store bw) u"
  have "state_index ms key \<noteq> Some StateUnknown" for key
    using lm.indexed_known [OF ms, where key = "\<lambda>m. container_key (m_UID m) (m_ContainerName m)" and k = key and st = StateUnknown]
    by (auto simp: state_index_def)
  with finish e' assms have "v \<noteq> u" using always_not_finished [of "state_index ms" e'] by auto
  with phase show "store_PodPhase (bw_store (with_store (SetPhase v ph) bw')) u = store_PodPhase (bw_store bw) u"
    by (simp add: SetPhase_frame)
qed simp_all

theorem always_never_terminal_witness:
  "store_PodPhase (bw_store (poll sample_env (ListManagedMachines ''p'' (\<lambda>_. None)
     (\<lambda>_. Some [''PERIGEOS_META_UID=u1'', ''PERIGEOS_META_CONTAINER=a'']) (Some [(''x'', ''inactive'')])) (watched []))) ''u1'' = PodRunning"
proof -
  have e: "Snapshot (bw_store (watched [])) ''u1'' = Some \<lparr>pe_Pod = (sample_pod [] [''a''])\<lparr>pod_Status := empty_status\<lparr>ps_Phase := PodRunning\<rparr>\<rparr>,
      pe_Phase = PodRunning, pe_PodIP = []\<rparr>" by (simp add: watched_entry)
  have "store_PodPhase (bw_store (watched [])) ''u1'' = PodRunning" by (simp add: watched_simps store_PodPhase_def)
  then show ?thesis
    by (subst always_never_terminal [OF e]) (simp_all add: effective_policy_def sample_pod_def)
qed

section \<open>Terminal phases\<close>

lemma watch_op_registered: "watch_op v s s' \<Longrightarrow> (pods s' u = None) = (pods s u = None)"
proof (induction rule: watch_op.induct)
  case (container v s now c st r)
  then show ?case using SetContainerState_entry [of now v c st r s u] by auto
qed (simp_all add: pods_with_pod UpdateProbeState_def ResetProbeState_def ResetBackoff_def update_restart_def)

interpretation wh: watch_core "\<lambda>bw. pods (bw_store bw) u \<noteq> None" for u
proof unfold_locales
  fix bw v s' assume "pods (bw_store bw) u \<noteq> None" "watch_op v (bw_store bw) s'"
  then show "pods (bw_store (with_store (\<lambda>_. s') bw)) u \<noteq> None" by (simp add: watch_op_registered)
qed (auto simp: maybeRestart_store BumpBackoff_def update_restart_def pods_with_pod split: option.split)

definition finished_container :: "(string \<rightharpoonup> MachineState) \<Rightarrow> (string \<rightharpoonup> int) \<Rightarrow> RestartPolicy \<Rightarrow> string \<Rightarrow> BatchWatcher \<Rightarrow> container \<Rightarrow> bool" where
  "finished_container sm em policy u bw c \<longleftrightarrow> (let key = container_key u (c_Name c) in
     \<not> restarting bw key \<and> (case sm key of
       None \<Rightarrow> seenRunning bw key \<and> policy \<noteq> RestartPolicyAlways
     | Some StateExited \<Rightarrow> (seenRunning bw key \<or> em key = None \<or> em key = Some 0) \<and> policy \<noteq> RestartPolicyAlways
     | Some StateFailed \<Rightarrow> policy \<noteq> RestartPolicyAlways \<and> policy \<noteq> RestartPolicyOnFailure
     | Some StateUnknown \<Rightarrow> seenRunning bw key
     | Some _ \<Rightarrow> False))"

lemma maybeRestart_other:
  "key \<noteq> container_key u c \<Longrightarrow> restarting (maybeRestart u c bw) key = restarting bw key"
  "seenRunning (maybeRestart u c bw) = seenRunning bw" "prevStateMap (maybeRestart u c bw) = prevStateMap bw"
  "prevReady (maybeRestart u c bw) = prevReady bw"
  by (simp_all add: maybeRestart_def Let_def prod.case_eq_if)

lemma watch_op_other: "watch_op u s s' \<Longrightarrow> v \<noteq> u \<Longrightarrow> pods s' v = pods s v"
proof (induction rule: watch_op.induct)
  case (container u s now c st r)
  then show ?case using SetContainerState_entry [of now u c st r s v] by auto
qed (simp_all add: pods_with_pod UpdateProbeState_def ResetProbeState_def ResetBackoff_def update_restart_def)

lemmas probe_ops_other = watch_op_other [OF probe_due_op] watch_op_other [OF eval_probe_op] watch_op_other [OF watch_op.reset_probe]

lemma maybeRestart_pods: "v \<noteq> u \<Longrightarrow> pods (bw_store (maybeRestart u c bw)) v = pods (bw_store bw) v"
  by (simp add: maybeRestart_store BumpBackoff_def update_restart_def pods_with_pod split: option.split)

lemma startup_other:
  "key \<noteq> container_key u c \<Longrightarrow> restarting (bw_startup k run u c p bw) key = restarting bw key"
  "seenRunning (bw_startup k run u c p bw) = seenRunning bw" "prevStateMap (bw_startup k run u c p bw) = prevStateMap bw"
  "prevReady (bw_startup k run u c p bw) = prevReady bw" "v \<noteq> u \<Longrightarrow> pods (bw_store (bw_startup k run u c p bw)) v = pods (bw_store bw) v"
  by (simp_all add: bw_startup_def Let_def prod.case_eq_if maybeRestart_other maybeRestart_pods probe_ops_other split: option.split)

lemma liveness_other:
  "key \<noteq> container_key u c \<Longrightarrow> restarting (snd (bw_liveness k run u c p bw)) key = restarting bw key"
  "seenRunning (snd (bw_liveness k run u c p bw)) = seenRunning bw" "prevStateMap (snd (bw_liveness k run u c p bw)) = prevStateMap bw"
  "prevReady (snd (bw_liveness k run u c p bw)) = prevReady bw" "v \<noteq> u \<Longrightarrow> pods (bw_store (snd (bw_liveness k run u c p bw))) v = pods (bw_store bw) v"
  by (simp_all add: bw_liveness_def Let_def prod.case_eq_if maybeRestart_other maybeRestart_pods probe_ops_other split: option.split)

lemma readiness_other:
  "restarting (bw_readiness k run u c p bw) = restarting bw"
  "seenRunning (bw_readiness k run u c p bw) = seenRunning bw" "prevStateMap (bw_readiness k run u c p bw) = prevStateMap bw"
  "prevReady (bw_readiness k run u c p bw) = prevReady bw" "v \<noteq> u \<Longrightarrow> pods (bw_store (bw_readiness k run u c p bw)) v = pods (bw_store bw) v"
  by (simp_all add: bw_readiness_def Let_def prod.case_eq_if probe_ops_other split: option.split)

lemma probes_other:
  "key \<noteq> container_key u (c_Name c) \<Longrightarrow> restarting (runProbes k run u c bw) key = restarting bw key"
  "seenRunning (runProbes k run u c bw) = seenRunning bw" "prevStateMap (runProbes k run u c bw) = prevStateMap bw"
  "prevReady (runProbes k run u c bw) = prevReady bw" "v \<noteq> u \<Longrightarrow> pods (bw_store (runProbes k run u c bw)) v = pods (bw_store bw) v"
  by (simp_all add: runProbes_def Let_def prod.case_eq_if startup_other liveness_other readiness_other split: option.split)

lemma check_other:
  assumes "key \<noteq> container_key u (c_Name c)"
  shows "restarting (snd (check_container_state env sm em u ip policy c acc)) key = restarting (snd acc) key"
    and "seenRunning (snd (check_container_state env sm em u ip policy c acc)) key = seenRunning (snd acc) key"
  using assms
  by (simp_all add: check_container_state_def check_running_def check_stopped_def Let_def prod.case_eq_if maybeRestart_other probes_other
      split: MachineState.split option.split)

lemma check_exited:
  "allExited (fst (check_container_state env sm em u ip policy c acc)) \<longleftrightarrow>
     allExited (fst acc) \<and> finished_container sm em policy u (snd acc) c"
proof (cases "sm (container_key u (c_Name c))")
  case None
  then show ?thesis by (simp add: check_container_state_def finished_container_def Let_def prod.case_eq_if)
next
  case (Some st)
  then show ?thesis
    by (cases st; simp add: check_container_state_def finished_container_def Let_def prod.case_eq_if split: option.split)
qed

lemma check_succeeded:
  assumes "allExited (fst (check_container_state env sm em u ip policy c acc))"
  shows "allSucceeded (fst (check_container_state env sm em u ip policy c acc)) \<longleftrightarrow>
     allSucceeded (fst acc) \<and> sm (container_key u (c_Name c)) \<noteq> Some StateFailed"
proof (cases "sm (container_key u (c_Name c))")
  case None
  with assms show ?thesis by (simp add: check_container_state_def Let_def prod.case_eq_if split: if_splits)
next
  case (Some st)
  with assms show ?thesis
    by (cases st; auto simp: check_container_state_def Let_def prod.case_eq_if split: if_splits)
qed

lemma finished_other:
  assumes "c_Name d \<noteq> c_Name c"
  shows "finished_container sm em policy' u (snd (check_container_state env sm em u ip policy c acc)) d
    = finished_container sm em policy' u (snd acc) d"
proof -
  have "container_key u (c_Name d) \<noteq> container_key u (c_Name c)" using assms by (simp add: container_key_def)
  note other = check_other [OF this, of env sm em ip policy acc]
  show ?thesis unfolding finished_container_def Let_def other ..
qed

lemma fold_exited:
  assumes "distinct (map c_Name cs)"
  shows "allExited (fst (fold (check_container_state env sm em u ip policy) cs acc)) \<longleftrightarrow>
    allExited (fst acc) \<and> (\<forall>c\<in>set cs. finished_container sm em policy u (snd acc) c)"
  using assms
proof (induction cs arbitrary: acc)
  case (Cons c cs)
  have "finished_container sm em policy u (snd (check_container_state env sm em u ip policy c acc)) d
      = finished_container sm em policy u (snd acc) d" if "d \<in> set cs" for d
  proof (rule finished_other)
    have "c_Name d \<in> c_Name ` set cs" using that by simp
    then show "c_Name d \<noteq> c_Name c" using Cons.prems by auto
  qed
  then show ?case using Cons by (simp add: check_exited)
qed simp

lemma fold_succeeded:
  assumes "allExited (fst (fold (check_container_state env sm em u ip policy) cs acc))"
  shows "allSucceeded (fst (fold (check_container_state env sm em u ip policy) cs acc)) \<longleftrightarrow>
    allSucceeded (fst acc) \<and> (\<forall>c\<in>set cs. sm (container_key u (c_Name c)) \<noteq> Some StateFailed)"
  using assms
proof (induction cs arbitrary: acc)
  case (Cons c cs)
  from Cons.prems have "allExited (fst (check_container_state env sm em u ip policy c acc))"
    by (auto dest: allExited_fold_mono)
  with Cons check_succeeded [OF this] show ?case by auto
qed simp

lemma SetPhase_phase: "pods s u \<noteq> None \<Longrightarrow> store_PodPhase (SetPhase u ph s) u = ph"
  by (auto simp: SetPhase_def setPhase_def with_pod_trigger_def with_pod_def triggerSnapshot_def store_PodPhase_def getPodState_def)

lemma fold_act_store: "bw_store (fold (\<lambda>c. bw_act (a c)) cs bw) = bw_store bw"
  by (induction cs arbitrary: bw) simp_all

lemma set_terminal_phase:
  "pods (bw_store bw) u \<noteq> None \<Longrightarrow> store_PodPhase (bw_store (set_terminal env sm u ph pd bw)) u = ph"
  by (simp add: set_terminal_def Let_def fold_act_store SetPhase_phase split: option.split)

text \<open>C8: the check of a pod gives it a terminal phase exactly when every container is finished: no
  restart is in flight for it, its machine has ended in a way its policy does not restart, and it was
  seen running or left an exit code of zero. The phase is Failed if the machine of some
  container failed and Succeeded otherwise; in all other cases the phase of the pod is kept.\<close>

theorem terminal_phase_exact:
  assumes "distinct (map c_Name (pod_Containers pd))" and "HasPod (bw_store bw) u"
  shows "store_PodPhase (bw_store (checkPod env sm em u pd ip bw)) u =
    (if \<forall>c\<in>set (pod_Containers pd). finished_container sm em (effective_policy pd) u bw c
     then (if \<exists>c\<in>set (pod_Containers pd). sm (container_key u (c_Name c)) = Some StateFailed then PodFailed else PodSucceeded)
     else store_PodPhase (bw_store bw) u)"
proof -
  let ?r = "fold (check_container_state env sm em u ip (effective_policy pd)) (pod_Containers pd) (check_start, bw)"
  let ?bw2 = "if anyRestarting (fst ?r) \<and> \<not> IsDeleting (bw_store (snd ?r)) u then push_backoff env sm u (snd ?r) else snd ?r"
  have ph: "store_PodPhase (bw_store (snd ?r)) u = store_PodPhase (bw_store bw) u" by (rule wp.P_check_containers) simp
  have store: "bw_store ?bw2 = bw_store (snd ?r)" by (simp add: push_backoff_def Let_def split: option.split)
  have "pods (bw_store (snd ?r)) u \<noteq> None"
    by (rule wh.P_check_containers) (use assms(2) in \<open>simp add: HasPod_def getPodState_def\<close>)
  then have t: "store_PodPhase (bw_store (set_terminal env sm u p pd ?bw2)) u = p" for p
    by (intro set_terminal_phase) (simp add: store)
  have pd: "checkPod env sm em u pd ip bw = (if \<not> allExited (fst ?r) then ?bw2
      else set_terminal env sm u (if allSucceeded (fst ?r) then PodSucceeded else PodFailed) pd ?bw2)"
    by (simp only: checkPod_def prod.case_eq_if Let_def)
  show ?thesis
  proof (cases "allExited (fst ?r)")
    case True
    have "allSucceeded (fst ?r) \<longleftrightarrow> (\<forall>c\<in>set (pod_Containers pd). sm (container_key u (c_Name c)) \<noteq> Some StateFailed)"
      using fold_succeeded [OF True] by simp
    moreover have "\<forall>c\<in>set (pod_Containers pd). finished_container sm em (effective_policy pd) u bw c"
      using True fold_exited [OF assms(1), of env sm em u ip "effective_policy pd" "(check_start, bw)"] by simp
    ultimately show ?thesis using True t unfolding pd by auto
  next
    case False
    then have "\<not> (\<forall>c\<in>set (pod_Containers pd). finished_container sm em (effective_policy pd) u bw c)"
      using fold_exited [OF assms(1), of env sm em u ip "effective_policy pd" "(check_start, bw)"] by simp
    then show ?thesis using False ph store unfolding pd by auto
  qed
qed

theorem terminal_phase_exact_witness:
  "(let pd = sample_pod RestartPolicyNever [''a'']; key = container_key ''u1'' ''a'' in
     store_PodPhase (bw_store (checkPod sample_env [key \<mapsto> StateExited] [key \<mapsto> 0] ''u1'' pd [] (watched RestartPolicyNever))) ''u1'' = PodSucceeded
   \<and> store_PodPhase (bw_store (checkPod sample_env [key \<mapsto> StateFailed] [key \<mapsto> 1] ''u1'' pd [] (watched RestartPolicyNever))) ''u1'' = PodFailed
   \<and> store_PodPhase (bw_store (checkPod sample_env [key \<mapsto> StateRunning] [key \<mapsto> 0] ''u1'' pd [] (watched RestartPolicyNever))) ''u1'' = PodRunning)"
proof -
  let ?pd = "sample_pod RestartPolicyNever [''a'']"
  have names: "distinct (map c_Name (pod_Containers ?pd))" by (simp add: sample_pod_def)
  have reg: "HasPod (bw_store (watched RestartPolicyNever)) ''u1''" by (simp add: watched_simps HasPod_def)
  have ph: "store_PodPhase (watched_store RestartPolicyNever) ''u1'' = PodRunning" by (simp add: watched_simps store_PodPhase_def)
  have idle: "\<not> restarting (watched RestartPolicyNever) key" for key by (simp add: watched_def StartBatchWatcher_def)
  show ?thesis
    unfolding Let_def terminal_phase_exact [OF names reg]
    by (simp add: finished_container_def Let_def idle ph sample_pod_def sample_container_def effective_policy_def)
qed

section \<open>Quiet polls\<close>

fun is_notify :: "node_action \<Rightarrow> bool" where
  "is_notify (NotifyPod _) = True"
| "is_notify _ = False"

definition notifies :: "BatchWatcher \<Rightarrow> node_action list" where
  "notifies bw = filter is_notify (g_acts (bw_g bw))"

lemma plain_not_notify [simp]: "plain_action a \<Longrightarrow> \<not> is_notify a"
  by (cases a) simp_all

interpretation wn: watch_probe "\<lambda>bw. notifies bw = ns" for ns
  by unfold_locales (simp_all add: notifies_def maybeRestart_def Let_def prod.case_eq_if)

text \<open>Nothing has changed for a container: its machine runs as in the poll before, and its readiness in
  the store \<open>s\<close> is the one that was pushed.\<close>

definition unchanged :: "(string \<rightharpoonup> MachineState) \<Rightarrow> string \<Rightarrow> PodStore \<Rightarrow> BatchWatcher \<Rightarrow> container \<Rightarrow> bool" where
  "unchanged sm u s bw c \<longleftrightarrow> (let key = container_key u (c_Name c) in
     sm key = Some StateRunning \<and> prevStateMap bw key = Some StateRunning \<and>
     (ProbeState s u (c_Name c) = None \<or> prevReady bw key = Some (IsContainerReady s u (c_Name c))))"

lemma note_unchanged:
  "\<forall>c\<in>set cs. unchanged sm u (bw_store bw) bw c \<Longrightarrow> fold (note_change sm u) cs (False, bw) = (False, bw)"
  by (induction cs) (auto simp: note_change_def unchanged_def Let_def)

lemma running_flags:
  assumes "sm (container_key u (c_Name c)) = Some StateRunning"
  shows "anyRestarting (fst (check_container_state env sm em u ip policy c acc)) = anyRestarting (fst acc)"
    and "\<not> allExited (fst (check_container_state env sm em u ip policy c acc))"
  using assms by (simp_all add: check_container_state_def Let_def prod.case_eq_if)

lemma running_any:
  "\<forall>c\<in>set cs. sm (container_key u (c_Name c)) = Some StateRunning \<Longrightarrow>
   anyRestarting (fst (fold (check_container_state env sm em u ip policy) cs acc)) = anyRestarting (fst acc)"
  by (induction cs arbitrary: acc) (simp_all add: running_flags)

lemma checkPod_running:
  assumes "\<forall>c\<in>set (pod_Containers pd). sm (container_key u (c_Name c)) = Some StateRunning" and "pod_Containers pd \<noteq> []"
  shows "checkPod env sm em u pd ip bw =
    snd (fold (check_container_state env sm em u ip (effective_policy pd)) (pod_Containers pd) (check_start, bw))"
proof -
  let ?f = "check_container_state env sm em u ip (effective_policy pd)"
  let ?r = "fold ?f (pod_Containers pd) (check_start, bw)"
  obtain c cs where cs: "pod_Containers pd = c # cs" using assms(2) by (cases "pod_Containers pd") auto
  have "\<not> allExited (fst (?f c (check_start, bw)))" using assms(1) cs by (intro running_flags) simp
  then have "\<not> allExited (fst ?r)" using allExited_fold_mono [of env sm em u ip "effective_policy pd" cs "?f c (check_start, bw)"]
    by (simp add: cs) blast
  moreover have "\<not> anyRestarting (fst ?r)" using running_any [OF assms(1)] by simp
  ultimately show ?thesis by (simp add: checkPod_def prod.case_eq_if Let_def)
qed

lemma check_frame:
  "prevStateMap (snd (check_container_state env sm em u ip policy c acc)) = prevStateMap (snd acc)"
  "prevReady (snd (check_container_state env sm em u ip policy c acc)) = prevReady (snd acc)"
  "v \<noteq> u \<Longrightarrow> pods (bw_store (snd (check_container_state env sm em u ip policy c acc))) v = pods (bw_store (snd acc)) v"
  by (simp_all add: check_container_state_def check_running_def check_stopped_def Let_def prod.case_eq_if maybeRestart_other maybeRestart_pods
      probes_other watch_op_other [OF watch_op.container] watch_op_other [OF watch_op.backoff] split: MachineState.split option.split)

lemma check_fold_frame:
  "prevStateMap (snd (fold (check_container_state env sm em u ip policy) cs acc)) = prevStateMap (snd acc)"
  "prevReady (snd (fold (check_container_state env sm em u ip policy) cs acc)) = prevReady (snd acc)"
  "v \<noteq> u \<Longrightarrow> pods (bw_store (snd (fold (check_container_state env sm em u ip policy) cs acc))) v = pods (bw_store (snd acc)) v"
  by (induction cs arbitrary: acc) (simp_all add: check_frame)

lemma entry_quiet:
  assumes "\<forall>e. entries u = Some e \<longrightarrow> (\<forall>c\<in>set (pod_Containers (pe_Pod e)). unchanged sm u (bw_store bw) bw c)"
  shows "\<exists>bw'. check_entry env sm em entries u (changed, bw) = (changed, bw') \<and> notifies bw' = notifies bw \<and>
    prevStateMap bw' = prevStateMap bw \<and> prevReady bw' = prevReady bw \<and> (\<forall>v. v \<noteq> u \<longrightarrow> pods (bw_store bw') v = pods (bw_store bw) v)"
proof (cases "entries u")
  case (Some e)
  let ?cs = "pod_Containers (pe_Pod e)"
  let ?r = "snd (fold (check_container_state env sm em u (pe_PodIP e) (effective_policy (pe_Pod e))) ?cs (check_start, bw))"
  from assms Some have un: "\<forall>c\<in>set ?cs. unchanged sm u (bw_store bw) bw c" by simp
  then have run: "\<forall>c\<in>set ?cs. sm (container_key u (c_Name c)) = Some StateRunning" by (simp add: unchanged_def Let_def)
  have "notifies ?r = notifies bw" by (rule wn.P_check_containers) simp
  then have r: "notifies ?r = notifies bw \<and> prevStateMap ?r = prevStateMap bw \<and> prevReady ?r = prevReady bw
      \<and> (\<forall>v. v \<noteq> u \<longrightarrow> pods (bw_store ?r) v = pods (bw_store bw) v)" by (simp add: check_fold_frame)
  have "check_entry env sm em entries u (changed, bw) = (changed, bw) \<or> check_entry env sm em entries u (changed, bw) = (changed, ?r)"
    using Some by (auto simp: check_entry_def note_unchanged [OF un] checkPod_running [OF run])
  then show ?thesis using r by (elim disjE) (simp_all add: exI [of _ bw] exI [of _ ?r])
qed (simp add: check_entry_def)

lemma entries_quiet:
  assumes "distinct us" and "\<forall>u\<in>set us. \<forall>e. entries u = Some e \<longrightarrow> (\<forall>c\<in>set (pod_Containers (pe_Pod e)). unchanged sm u s bw0 c)"
    and "\<forall>u\<in>set us. pods (bw_store bw) u = pods s u" and "prevStateMap bw = prevStateMap bw0" and "prevReady bw = prevReady bw0"
  shows "\<exists>bw'. fold (check_entry env sm em entries) us (changed, bw) = (changed, bw') \<and> notifies bw' = notifies bw"
  using assms
proof (induction us arbitrary: bw)
  case (Cons u us)
  have same: "ProbeState (bw_store bw) u c = ProbeState s u c \<and> IsContainerReady (bw_store bw) u c = IsContainerReady s u c" for c
    using Cons.prems(3) by (simp add: ProbeState_def IsContainerReady_def getPodState_def)
  have "\<forall>e. entries u = Some e \<longrightarrow> (\<forall>c\<in>set (pod_Containers (pe_Pod e)). unchanged sm u (bw_store bw) bw c)"
    using Cons.prems(2,4,5) by (simp add: unchanged_def Let_def same)
  from entry_quiet [where entries = entries and u = u and sm = sm and bw = bw and env = env and em = em and changed = changed, OF this]
  obtain bw1
    where bw1: "check_entry env sm em entries u (changed, bw) = (changed, bw1)" "notifies bw1 = notifies bw"
      "prevStateMap bw1 = prevStateMap bw" "prevReady bw1 = prevReady bw" "\<forall>v. v \<noteq> u \<longrightarrow> pods (bw_store bw1) v = pods (bw_store bw) v"
    by blast
  have "\<forall>v\<in>set us. pods (bw_store bw1) v = pods s v" using bw1(5) Cons.prems(1,3) by auto
  then have "\<exists>bw'. fold (check_entry env sm em entries) us (changed, bw1) = (changed, bw') \<and> notifies bw' = notifies bw1"
    using Cons.prems bw1(3,4) by (intro Cons.IH) simp_all
  then show ?case using bw1(1,2) by simp
qed simp

lemma fanout_frame:
  "prevStateMap (probe_fanout env sm entries bw) = prevStateMap bw" "prevReady (probe_fanout env sm entries bw) = prevReady bw"
proof -
  have "prevStateMap (fold (\<lambda>(u, c, ip). runProbes (k u c) (r u c ip) u c) ts b) = prevStateMap b
      \<and> prevReady (fold (\<lambda>(u, c, ip). runProbes (k u c) (r u c ip) u c) ts b) = prevReady b" for k r ts b
    by (induction ts arbitrary: b) (simp_all add: prod.case_eq_if probes_other)
  note this [of "\<lambda>u c. en_clock env ''fanout'' u (c_Name c)" "\<lambda>u c ip. en_run env ''fanout'' (u, c, ip)"]
  then show "prevStateMap (probe_fanout env sm entries bw) = prevStateMap bw" "prevReady (probe_fanout env sm entries bw) = prevReady bw"
    by (simp_all add: probe_fanout_def prod.case_eq_if)
qed




section \<open>What the shared map hides\<close>

text \<open>After a poll the cache and the previous states are one map, so a unit event overwrites the state
  the next poll compares with: the failure is no transition any more, and its event is not recorded.\<close>

lemma failed_event_lost:
  assumes "sameMap bw"
  shows "prevStateMap (snd (unit_transition u (c_Name c) StateFailed pd bw)) (container_key u (c_Name c)) = Some StateFailed"
    and "g_acts (bw_g (check_stopped env u c StateFailed code (snd (unit_transition u (c_Name c) StateFailed pd bw))))
      = g_acts (bw_g (snd (unit_transition u (c_Name c) StateFailed pd bw)))"
proof -
  show prev: "prevStateMap (snd (unit_transition u (c_Name c) StateFailed pd bw)) (container_key u (c_Name c)) = Some StateFailed"
    using assms by (simp add: unit_transition_def Let_def put_cache_def)
  then show "g_acts (bw_g (check_stopped env u c StateFailed code (snd (unit_transition u (c_Name c) StateFailed pd bw))))
      = g_acts (bw_g (snd (unit_transition u (c_Name c) StateFailed pd bw)))"
    by (simp add: check_stopped_def Let_def)
qed

text \<open>A poll always leaves the two fields with one map.\<close>

lemma poll_shares_map: "sameMap (poll env (Some ms) bw)"
  by (simp add: poll_def Let_def rotate_maps_def prod.case_eq_if)

text \<open>The event of a liveness failure that restarts the container reports no failures: the probe state
  is reset before the counter is read.\<close>

lemma liveness_event_reset:
  assumes "ProbeState s u c = Some ps"
  shows "map_option LiveFailCount (ProbeState (ResetProbeState now u c s) u c) = Some 0"
  using assms by (auto simp: ProbeState_def ResetProbeState_def getPodState_def with_pod_def zero_ProbeState_def split: option.splits)

end
