(* ===== verification/Env_Vars.thy ===== *)
theory Env_Vars
  imports Text_Expansion Probes "HOL-Library.Char_ord" "HOL-Library.List_Lexorder"
begin

text \<open>
  The environment of containers: \<open>internal/podutils\<close> (\<open>env.go\<close>, \<open>envvars.go\<close>, \<open>helper.go\<close>) resolves
  config maps, secrets, fields of the pod, references between variables and service variables into
  literal values; \<open>internal/downward/tidal.go\<close> makes the list for the unit. The resource manager only
  forwards to listers and is a record of their answers. Go maps that are iterated over come with
  \<open>iter\<close>, the order in which the runtime visits the keys of a map; the data of a config map is the list of its
  entries in that order. Functions return the error or the value, together with the events recorded.
  The name checks of apimachinery are the arguments \<open>validName\<close> and \<open>qualified\<close>. Case conversion and
  quoting are those of ASCII text.
\<close>

section \<open>Resources\<close>

datatype 'a fetched = Fetched 'a | NotFound | FetchError

record service_port =
  prt_Name :: string
  prt_Port :: int
  prt_Protocol :: string

record service =
  svc_Name :: string
  svc_Namespace :: string
  svc_ClusterIP :: string
  svc_Ports :: "service_port list"

type_synonym data_entries = "(string \<times> string) list"

record ResourceManager =
  GetConfigMap :: "string \<Rightarrow> string \<Rightarrow> data_entries fetched"
  GetSecret :: "string \<Rightarrow> string \<Rightarrow> data_entries fetched"
  ListServices :: "service list option"

datatype source_kind = ConfigMapSource | SecretSource

datatype env_error = SourceNotFound source_kind string | SourceUnreadable source_kind string
  | KeyMissing source_kind string string | ServicesUnavailable
  | UnsupportedVersion string | UnsupportedLabel string | NoSubscript string | ExpandPanic

text \<open>An event: its reason, the kind of the source and its arguments.\<close>

datatype env_event = OptionalNotFound source_kind string | FailedToReadOptional source_kind string
  | MandatoryNotFound source_kind string | FailedToReadMandatory source_kind string
  | OptionalKeyNotFound source_kind string string | MandatoryKeyNotFound source_kind string string
  | InvalidEnvironmentVariableNames source_kind string "string list"

section \<open>Text\<close>

definition lower_char :: "char \<Rightarrow> char" where
  "lower_char c = (let n = of_char c :: nat in if 65 \<le> n \<and> n \<le> 90 then char_of (n + 32) else c)"

definition upper_char :: "char \<Rightarrow> char" where
  "upper_char c = (let n = of_char c :: nat in if 97 \<le> n \<and> n \<le> 122 then char_of (n - 32) else c)"

definition to_lower :: "string \<Rightarrow> string" where "to_lower s = map lower_char s"
definition to_upper :: "string \<Rightarrow> string" where "to_upper s = map upper_char s"

definition hex_digit :: "nat \<Rightarrow> char" where
  "hex_digit n = (if n < 10 then char_of (48 + n) else char_of (87 + n))"

definition quote_char :: "char \<Rightarrow> string" where
  "quote_char c = (let n = of_char c :: nat; bs = char_of (92 :: nat) in
     if n = 34 \<or> n = 92 then [bs, c]
     else if n = 7 then [bs, CHR ''a''] else if n = 8 then [bs, CHR ''b''] else if n = 12 then [bs, CHR ''f'']
     else if n = 10 then [bs, CHR ''n''] else if n = 13 then [bs, CHR ''r''] else if n = 9 then [bs, CHR ''t'']
     else if n = 11 then [bs, CHR ''v'']
     else if n < 32 \<or> n = 127 then [bs, CHR ''x'', hex_digit (n div 16), hex_digit (n mod 16)]
     else [c])"

definition quoted :: "string \<Rightarrow> string" where
  "quoted s = CHR 0x22 # concat (map quote_char s) @ [CHR 0x22]"

section \<open>Service variables\<close>

definition IsServiceIPSet :: "service \<Rightarrow> bool" where
  "IsServiceIPSet svc \<longleftrightarrow> svc_ClusterIP svc \<noteq> ''None'' \<and> svc_ClusterIP svc \<noteq> []"

definition makeEnvVariableName :: "string \<Rightarrow> string" where
  "makeEnvVariableName str = to_upper (map (\<lambda>c. if c = CHR ''-'' then CHR ''_'' else c) str)"

definition link_variables :: "service \<Rightarrow> bool \<Rightarrow> service_port \<Rightarrow> (string \<times> string) list" where
  "link_variables svc first prt = (let
     prefix = makeEnvVariableName (svc_Name svc);
     protocol = (if prt_Protocol prt \<noteq> [] then prt_Protocol prt else ''TCP'');
     hostPort = JoinHostPort (svc_ClusterIP svc) (itoa (prt_Port prt));
     url = to_lower protocol @ ''://'' @ hostPort;
     portPrefix = prefix @ ''_PORT_'' @ itoa (prt_Port prt) @ ''_'' @ to_upper protocol
   in (if first then [(prefix @ ''_PORT'', url)] else [])
      @ [(portPrefix, url), (portPrefix @ ''_PROTO'', to_lower protocol), (portPrefix @ ''_PORT'', itoa (prt_Port prt)),
         (portPrefix @ ''_ADDR'', svc_ClusterIP svc)])"

definition makeLinkVariables :: "service \<Rightarrow> (string \<times> string) list" where
  "makeLinkVariables svc = (case svc_Ports svc of
     [] \<Rightarrow> []
   | p # ps \<Rightarrow> link_variables svc True p @ concat (map (link_variables svc False) ps))"

definition service_variables :: "service \<Rightarrow> (string \<times> string) list" where
  "service_variables svc = (if \<not> IsServiceIPSet svc then [] else
     let name = makeEnvVariableName (svc_Name svc) in
     (name @ ''_SERVICE_HOST'', svc_ClusterIP svc) #
     (case svc_Ports svc of
        [] \<Rightarrow> []
      | p # ps \<Rightarrow> (name @ ''_SERVICE_PORT'', itoa (prt_Port p)) #
          map (\<lambda>q. (name @ ''_SERVICE_PORT_'' @ makeEnvVariableName (prt_Name q), itoa (prt_Port q)))
            (filter (\<lambda>q. prt_Name q \<noteq> []) (p # ps))
          @ makeLinkVariables svc))"

definition FromServices :: "service list \<Rightarrow> (string \<times> string) list" where
  "FromServices svcs = concat (map service_variables svcs)"

definition add_service :: "string \<Rightarrow> bool \<Rightarrow> service \<Rightarrow> (string \<rightharpoonup> service) \<Rightarrow> (string \<rightharpoonup> service)" where
  "add_service ns enableServiceLinks svc m = (let name = svc_Name svc in
     if \<not> IsServiceIPSet svc then m
     else if svc_Namespace svc = ''default'' \<and> name = ''kubernetes'' then (if m name = None then m(name \<mapsto> svc) else m)
     else if svc_Namespace svc = ns \<and> enableServiceLinks then m(name \<mapsto> svc)
     else m)"

text \<open>\<open>order\<close> is the order of the iteration over the names of the collected services.\<close>

definition getServiceEnvVarMap :: "((string \<rightharpoonup> service) \<Rightarrow> string list) \<Rightarrow> ResourceManager \<Rightarrow> string \<Rightarrow> bool
    \<Rightarrow> env_error + (string \<rightharpoonup> string)" where
  "getServiceEnvVarMap order rm ns enableServiceLinks = (case ListServices rm of
     None \<Rightarrow> Inl ServicesUnavailable
   | Some svcs \<Rightarrow> let serviceMap = fold (add_service ns enableServiceLinks) svcs Map.empty in
       Inr (fold (\<lambda>(n, v) m. m(n \<mapsto> v)) (FromServices (List.map_filter serviceMap (order serviceMap))) Map.empty))"

section \<open>Fields of the pod\<close>

definition SplitMaybeSubscriptedPath :: "string \<Rightarrow> (string \<times> string) option" where
  "SplitMaybeSubscriptedPath fieldPath = (if \<not> has_suffix fieldPath [CHR 0x27, CHR '']''] then None
     else let s = trim_suffix fieldPath [CHR 0x27, CHR '']'']; i = str_index s [CHR ''['', CHR 0x27] in
       if i \<le> 0 then None else Some (take (nat i) s, drop (nat i + 2) s))"

definition downward_labels :: "string list" where
  "downward_labels = [''metadata.annotations'', ''metadata.labels'', ''metadata.name'', ''metadata.namespace'', ''metadata.uid'',
     ''spec.nodeName'', ''spec.restartPolicy'', ''spec.serviceAccountName'', ''spec.schedulerName'', ''status.phase'',
     ''status.hostIP'', ''status.podIP'', ''status.podIPs'']"

text \<open>The value that is passed through is always empty here.\<close>

definition ConvertDownwardAPIFieldLabel :: "string \<Rightarrow> string \<Rightarrow> env_error + string" where
  "ConvertDownwardAPIFieldLabel version label = (if version \<noteq> ''v1'' then Inl (UnsupportedVersion version)
     else case SplitMaybeSubscriptedPath label of
       Some (path, _) \<Rightarrow> if path = ''metadata.annotations'' \<or> path = ''metadata.labels'' then Inr label else Inl (NoSubscript label)
     | None \<Rightarrow> if label \<in> set downward_labels then Inr label
         else if label = ''spec.host'' then Inr ''spec.nodeName''
         else Inl (UnsupportedLabel label))"

definition FormatMap :: "((string \<rightharpoonup> string) \<Rightarrow> string list) \<Rightarrow> (string \<rightharpoonup> string) \<Rightarrow> string" where
  "FormatMap iter m = trim_suffix (concat (map (\<lambda>k. k @ ''='' @ quoted (case m k of Some v \<Rightarrow> v | None \<Rightarrow> []) @ [CHR 0x0A])
     (sort (iter m)))) [CHR 0x0A]"

definition ExtractFieldPathAsString :: "(string \<Rightarrow> bool) \<Rightarrow> ((string \<rightharpoonup> string) \<Rightarrow> string list) \<Rightarrow> pod \<Rightarrow> string \<Rightarrow> string option" where
  "ExtractFieldPathAsString qualified iter pd fieldPath = (case SplitMaybeSubscriptedPath fieldPath of
     Some (path, subscript) \<Rightarrow>
       if path = ''metadata.annotations'' then
         (if \<not> qualified (to_lower subscript) then None
          else case find (\<lambda>k. to_lower k = to_lower subscript) (iter (sp_Annotations (pod_Spec pd))) of
            Some k \<Rightarrow> sp_Annotations (pod_Spec pd) k
          | None \<Rightarrow> Some [])
       else if path = ''metadata.labels'' then
         (if \<not> qualified subscript then None
          else Some (case sp_Labels (pod_Spec pd) subscript of Some v \<Rightarrow> v | None \<Rightarrow> []))
       else None
   | None \<Rightarrow>
       if fieldPath = ''metadata.annotations'' then Some (FormatMap iter (sp_Annotations (pod_Spec pd)))
       else if fieldPath = ''metadata.labels'' then Some (FormatMap iter (sp_Labels (pod_Spec pd)))
       else if fieldPath = ''metadata.name'' then Some (pod_Name pd)
       else if fieldPath = ''metadata.namespace'' then Some (pod_Namespace pd)
       else if fieldPath = ''metadata.uid'' then Some (pod_UID pd)
       else None)"

fun join_comma :: "string list \<Rightarrow> string" where
  "join_comma [] = []"
| "join_comma [x] = x"
| "join_comma (x # y # xs) = x @ '','' @ join_comma (y # xs)"

definition podFieldSelectorRuntimeValue :: "(string \<Rightarrow> bool) \<Rightarrow> ((string \<rightharpoonup> string) \<Rightarrow> string list) \<Rightarrow> pod \<Rightarrow> string \<times> string
    \<Rightarrow> env_error + string" where
  "podFieldSelectorRuntimeValue qualified iter pd fs = (case ConvertDownwardAPIFieldLabel (fst fs) (snd fs) of
     Inl e \<Rightarrow> Inl e
   | Inr path \<Rightarrow> Inr (
       if path = ''spec.nodeName'' then sp_NodeName (pod_Spec pd)
       else if path = ''spec.serviceAccountName'' then sp_ServiceAccountName (pod_Spec pd)
       else if path = ''status.podIP'' then ps_PodIP (pod_Status pd)
       else if path = ''status.podIPs'' then join_comma (ps_PodIPs (pod_Status pd))
       else if path = ''status.hostIP'' then ps_HostIP (pod_Status pd)
       else if path = ''status.phase'' then ps_Phase (pod_Status pd)
       else (case ExtractFieldPathAsString qualified iter pd path of Some v \<Rightarrow> v | None \<Rightarrow> [])))"

section \<open>Variables from whole sources\<close>

definition is_optional :: "bool option \<Rightarrow> bool" where
  "is_optional opt \<longleftrightarrow> opt = Some True"

definition fetch_source :: "ResourceManager \<Rightarrow> source_kind \<Rightarrow> string \<Rightarrow> string \<Rightarrow> data_entries fetched" where
  "fetch_source rm kind = (case kind of ConfigMapSource \<Rightarrow> GetConfigMap rm | SecretSource \<Rightarrow> GetSecret rm)"

text \<open>The loop over the entries of a source: the environment and the invalid names.\<close>

definition add_entry :: "(string \<Rightarrow> bool) \<Rightarrow> string \<Rightarrow> string \<times> string \<Rightarrow> (string \<rightharpoonup> string) \<times> string list \<Rightarrow> (string \<rightharpoonup> string) \<times> string list" where
  "add_entry validName prefix kv acc = (case (kv, acc) of ((k, v), (res, invalid)) \<Rightarrow>
     if validName (prefix @ k) then (res(prefix @ k \<mapsto> v), invalid) else (res, invalid @ [prefix @ k]))"

definition env_from_ref :: "(string \<Rightarrow> bool) \<Rightarrow> ResourceManager \<Rightarrow> string \<Rightarrow> source_kind \<Rightarrow> string \<Rightarrow> string \<times> bool option \<Rightarrow> (string \<rightharpoonup> string)
    \<Rightarrow> env_event list \<Rightarrow> (env_error + (string \<rightharpoonup> string)) \<times> env_event list" where
  "env_from_ref validName rm ns kind prefix ref res ev = (case ref of (name, opt) \<Rightarrow>
     (case fetch_source rm kind name ns of
        NotFound \<Rightarrow> if is_optional opt then (Inr res, ev @ [OptionalNotFound kind name])
          else (Inl (SourceNotFound kind name), ev @ [MandatoryNotFound kind name])
      | FetchError \<Rightarrow> if is_optional opt then (Inr res, ev @ [FailedToReadOptional kind name])
          else (Inl (SourceUnreadable kind name), ev @ [FailedToReadMandatory kind name])
      | Fetched data \<Rightarrow> (case fold (add_entry validName prefix) data (res, []) of (res', invalid) \<Rightarrow>
          (Inr res', if invalid = [] then ev else ev @ [InvalidEnvironmentVariableNames kind name (sort invalid)]))))"

fun env_from_loop :: "(string \<Rightarrow> bool) \<Rightarrow> ResourceManager \<Rightarrow> string \<Rightarrow> env_from_source list \<Rightarrow> (string \<rightharpoonup> string)
    \<Rightarrow> env_event list \<Rightarrow> (env_error + (string \<rightharpoonup> string)) \<times> env_event list" where
  "env_from_loop validName rm ns [] res ev = (Inr res, ev)"
| "env_from_loop validName rm ns (ef # efs) res ev = (case
     (case ef_ConfigMapRef ef of
        Some ref \<Rightarrow> env_from_ref validName rm ns ConfigMapSource (ef_Prefix ef) ref res ev
      | None \<Rightarrow> (case ef_SecretRef ef of
          Some ref \<Rightarrow> env_from_ref validName rm ns SecretSource (ef_Prefix ef) ref res ev
        | None \<Rightarrow> (Inr res, ev))) of
     (Inl e, ev') \<Rightarrow> (Inl e, ev')
   | (Inr res', ev') \<Rightarrow> env_from_loop validName rm ns efs res' ev')"

definition makeEnvironmentMapBasedOnEnvFrom :: "(string \<Rightarrow> bool) \<Rightarrow> ResourceManager \<Rightarrow> pod \<Rightarrow> container \<Rightarrow> env_event list
    \<Rightarrow> (env_error + (string \<rightharpoonup> string)) \<times> env_event list" where
  "makeEnvironmentMapBasedOnEnvFrom validName rm pd c ev = env_from_loop validName rm (pod_Namespace pd) (c_EnvFrom c) Map.empty ev"

section \<open>Single variables\<close>

text \<open>The value is \<open>None\<close> when the variable is skipped.\<close>

definition value_from_key :: "ResourceManager \<Rightarrow> string \<Rightarrow> source_kind \<Rightarrow> key_selector \<Rightarrow> env_event list
    \<Rightarrow> (env_error + string option) \<times> env_event list" where
  "value_from_key rm ns kind vf ev = (let optional = is_optional (sel_Optional vf); name = sel_Name vf; key = sel_Key vf in
     case fetch_source rm kind name ns of
       NotFound \<Rightarrow> if optional then (Inr None, ev @ [OptionalNotFound kind name])
         else (Inl (SourceNotFound kind name), ev @ [MandatoryNotFound kind name])
     | FetchError \<Rightarrow> if optional then (Inr None, ev @ [FailedToReadOptional kind name])
         else (Inl (SourceUnreadable kind name), ev @ [FailedToReadMandatory kind name])
     | Fetched data \<Rightarrow> (case map_of data key of
         Some v \<Rightarrow> (Inr (Some v), ev)
       | None \<Rightarrow> if optional then (Inr None, ev @ [OptionalKeyNotFound kind name key])
           else (Inl (KeyMissing kind name key), ev @ [MandatoryKeyNotFound kind name key])))"

record env_context =
  cx_validName :: "string \<Rightarrow> bool"
  cx_qualified :: "string \<Rightarrow> bool"
  cx_iter :: "(string \<rightharpoonup> string) \<Rightarrow> string list"
  cx_services :: "(string \<rightharpoonup> service) \<Rightarrow> string list"
  cx_rm :: ResourceManager

definition value_from :: "env_context \<Rightarrow> pod \<Rightarrow> env_var_source \<Rightarrow> env_event list \<Rightarrow> (env_error + string option) \<times> env_event list" where
  "value_from cx pd src ev = (case evs_ConfigMapKeyRef src of
     Some vf \<Rightarrow> value_from_key (cx_rm cx) (pod_Namespace pd) ConfigMapSource vf ev
   | None \<Rightarrow> (case evs_SecretKeyRef src of
       Some vf \<Rightarrow> value_from_key (cx_rm cx) (pod_Namespace pd) SecretSource vf ev
     | None \<Rightarrow> (case evs_FieldRef src of
         Some fs \<Rightarrow> (case podFieldSelectorRuntimeValue (cx_qualified cx) (cx_iter cx) pd fs of
             Inl e \<Rightarrow> (Inl e, ev) | Inr v \<Rightarrow> (Inr (Some v), ev))
       | None \<Rightarrow> (Inr None, ev))))"

definition getEnvironmentVariableValue :: "env_context \<Rightarrow> pod \<Rightarrow> (string \<Rightarrow> string) \<Rightarrow> env_var \<Rightarrow> env_event list
    \<Rightarrow> (env_error + string option) \<times> env_event list" where
  "getEnvironmentVariableValue cx pd mappingFunc env ev = (case ev_ValueFrom env of
     Some src \<Rightarrow> value_from cx pd src ev
   | None \<Rightarrow> (case Expand (ev_Value env) mappingFunc of Some v \<Rightarrow> (Inr (Some v), ev) | None \<Rightarrow> (Inl ExpandPanic, ev)))"

text \<open>\<open>mappingFunc\<close> reads the map \<open>res\<close> that the loop extends.\<close>

fun env_loop :: "env_context \<Rightarrow> pod \<Rightarrow> (string \<rightharpoonup> string) \<Rightarrow> env_var list \<Rightarrow> (string \<rightharpoonup> string) \<Rightarrow> env_event list
    \<Rightarrow> (env_error + (string \<rightharpoonup> string)) \<times> env_event list" where
  "env_loop cx pd svcEnv [] res ev = (Inr res, ev)"
| "env_loop cx pd svcEnv (env # envs) res ev = (case getEnvironmentVariableValue cx pd (MappingFuncFor [res, svcEnv]) env ev of
     (Inl e, ev') \<Rightarrow> (Inl e, ev')
   | (Inr None, ev') \<Rightarrow> env_loop cx pd svcEnv envs res ev'
   | (Inr (Some v), ev') \<Rightarrow> env_loop cx pd svcEnv envs (res(ev_Name env \<mapsto> v)) ev')"

definition makeEnvironmentMap :: "env_context \<Rightarrow> pod \<Rightarrow> container \<Rightarrow> (string \<rightharpoonup> string) \<Rightarrow> env_event list
    \<Rightarrow> (env_error + (string \<rightharpoonup> string)) \<times> env_event list" where
  "makeEnvironmentMap cx pd c res ev = (let
     enableServiceLinks = (case sp_EnableServiceLinks (pod_Spec pd) of Some b \<Rightarrow> b | None \<Rightarrow> True)
   in case getServiceEnvVarMap (cx_services cx) (cx_rm cx) (pod_Namespace pd) enableServiceLinks of
     Inl e \<Rightarrow> (Inl e, ev)
   | Inr svcEnv \<Rightarrow> (case env_loop cx pd svcEnv (c_Env c) res ev of
       (Inl e, ev') \<Rightarrow> (Inl e, ev')
     | (Inr res', ev') \<Rightarrow> (Inr (svcEnv ++ res'), ev')))"

definition literal_env :: "((string \<rightharpoonup> string) \<Rightarrow> string list) \<Rightarrow> (string \<rightharpoonup> string) \<Rightarrow> env_var list" where
  "literal_env iter m = map (\<lambda>k. \<lparr>ev_Name = k, ev_Value = (case m k of Some v \<Rightarrow> v | None \<Rightarrow> []), ev_ValueFrom = None\<rparr>) (iter m)"

text \<open>The container as it is afterwards, also when there is an error.\<close>

definition populateContainerEnvironment :: "env_context \<Rightarrow> pod \<Rightarrow> container \<Rightarrow> env_event list
    \<Rightarrow> env_error option \<times> container \<times> env_event list" where
  "populateContainerEnvironment cx pd c ev = (case makeEnvironmentMapBasedOnEnvFrom (cx_validName cx) (cx_rm cx) pd c ev of
     (Inl e, ev') \<Rightarrow> (Some e, c, ev')
   | (Inr tmpEnv, ev') \<Rightarrow> (case makeEnvironmentMap cx pd c tmpEnv ev' of
       (Inl e, ev'') \<Rightarrow> (Some e, c, ev'')
     | (Inr env, ev'') \<Rightarrow> (None, c\<lparr>c_EnvFrom := [], c_Env := literal_env (cx_iter cx) env\<rparr>, ev'')))"

fun populate_list :: "env_context \<Rightarrow> pod \<Rightarrow> container list \<Rightarrow> env_event list \<Rightarrow> env_error option \<times> container list \<times> env_event list" where
  "populate_list cx pd [] ev = (None, [], ev)"
| "populate_list cx pd (c # cs) ev = (case populateContainerEnvironment cx pd c ev of
     (Some e, c', ev') \<Rightarrow> (Some e, c' # cs, ev')
   | (None, c', ev') \<Rightarrow> (case populate_list cx pd cs ev' of (err, cs', ev'') \<Rightarrow> (err, c' # cs', ev'')))"

definition PopulateEnvironmentVariables :: "env_context \<Rightarrow> pod \<Rightarrow> env_event list \<Rightarrow> env_error option \<times> pod \<times> env_event list" where
  "PopulateEnvironmentVariables cx pd ev = (case populate_list cx pd (pod_InitContainers pd) ev of
     (Some e, ics, ev') \<Rightarrow> (Some e, pd\<lparr>pod_InitContainers := ics\<rparr>, ev')
   | (None, ics, ev') \<Rightarrow> (case populate_list cx pd (pod_Containers pd) ev' of (err, cs, ev'') \<Rightarrow>
       (err, pd\<lparr>pod_InitContainers := ics, pod_Containers := cs\<rparr>, ev'')))"

section \<open>The list for the unit\<close>

record Tidal =
  td_NodeName :: string
  td_NodeIP :: string
  td_APIServerHost :: string
  td_APIServerPort :: string

definition NewTidal :: "string \<Rightarrow> string \<Rightarrow> Tidal" where
  "NewTidal nodeName nodeIP = \<lparr>td_NodeName = nodeName, td_NodeIP = nodeIP, td_APIServerHost = [], td_APIServerPort = []\<rparr>"

definition SetAPIServer :: "string \<Rightarrow> string \<Rightarrow> Tidal \<Rightarrow> Tidal" where
  "SetAPIServer host port t = t\<lparr>td_APIServerHost := host, td_APIServerPort := (if port = [] then ''443'' else port)\<rparr>"

text \<open>The keys with their values, in the order of \<open>resolved\<close>: \<open>seen\<close> is the position of a key.\<close>

fun set_env :: "string \<Rightarrow> string \<Rightarrow> (string \<times> string) list \<Rightarrow> (string \<times> string) list" where
  "set_env key val [] = [(key, val)]"
| "set_env key val ((k, v) # kvs) = (if k = key then (key, val) # kvs else (k, v) # set_env key val kvs)"

definition containerHasEnv :: "container \<Rightarrow> string \<Rightarrow> bool" where
  "containerHasEnv c name \<longleftrightarrow> list_ex (\<lambda>e. ev_Name e = name) (c_Env c)"

definition resolved_pairs :: "Tidal \<Rightarrow> pod \<Rightarrow> container \<Rightarrow> string \<Rightarrow> (string \<times> string) list" where
  "resolved_pairs t pd c podIP = (let
     r0 = fold (\<lambda>e r. if ev_Value e \<noteq> [] then set_env (ev_Name e) (ev_Value e) r else r) (c_Env c) [];
     r1 = fold (\<lambda>(k, v). set_env k v) [(''MY_POD_IP'', podIP), (''MY_HOST_IP'', td_NodeIP t), (''MY_NODE_NAME'', td_NodeName t),
       (''MY_POD_UID'', pod_UID pd), (''MY_POD_NAME'', pod_Name pd), (''MY_POD_NS'', pod_Namespace pd)] r0
   in if td_APIServerHost t \<noteq> [] \<and> \<not> containerHasEnv c ''KUBERNETES_SERVICE_HOST''
      then fold (\<lambda>(k, v). set_env k v) [(''KUBERNETES_SERVICE_HOST'', td_APIServerHost t), (''KUBERNETES_SERVICE_PORT'', td_APIServerPort t),
        (''KUBERNETES_SERVICE_PORT_HTTPS'', td_APIServerPort t)] r1
      else r1)"

definition ResolveEnv :: "Tidal \<Rightarrow> pod \<Rightarrow> container \<Rightarrow> string \<Rightarrow> string list" where
  "ResolveEnv t pd c podIP = filter (\<lambda>entry. case index_byte CHR ''='' entry of Some i \<Rightarrow> 0 < i | None \<Rightarrow> False)
     (map (\<lambda>(k, v). k @ ''='' @ v) (resolved_pairs t pd c podIP))"

end
