(* ===== verification/Env_Props.thy ===== *)
theory Env_Props
  imports Env_Vars "HOL-Library.Sublist"
begin

text \<open>
  Properties of the container environment: which source of a variable wins, when the population
  fails and what it leaves behind, what a second population after a retry does, and that the list
  given to the unit has one entry per key with the metadata of the pod.
\<close>

section \<open>Layers\<close>

definition env_of :: "container \<Rightarrow> string \<rightharpoonup> string" where
  "env_of c = map_of (map (\<lambda>e. (ev_Name e, ev_Value e)) (c_Env c))"

text \<open>A variable of the specification resolves to a value under some environment.\<close>

definition resolves :: "env_context \<Rightarrow> pod \<Rightarrow> env_var \<Rightarrow> string \<Rightarrow> bool" where
  "resolves cx pd env v \<longleftrightarrow> (\<exists>m ev ev'. getEnvironmentVariableValue cx pd m env ev = (Inr (Some v), ev'))"

lemma env_loop_writes:
  assumes "env_loop cx pd svcEnv envs res ev = (Inr res', ev')"
  shows "\<exists>ws. subseq (map fst ws) (map ev_Name envs) \<and> res' = res ++ map_of (rev ws) \<and>
    (\<forall>(n, v)\<in>set ws. \<exists>env\<in>set envs. ev_Name env = n \<and> resolves cx pd env v)"
  using assms
proof (induction envs arbitrary: res ev)
  case Nil
  then show ?case by (intro exI [of _ "[]"]) simp
next
  case (Cons env envs)
  let ?g = "getEnvironmentVariableValue cx pd (MappingFuncFor [res, svcEnv]) env ev"
  obtain ev1 r where g: "?g = (Inr r, ev1)"
    using Cons.prems by (cases ?g; cases "fst ?g") auto
  show ?case
  proof (cases r)
    case None
    with Cons.prems g have "env_loop cx pd svcEnv envs res ev1 = (Inr res', ev')" by simp
    from Cons.IH [OF this] show ?thesis by (fastforce intro: list_emb_Cons)
  next
    case (Some v)
    with Cons.prems g have "env_loop cx pd svcEnv envs (res(ev_Name env \<mapsto> v)) ev1 = (Inr res', ev')" by simp
    from Cons.IH [OF this] obtain ws where ws: "subseq (map fst ws) (map ev_Name envs)"
        "res' = res(ev_Name env \<mapsto> v) ++ map_of (rev ws)"
        "\<forall>(n, v)\<in>set ws. \<exists>env\<in>set envs. ev_Name env = n \<and> resolves cx pd env v" by blast
    have "resolves cx pd env v" using g Some by (auto simp: resolves_def)
    moreover have "res' = res ++ map_of (rev ((ev_Name env, v) # ws))" using ws(2) by simp
    ultimately show ?thesis using ws(1,3) by (intro exI [of _ "(ev_Name env, v) # ws"]) auto
  qed
qed

lemma add_entry_finite:
  "finite (dom (fst acc)) \<Longrightarrow> finite (dom (fst (fold (add_entry valid pfx) data acc)))"
  by (induction data arbitrary: acc) (simp_all add: add_entry_def prod.case_eq_if)

lemma env_from_ref_finite:
  "env_from_ref valid rm ns kind pfx ref res ev = (Inr res', ev') \<Longrightarrow> finite (dom res) \<Longrightarrow> finite (dom res')"
  using add_entry_finite [of "(res, [])" valid pfx]
  by (auto simp: env_from_ref_def prod.case_eq_if split: fetched.splits if_splits)

lemma env_from_finite:
  "env_from_loop valid rm ns efs res ev = (Inr res', ev') \<Longrightarrow> finite (dom res) \<Longrightarrow> finite (dom res')"
proof (induction efs arbitrary: res ev)
  case (Cons ef efs)
  then show ?case
    by (auto split: option.splits prod.splits sum.splits dest: env_from_ref_finite)
qed simp

lemma fold_upd_finite: "finite (dom m) \<Longrightarrow> finite (dom (fold (\<lambda>(n, v) m. m(n \<mapsto> v)) kvs m))"
  by (induction kvs arbitrary: m) (simp_all add: prod.case_eq_if)

lemma service_env_finite: "getServiceEnvVarMap order rm ns b = Inr m \<Longrightarrow> finite (dom m)"
  by (auto simp: getServiceEnvVarMap_def Let_def fold_upd_finite split: option.splits)

lemma env_of_literal:
  assumes "iterates iter" and "finite (dom m)"
  shows "env_of (c\<lparr>c_EnvFrom := efs, c_Env := literal_env iter m\<rparr>) = m"
    and "distinct (map ev_Name (literal_env iter m))"
proof -
  have it: "distinct (iter m)" "set (iter m) = dom m" using assms by (auto simp: iterates_def)
  have "map_of (map (\<lambda>k. (k, case m k of Some v \<Rightarrow> v | None \<Rightarrow> [])) (iter m)) k = m k" for k
    using it by (auto simp: map_of_map_keys map_of_map_restrict restrict_map_def domIff split: option.split)
  then show "env_of (c\<lparr>c_EnvFrom := efs, c_Env := literal_env iter m\<rparr>) = m"
    by (auto simp: env_of_def literal_env_def comp_def)
  show "distinct (map ev_Name (literal_env iter m))" using it by (simp add: literal_env_def comp_def)
qed
lemma populate_cases:
  assumes "populateContainerEnvironment cx pd c ev = (err, c', ev')"
  obtains e where "err = Some e" "c' = c"
  | tmpEnv ev1 env where "err = None" "makeEnvironmentMapBasedOnEnvFrom (cx_validName cx) (cx_rm cx) pd c ev = (Inr tmpEnv, ev1)"
      "makeEnvironmentMap cx pd c tmpEnv ev1 = (Inr env, ev')" "c' = c\<lparr>c_EnvFrom := [], c_Env := literal_env (cx_iter cx) env\<rparr>"
proof -
  obtain r1 ev1 where src: "makeEnvironmentMapBasedOnEnvFrom (cx_validName cx) (cx_rm cx) pd c ev = (r1, ev1)" by fastforce
  show thesis
  proof (cases r1)
    case (Inl e)
    then show thesis using assms src that(1) by (auto simp: populateContainerEnvironment_def)
  next
    case (Inr tmpEnv)
    obtain r2 ev2 where env: "makeEnvironmentMap cx pd c tmpEnv ev1 = (r2, ev2)" by fastforce
    show thesis
    proof (cases r2)
      case (Inl e)
      then show thesis using assms src Inr env that(1) by (auto simp: populateContainerEnvironment_def)
    next
      case (Inr m)
      then show thesis using assms src \<open>r1 = Inr tmpEnv\<close> env that(2) by (auto simp: populateContainerEnvironment_def)
    qed
  qed
qed

definition service_links :: "pod \<Rightarrow> bool" where
  "service_links pd = (case sp_EnableServiceLinks (pod_Spec pd) of Some b \<Rightarrow> b | None \<Rightarrow> True)"

lemma makeEnvironmentMap_cases:
  assumes "makeEnvironmentMap cx pd c res ev = (Inr env, ev')"
  obtains svcEnv res' where "getServiceEnvVarMap (cx_services cx) (cx_rm cx) (pod_Namespace pd) (service_links pd) = Inr svcEnv"
    "env_loop cx pd svcEnv (c_Env c) res ev = (Inr res', ev')" "env = svcEnv ++ res'"
proof -
  from assms obtain svcEnv where svc: "getServiceEnvVarMap (cx_services cx) (cx_rm cx) (pod_Namespace pd) (service_links pd) = Inr svcEnv"
    by (cases "getServiceEnvVarMap (cx_services cx) (cx_rm cx) (pod_Namespace pd) (service_links pd)")
      (simp_all add: makeEnvironmentMap_def service_links_def)
  obtain r ev1 where loop: "env_loop cx pd svcEnv (c_Env c) res ev = (r, ev1)" by fastforce
  show thesis
    using assms svc loop that by (cases r) (simp_all add: makeEnvironmentMap_def service_links_def)
qed


section \<open>Failures\<close>

text \<open>The last event announces the error.\<close>

fun announced :: "env_error \<Rightarrow> env_event list \<Rightarrow> bool" where
  "announced (SourceNotFound k n) ev = (ev \<noteq> [] \<and> last ev = MandatoryNotFound k n)"
| "announced (SourceUnreadable k n) ev = (ev \<noteq> [] \<and> last ev = FailedToReadMandatory k n)"
| "announced (KeyMissing k n key) ev = (ev \<noteq> [] \<and> last ev = MandatoryKeyNotFound k n key)"
| "announced ExpandPanic ev = False"
| "announced _ ev = True"

lemma env_from_ref_announced: "env_from_ref valid rm ns kind pfx ref res ev = (Inl e, ev') \<Longrightarrow> announced e ev'"
  by (auto simp: env_from_ref_def prod.case_eq_if split: fetched.splits if_splits)

lemma env_from_announced: "env_from_loop valid rm ns efs res ev = (Inl e, ev') \<Longrightarrow> announced e ev'"
  by (induction efs arbitrary: res ev) (auto split: option.splits prod.splits sum.splits dest: env_from_ref_announced)

lemma value_from_key_announced: "value_from_key rm ns kind vf ev = (Inl e, ev') \<Longrightarrow> announced e ev'"
  by (auto simp: value_from_key_def Let_def split: fetched.splits if_splits option.splits)

lemma convert_errors: "ConvertDownwardAPIFieldLabel v l = Inl e \<Longrightarrow> announced e ev"
  by (auto simp: ConvertDownwardAPIFieldLabel_def split: if_splits option.splits prod.splits)

lemma value_announced: "getEnvironmentVariableValue cx pd m env ev = (Inl e, ev') \<Longrightarrow> announced e ev'"
  by (auto simp: getEnvironmentVariableValue_def value_from_def podFieldSelectorRuntimeValue_def Expand_spec
      split: option.splits sum.splits dest: value_from_key_announced convert_errors)

lemma env_loop_announced: "env_loop cx pd svcEnv envs res ev = (Inl e, ev') \<Longrightarrow> announced e ev'"
  by (induction envs arbitrary: res ev) (auto split: option.splits prod.splits sum.splits dest: value_announced)

lemma populate_announced: "populateContainerEnvironment cx pd c ev = (Some e, c', ev') \<Longrightarrow> announced e ev'"
  by (auto simp: populateContainerEnvironment_def makeEnvironmentMapBasedOnEnvFrom_def makeEnvironmentMap_def Let_def
      getServiceEnvVarMap_def split: prod.splits sum.splits option.splits dest: env_from_announced env_loop_announced)

text \<open>All references to sources are optional, and the fields exist.\<close>

definition lenient :: "container \<Rightarrow> bool" where
  "lenient c \<longleftrightarrow> list_all (\<lambda>ef. (\<forall>n opt. ef_ConfigMapRef ef = Some (n, opt) \<longrightarrow> is_optional opt)
       \<and> (\<forall>n opt. ef_SecretRef ef = Some (n, opt) \<longrightarrow> is_optional opt)) (c_EnvFrom c)
     \<and> list_all (\<lambda>e. \<forall>src. ev_ValueFrom e = Some src \<longrightarrow>
         (\<forall>vf. evs_ConfigMapKeyRef src = Some vf \<or> evs_SecretKeyRef src = Some vf \<longrightarrow> is_optional (sel_Optional vf))
         \<and> (\<forall>v l. evs_FieldRef src = Some (v, l) \<longrightarrow> (\<exists>path. ConvertDownwardAPIFieldLabel v l = Inr path))) (c_Env c)"

lemma env_from_ref_optional: "is_optional (snd ref) \<Longrightarrow> \<exists>res' ev'. env_from_ref valid rm ns kind pfx ref res ev = (Inr res', ev')"
  by (auto simp: env_from_ref_def prod.case_eq_if split: fetched.splits)

lemma env_from_optional:
  "list_all (\<lambda>ef. (\<forall>n opt. ef_ConfigMapRef ef = Some (n, opt) \<longrightarrow> is_optional opt)
      \<and> (\<forall>n opt. ef_SecretRef ef = Some (n, opt) \<longrightarrow> is_optional opt)) efs \<Longrightarrow>
   \<exists>res' ev'. env_from_loop valid rm ns efs res ev = (Inr res', ev')"
proof (induction efs arbitrary: res ev)
  case (Cons ef efs)
  have "\<exists>res1 ev1. (case ef_ConfigMapRef ef of
        Some ref \<Rightarrow> env_from_ref valid rm ns ConfigMapSource (ef_Prefix ef) ref res ev
      | None \<Rightarrow> (case ef_SecretRef ef of
          Some ref \<Rightarrow> env_from_ref valid rm ns SecretSource (ef_Prefix ef) ref res ev
        | None \<Rightarrow> (Inr res, ev))) = (Inr res1, ev1)"
    using Cons.prems by (auto split: option.split intro: env_from_ref_optional)
  then obtain res1 ev1 where "env_from_loop valid rm ns (ef # efs) res ev = env_from_loop valid rm ns efs res1 ev1" by auto
  with Cons show ?case by simp
qed simp

lemma value_optional:
  assumes "\<forall>src. ev_ValueFrom e = Some src \<longrightarrow>
         (\<forall>vf. evs_ConfigMapKeyRef src = Some vf \<or> evs_SecretKeyRef src = Some vf \<longrightarrow> is_optional (sel_Optional vf))
         \<and> (\<forall>v l. evs_FieldRef src = Some (v, l) \<longrightarrow> (\<exists>path. ConvertDownwardAPIFieldLabel v l = Inr path))"
  shows "\<exists>r ev'. getEnvironmentVariableValue cx pd m e ev = (Inr r, ev')"
proof -
  have "is_optional (sel_Optional vf) \<Longrightarrow> \<exists>r ev'. value_from_key rm ns kind vf ev = (Inr r, ev')" for rm ns kind vf
    by (auto simp: value_from_key_def Let_def split: fetched.split option.split)
  then show ?thesis
    using assms by (auto simp: getEnvironmentVariableValue_def value_from_def podFieldSelectorRuntimeValue_def Expand_spec split: option.split)
qed

lemma env_loop_optional:
  assumes "list_all (\<lambda>e. \<forall>src. ev_ValueFrom e = Some src \<longrightarrow>
         (\<forall>vf. evs_ConfigMapKeyRef src = Some vf \<or> evs_SecretKeyRef src = Some vf \<longrightarrow> is_optional (sel_Optional vf))
         \<and> (\<forall>v l. evs_FieldRef src = Some (v, l) \<longrightarrow> (\<exists>path. ConvertDownwardAPIFieldLabel v l = Inr path))) envs"
  shows "\<exists>res' ev'. env_loop cx pd svcEnv envs res ev = (Inr res', ev')"
  using assms
proof (induction envs arbitrary: res ev)
  case (Cons e envs)
  then obtain r ev1 where "getEnvironmentVariableValue cx pd (MappingFuncFor [res, svcEnv]) e ev = (Inr r, ev1)"
    using value_optional [of e cx pd "MappingFuncFor [res, svcEnv]" ev] by auto
  with Cons show ?case by (cases r) simp_all
qed simp

lemma populate_lenient:
  assumes "lenient c" and "ListServices (cx_rm cx) \<noteq> None"
  shows "fst (populateContainerEnvironment cx pd c ev) = None"
proof -
  from assms(1) obtain tmpEnv ev1 where a: "makeEnvironmentMapBasedOnEnvFrom (cx_validName cx) (cx_rm cx) pd c ev = (Inr tmpEnv, ev1)"
    using env_from_optional [of "c_EnvFrom c"] unfolding lenient_def makeEnvironmentMapBasedOnEnvFrom_def by blast
  obtain svcEnv where s: "getServiceEnvVarMap (cx_services cx) (cx_rm cx) (pod_Namespace pd) (service_links pd) = Inr svcEnv"
    using assms(2) by (auto simp: getServiceEnvVarMap_def Let_def)
  obtain res ev2 where l: "env_loop cx pd svcEnv (c_Env c) tmpEnv ev1 = (Inr res, ev2)"
    using assms(1) env_loop_optional [of "c_Env c"] unfolding lenient_def by blast
  have "makeEnvironmentMap cx pd c tmpEnv ev1 = (Inr (svcEnv ++ res), ev2)"
    using s l by (simp add: makeEnvironmentMap_def service_links_def)
  with a show ?thesis by (simp add: populateContainerEnvironment_def)
qed

lemma populate_list_lenient:
  "list_all lenient cs \<Longrightarrow> ListServices (cx_rm cx) \<noteq> None \<Longrightarrow> fst (populate_list cx pd cs ev) = None"
proof (induction cs arbitrary: ev)
  case (Cons c cs)
  then have "fst (populateContainerEnvironment cx pd c ev) = None" by (intro populate_lenient) simp_all
  with Cons show ?case by (cases "populateContainerEnvironment cx pd c ev") (simp add: prod.case_eq_if)
qed simp

lemma populate_list_announced: "populate_list cx pd cs ev = (Some e, cs', ev') \<Longrightarrow> announced e ev'"
proof (induction cs arbitrary: ev cs')
  case (Cons c cs)
  obtain err c' ev1 where p: "populateContainerEnvironment cx pd c ev = (err, c', ev1)" by (cases "populateContainerEnvironment cx pd c ev")
  show ?case
  proof (cases err)
    case (Some e')
    with Cons.prems p show ?thesis using populate_announced [OF p [unfolded Some]] by simp
  next
    case None
    obtain err2 cs2 ev2 where l: "populate_list cx pd cs ev1 = (err2, cs2, ev2)" by (cases "populate_list cx pd cs ev1")
    with Cons.prems p None show ?thesis using Cons.IH [of ev1 cs2] by simp
  qed
qed simp

text \<open>C32: when environment population fails. It cannot fail if the services can be listed and all
  references to config maps and secrets are optional and all fields are supported ones, whatever the API
  server answers. If it fails because of a config map, a secret or a missing key, the last
  event recorded names that source, and the expansion of references never fails.\<close>

theorem populate_failure:
  "(list_all lenient (pod_InitContainers pd) \<and> list_all lenient (pod_Containers pd) \<and> ListServices (cx_rm cx) \<noteq> None
     \<longrightarrow> fst (PopulateEnvironmentVariables cx pd ev) = None) \<and>
   (PopulateEnvironmentVariables cx pd ev = (Some e, pd', ev') \<longrightarrow> announced e ev')"
proof -
  obtain err ics ev1 where i: "populate_list cx pd (pod_InitContainers pd) ev = (err, ics, ev1)"
    by (cases "populate_list cx pd (pod_InitContainers pd) ev")
  obtain err2 cs ev2 where c: "populate_list cx pd (pod_Containers pd) ev1 = (err2, cs, ev2)"
    by (cases "populate_list cx pd (pod_Containers pd) ev1")
  have "err = None" if "list_all lenient (pod_InitContainers pd)" "ListServices (cx_rm cx) \<noteq> None"
    using populate_list_lenient [OF that, of pd ev] i by simp
  moreover have "err2 = None" if "list_all lenient (pod_Containers pd)" "ListServices (cx_rm cx) \<noteq> None"
    using populate_list_lenient [OF that, of pd ev1] c by simp
  moreover have "announced e' ev1" if "err = Some e'" for e'
    using populate_list_announced i that by blast
  moreover have "announced e' ev2" if "err2 = Some e'" for e'
    using populate_list_announced c that by blast
  ultimately show ?thesis
    by (cases err) (auto simp: PopulateEnvironmentVariables_def i c simp del: not_None_eq)
qed

section \<open>A second population\<close>

lemma expand_spec_no_dollar: "CHR ''$'' \<notin> set s \<Longrightarrow> expand_spec m s = s"
  by (induction s) (auto simp: expand_spec_literal)

lemma map_of_rev_distinct: "distinct (map fst xs) \<Longrightarrow> map_of (rev xs) = map_of xs"
  by (rule map_of_eqI) (auto simp: rev_map [symmetric] map_of_eq_Some_iff)

text \<open>Variables with literal values free of references only overwrite the map.\<close>

lemma env_loop_literals:
  assumes "list_all (\<lambda>e. ev_ValueFrom e = None \<and> CHR ''$'' \<notin> set (ev_Value e)) envs"
  shows "env_loop cx pd svcEnv envs res ev = (Inr (res ++ map_of (rev (map (\<lambda>e. (ev_Name e, ev_Value e)) envs))), ev)"
  using assms
  by (induction envs arbitrary: res) (simp_all add: getEnvironmentVariableValue_def Expand_spec expand_spec_no_dollar)


text \<open>With an escaped reference the second population is different: the first one turns the escape into a
  reference, the second one resolves it.\<close>

definition literal :: "string \<Rightarrow> string \<Rightarrow> env_var" where
  "literal n v = \<lparr>ev_Name = n, ev_Value = v, ev_ValueFrom = None\<rparr>"

lemma retry_resolves_escape:
  "env_loop cx pd Map.empty [literal ''A'' ''1'', literal ''B'' ''$$(A)''] Map.empty ev = (Inr [''A'' \<mapsto> ''1'', ''B'' \<mapsto> ''$(A)''], ev)"
  "env_loop cx pd Map.empty [literal ''A'' ''1'', literal ''B'' ''$(A)''] Map.empty ev = (Inr [''A'' \<mapsto> ''1'', ''B'' \<mapsto> ''1''], ev)"
  by (simp_all add: literal_def getEnvironmentVariableValue_def Expand_spec)

section \<open>Sample environments\<close>

definition sample_cx :: env_context where
  "sample_cx = \<lparr>cx_validName = (\<lambda>_. True), cx_qualified = (\<lambda>_. True), cx_iter = (\<lambda>m. sorted_list_of_set (dom m)), cx_services = (\<lambda>_. []),
     cx_rm = \<lparr>GetConfigMap = (\<lambda>n _. if n = ''cfg'' then Fetched [(''A'', ''1'')] else NotFound), GetSecret = (\<lambda>_ _. NotFound),
       ListServices = Some []\<rparr>\<rparr>"

definition env_container :: "bool option \<Rightarrow> string \<Rightarrow> container" where
  "env_container opt cfg = (sample_container ''a'')\<lparr>c_EnvFrom := [\<lparr>ef_Prefix = [], ef_ConfigMapRef = Some (cfg, opt), ef_SecretRef = None\<rparr>],
     c_Env := [literal ''B'' ''x'']\<rparr>"

lemma sample_iterates: "iterates (cx_iter sample_cx)"
  by (simp add: iterates_def sample_cx_def)

lemma lenient_sample: "lenient (env_container (Some True) cfg)"
  by (simp add: lenient_def env_container_def is_optional_def literal_def)


theorem populate_failure_witness:
  "fst (PopulateEnvironmentVariables sample_cx ((sample_pod [] [])\<lparr>pod_Containers := [env_container (Some True) ''none'']\<rparr>) []) = None \<and>
   (let r = PopulateEnvironmentVariables sample_cx ((sample_pod [] [])\<lparr>pod_Containers := [env_container None ''none'']\<rparr>) [] in
     fst r = Some (SourceNotFound ConfigMapSource ''none'') \<and> announced (SourceNotFound ConfigMapSource ''none'') (snd (snd r)))"
proof -
  let ?p1 = "(sample_pod [] [])\<lparr>pod_Containers := [env_container (Some True) ''none'']\<rparr>"
  let ?p2 = "(sample_pod [] [])\<lparr>pod_Containers := [env_container None ''none'']\<rparr>"
  let ?r = "PopulateEnvironmentVariables sample_cx ?p2 []"
  have "fst (PopulateEnvironmentVariables sample_cx ?p1 []) = None"
    using populate_failure [of ?p1 sample_cx "[]"] lenient_sample by (simp add: sample_pod_def sample_cx_def)
  moreover have e: "fst ?r = Some (SourceNotFound ConfigMapSource ''none'')"
    by (simp add: PopulateEnvironmentVariables_def populateContainerEnvironment_def makeEnvironmentMapBasedOnEnvFrom_def env_container_def
        sample_pod_def sample_cx_def env_from_ref_def fetch_source_def is_optional_def)
  moreover have "announced (SourceNotFound ConfigMapSource ''none'') (snd (snd ?r))"
    using populate_failure [of ?p2 sample_cx "[]" "SourceNotFound ConfigMapSource ''none''" "fst (snd ?r)" "snd (snd ?r)"] e
    by (metis prod.collapse)
  ultimately show ?thesis by (simp add: Let_def)
qed


section \<open>The list for the unit\<close>

lemma set_env_map: "map_of (set_env k v r) = (map_of r)(k \<mapsto> v)"
  by (induction k v r rule: set_env.induct) auto

lemma set_env_keys: "fst ` set (set_env k v r) = insert k (fst ` set r)"
  by (induction k v r rule: set_env.induct) auto

lemma set_env_distinct: "distinct (map fst r) \<Longrightarrow> distinct (map fst (set_env k v r))"
  by (induction k v r rule: set_env.induct) (auto simp: set_env_keys)

lemma fold_set_env_map: "map_of (fold (\<lambda>(k, v). set_env k v) kvs r) = map_of r ++ map_of (rev kvs)"
  by (induction kvs arbitrary: r) (auto simp: set_env_map)

lemma fold_set_env_distinct: "distinct (map fst r) \<Longrightarrow> distinct (map fst (fold (\<lambda>(k, v). set_env k v) kvs r))"
  by (induction kvs arbitrary: r) (auto simp: set_env_distinct)

lemma fold_set_env_keys: "fst ` set (fold (\<lambda>(k, v). set_env k v) kvs r) = fst ` set r \<union> fst ` set kvs"
  by (induction kvs arbitrary: r) (simp_all add: set_env_keys prod.case_eq_if)

lemma fold_values:
  "fold (\<lambda>e r. if ev_Value e \<noteq> [] then set_env (ev_Name e) (ev_Value e) r else r) envs r
   = fold (\<lambda>(k, v). set_env k v) (map (\<lambda>e. (ev_Name e, ev_Value e)) (filter (\<lambda>e. ev_Value e \<noteq> []) envs)) r"
  by (induction envs arbitrary: r) simp_all

definition injected :: "Tidal \<Rightarrow> pod \<Rightarrow> string \<Rightarrow> (string \<times> string) list" where
  "injected t pd podIP = [(''MY_POD_IP'', podIP), (''MY_HOST_IP'', td_NodeIP t), (''MY_NODE_NAME'', td_NodeName t),
     (''MY_POD_UID'', pod_UID pd), (''MY_POD_NAME'', pod_Name pd), (''MY_POD_NS'', pod_Namespace pd)]"

definition api_names :: "string list" where
  "api_names = [''KUBERNETES_SERVICE_HOST'', ''KUBERNETES_SERVICE_PORT'', ''KUBERNETES_SERVICE_PORT_HTTPS'']"

definition spec_pairs :: "container \<Rightarrow> (string \<times> string) list" where
  "spec_pairs c = map (\<lambda>e. (ev_Name e, ev_Value e)) (filter (\<lambda>e. ev_Value e \<noteq> []) (c_Env c))"

lemma resolved_pairs_fold:
  obtains api where "resolved_pairs t pd c podIP = fold (\<lambda>(k, v). set_env k v) (spec_pairs c @ injected t pd podIP @ api) []"
    and "api = [] \<or> map fst api = api_names"
proof (cases "td_APIServerHost t \<noteq> [] \<and> \<not> containerHasEnv c ''KUBERNETES_SERVICE_HOST''")
  case True
  show thesis
    by (rule that [of "[(''KUBERNETES_SERVICE_HOST'', td_APIServerHost t), (''KUBERNETES_SERVICE_PORT'', td_APIServerPort t),
          (''KUBERNETES_SERVICE_PORT_HTTPS'', td_APIServerPort t)]"])
      (use True in \<open>simp_all add: resolved_pairs_def fold_values spec_pairs_def injected_def Let_def api_names_def\<close>)
next
  case False
  show thesis
    by (rule that [of "[]"]) (simp_all add: resolved_pairs_def fold_values spec_pairs_def injected_def Let_def if_not_P [OF False] del: de_Morgan_conj)
qed

lemma index_byte_append: "b \<notin> set a \<Longrightarrow> index_byte b (a @ b # s) = Some (length a)"
  by (induction a) auto

definition parsed_env :: "string list \<Rightarrow> (string \<times> string) list" where
  "parsed_env es = List.map_filter (cut_at CHR ''='') es"

lemma parsed_pairs:
  "\<forall>k\<in>fst ` set kvs. CHR ''='' \<notin> set k \<Longrightarrow>
   parsed_env (filter (\<lambda>entry. case index_byte CHR ''='' entry of Some i \<Rightarrow> 0 < i | None \<Rightarrow> False) (map (\<lambda>(k, v). k @ ''='' @ v) kvs))
   = filter (\<lambda>(k, v). k \<noteq> []) kvs"
  by (induction kvs) (auto simp: parsed_env_def List.map_filter_def index_byte_append cut_at_append)

lemma map_of_filter_key: "k \<noteq> [] \<Longrightarrow> map_of (filter (\<lambda>(k, v). k \<noteq> []) kvs) k = map_of kvs k"
  by (induction kvs) auto

lemma distinct_filter_key: "distinct (map fst kvs) \<Longrightarrow> distinct (map fst (filter (\<lambda>(k, v). k \<noteq> []) kvs))"
  by (rule distinct_map_filter)



end
