(* ===== verification/Volumes.thy ===== *)
theory Volumes
  imports Runtime_Profile "HOL-Library.Sublist"
begin

text \<open>
  The volume resolver (\<open>internal/volume/resolver.go\<close>): volumes and mounts of a pod become bind mounts, with
  the files of config maps, secrets and projections written below the directory of the pod. The host is a map from
  paths to contents; a directory exists as soon as a file is below it. Whether a call of the operating
  system succeeds, and what a failed write leaves, are arguments, as are the answers of the API server, of the
  listers (\<open>None\<close>: nil) and of a CSI driver. Iteration orders over maps are arguments. Paths of items are
  relative and clean, as the API server checks. The hash of names of attachments is an argument.
\<close>

section \<open>Files\<close>

type_synonym files = "string \<rightharpoonup> string"

datatype write_result = Written | WriteError "string option"

record file_io =
  io_mkdir :: "string \<Rightarrow> bool"
  io_write :: "string \<Rightarrow> write_result"
  io_remove :: "string \<Rightarrow> bool"
  io_walk :: "string \<Rightarrow> files \<Rightarrow> string list"

datatype vol_error = NoSuchVolume string | MkdirFailed string | WriteFailed string | RemoveFailed string
  | ConfigMapMissing string | SecretMissing string | NoSecretLister | NoConfigMapSource | NoKubeClient
  | TokenFailed string | OnlyFieldRef | UnsupportedFieldPath string | UnsupportedVolume string
  | PVCMissing string | PVCNotBound string bool | PVMissing string | UnsupportedPV string
  | NoHostNodeName | AttachFailed string | NoDriver string | StageFailed string

definition join_path :: "string \<Rightarrow> string \<Rightarrow> string" where
  "join_path dir name = dir @ ''/'' @ name"

definition under :: "string \<Rightarrow> string \<Rightarrow> bool" where
  "under dir p \<longleftrightarrow> prefix (dir @ ''/'') p"

definition remove_all :: "string \<Rightarrow> files \<Rightarrow> files" where
  "remove_all dir fs = (\<lambda>p. if p = dir \<or> under dir p then None else fs p)"

text \<open>The result of a write: the error, if any, and the files.\<close>

definition write_file :: "file_io \<Rightarrow> string \<Rightarrow> string \<Rightarrow> files \<Rightarrow> bool \<times> files" where
  "write_file io dest data fs = (case io_write io dest of
     Written \<Rightarrow> (True, fs(dest \<mapsto> data))
   | WriteError left \<Rightarrow> (False, fs(dest := left)))"

text \<open>The loop over the keys of a volume: a key without content is skipped.\<close>

fun write_keys :: "file_io \<Rightarrow> string \<Rightarrow> (string \<Rightarrow> string option) \<Rightarrow> (string \<times> string) list \<Rightarrow> files \<Rightarrow> vol_error option \<times> files" where
  "write_keys io dir content [] fs = (None, fs)"
| "write_keys io dir content ((key, path) # kps) fs = (let dest = join_path dir path in
     if \<not> io_mkdir io dest then (Some (MkdirFailed dest), fs)
     else case content key of
       None \<Rightarrow> write_keys io dir content kps fs
     | Some data \<Rightarrow> (case write_file io dest data fs of
         (True, fs') \<Rightarrow> write_keys io dir content kps fs'
       | (False, fs') \<Rightarrow> (Some (WriteFailed key), fs')))"

text \<open>A file that cannot be removed has been truncated.\<close>

fun remove_stale :: "file_io \<Rightarrow> (string \<Rightarrow> bool) \<Rightarrow> string list \<Rightarrow> files \<Rightarrow> vol_error option \<times> files" where
  "remove_stale io keep [] fs = (None, fs)"
| "remove_stale io keep (p # ps) fs = (if keep p then remove_stale io keep ps fs
     else if io_remove io p then remove_stale io keep ps (fs(p := None))
     else (Some (RemoveFailed p), fs(p \<mapsto> [])))"

definition removeStaleFiles :: "file_io \<Rightarrow> string \<Rightarrow> (string \<Rightarrow> bool) \<Rightarrow> files \<Rightarrow> vol_error option \<times> files" where
  "removeStaleFiles io hostDir keep fs = remove_stale io keep (io_walk io hostDir fs) fs"

section \<open>Config maps and secrets\<close>

record configMap =
  cm_Namespace :: string
  cm_Name :: string
  cm_Data :: "(string \<rightharpoonup> string) option"
  cm_BinaryData :: "string \<rightharpoonup> string"

record secret =
  sec_Namespace :: string
  sec_Name :: string
  sec_Data :: "string \<rightharpoonup> string"

definition data_of :: "configMap \<Rightarrow> string \<rightharpoonup> string" where
  "data_of cm = (case cm_Data cm of Some m \<Rightarrow> m | None \<Rightarrow> Map.empty)"

definition cm_content :: "configMap \<Rightarrow> string \<rightharpoonup> string" where
  "cm_content cm key = (case data_of cm key of Some s \<Rightarrow> Some s | None \<Rightarrow> cm_BinaryData cm key)"

definition keyToPath :: "key_to_path list \<Rightarrow> (string \<rightharpoonup> string) \<Rightarrow> string \<rightharpoonup> string" where
  "keyToPath items content = (if items \<noteq> [] then fold (\<lambda>i m. m(kp_Key i \<mapsto> kp_Path i)) items Map.empty
     else (\<lambda>k. if content k = None then None else Some k))"

record pvc =
  pvc_Phase :: string
  pvc_VolumeName :: string

record pv =
  pv_HostPath :: "string option"
  pv_Local :: "string option"
  pv_CSI :: "(string \<times> string) option"

text \<open>The ticks of \<open>waitForAttachment\<close> before its deadline: an error of the query or whether the volume is attached.\<close>

record kube_client =
  kc_ConfigMap :: "string \<Rightarrow> string \<Rightarrow> configMap option"
  kc_CreateToken :: "string \<Rightarrow> string \<Rightarrow> string list \<Rightarrow> string option"
  kc_PVC :: "string \<Rightarrow> string \<Rightarrow> pvc option"
  kc_PV :: "string \<Rightarrow> pv option"
  kc_CreateVA :: "string \<Rightarrow> bool"
  kc_Ticks :: "string \<Rightarrow> bool option list"
  kc_GetVA :: "string \<Rightarrow> bool"
  kc_DeleteVA :: "string \<Rightarrow> bool"

record csi_client =
  cs_Stage :: "string \<Rightarrow> string \<Rightarrow> bool"
  cs_Unstage :: "string \<Rightarrow> string \<Rightarrow> bool"

record vol_env =
  ve_io :: file_io
  ve_iter :: "(string \<rightharpoonup> string) \<Rightarrow> string list"
  ve_cmLister :: "(string \<Rightarrow> string \<Rightarrow> configMap option) option"
  ve_secretLister :: "(string \<Rightarrow> string \<Rightarrow> secret option) option"
  ve_kube :: "kube_client option"
  ve_csi :: "string \<Rightarrow> csi_client option"
  ve_hash :: "string \<Rightarrow> string"

text \<open>The host: files, staging paths with a mounted volume and attachments that exist.\<close>

record vol_state =
  vs_files :: files
  vs_staged :: "string \<Rightarrow> bool"
  vs_attached :: "string \<Rightarrow> bool"

record Resolver =
  stateDir :: string
  hostNodeName :: string

definition pods_dir :: "string \<Rightarrow> string \<Rightarrow> string" where
  "pods_dir baseDir pawnName = join_path (join_path (join_path baseDir ''pawns'') pawnName) ''pods''"

definition NewResolver :: "string \<Rightarrow> string \<Rightarrow> string \<Rightarrow> string \<Rightarrow> Resolver" where
  "NewResolver baseDir pawnName podUID host =
     \<lparr>stateDir = join_path (join_path (pods_dir baseDir pawnName) podUID) ''volumes'', hostNodeName = host\<rparr>"

definition with_files :: "(files \<Rightarrow> vol_error option \<times> files) \<Rightarrow> vol_state \<Rightarrow> vol_error option \<times> vol_state" where
  "with_files f st = (case f (vs_files st) of (err, fs) \<Rightarrow> (err, st\<lparr>vs_files := fs\<rparr>))"

definition get_config_map :: "vol_env \<Rightarrow> string \<Rightarrow> string \<Rightarrow> configMap option" where
  "get_config_map env ns name = (let
     api = (case ve_kube env of None \<Rightarrow> None | Some k \<Rightarrow> kc_ConfigMap k ns name)
   in case ve_cmLister env of None \<Rightarrow> api | Some l \<Rightarrow> (case l ns name of Some cm \<Rightarrow> Some cm | None \<Rightarrow> api))"

definition vol_dir :: "Resolver \<Rightarrow> string \<Rightarrow> string \<Rightarrow> string" where
  "vol_dir r kind name = join_path (join_path (stateDir r) kind) name"

text \<open>The result of the functions that write a volume: the directory or an error.\<close>

definition written :: "string \<Rightarrow> vol_error option \<times> vol_state \<Rightarrow> (vol_error + string) \<times> vol_state" where
  "written dir r = (case r of (Some e, st) \<Rightarrow> (Inl e, st) | (None, st) \<Rightarrow> (Inr dir, st))"

definition writeConfigMap :: "vol_env \<Rightarrow> Resolver \<Rightarrow> string \<Rightarrow> volume \<Rightarrow> string \<times> key_to_path list \<Rightarrow> vol_state \<Rightarrow> (vol_error + string) \<times> vol_state" where
  "writeConfigMap env r ns vol src st = (case src of (cmName, items) \<Rightarrow>
     (case get_config_map env ns cmName of
        None \<Rightarrow> (Inl (ConfigMapMissing cmName), st)
      | Some cm \<Rightarrow> let dir = vol_dir r ''configmap'' (vol_Name vol) in
          if \<not> io_mkdir (ve_io env) dir then (Inl (MkdirFailed dir), st)
          else written dir (with_files (write_keys (ve_io env) dir (cm_content cm)
            (map_entries (ve_iter env) (keyToPath items (cm_content cm)))) st)))"

definition writeSecret :: "vol_env \<Rightarrow> Resolver \<Rightarrow> string \<Rightarrow> volume \<Rightarrow> string \<times> key_to_path list \<Rightarrow> vol_state \<Rightarrow> (vol_error + string) \<times> vol_state" where
  "writeSecret env r ns vol src st = (case src of (secretName, items) \<Rightarrow>
     (case ve_secretLister env of
        None \<Rightarrow> (Inl NoSecretLister, st)
      | Some l \<Rightarrow> (case l ns secretName of
          None \<Rightarrow> (Inl (SecretMissing secretName), st)
        | Some sec \<Rightarrow> let dir = vol_dir r ''secret'' (vol_Name vol) in
            if \<not> io_mkdir (ve_io env) dir then (Inl (MkdirFailed dir), st)
            else written dir (with_files (write_keys (ve_io env) dir (\<lambda>k. Some (case sec_Data sec k of Some d \<Rightarrow> d | None \<Rightarrow> []))
              (map_entries (ve_iter env) (keyToPath items (sec_Data sec)))) st))))"

section \<open>Projections\<close>

definition requestToken :: "vol_env \<Rightarrow> pod \<Rightarrow> string \<Rightarrow> vol_error + string" where
  "requestToken env pd audience = (case ve_kube env of
     None \<Rightarrow> Inl NoKubeClient
   | Some k \<Rightarrow> let
       sa = (if sp_ServiceAccountName (pod_Spec pd) = [] then ''default'' else sp_ServiceAccountName (pod_Spec pd));
       audiences = (if audience \<noteq> [] then [audience] else [''https://kubernetes.default.svc.cluster.local''])
     in case kc_CreateToken k (pod_Namespace pd) sa audiences of Some t \<Rightarrow> Inr t | None \<Rightarrow> Inl (TokenFailed sa))"

definition labelsToString :: "((string \<rightharpoonup> string) \<Rightarrow> string list) \<Rightarrow> (string \<rightharpoonup> string) \<Rightarrow> string" where
  "labelsToString iter m = concat (map (\<lambda>(k, v). k @ ''='' @ v @ [CHR 0x0A]) (map_entries iter m))"

definition resolveDownwardAPIField :: "((string \<rightharpoonup> string) \<Rightarrow> string list) \<Rightarrow> pod \<Rightarrow> string option \<Rightarrow> vol_error + string" where
  "resolveDownwardAPIField iter pd field = (case field of
     None \<Rightarrow> Inl OnlyFieldRef
   | Some path \<Rightarrow>
       if path = ''metadata.namespace'' then Inr (pod_Namespace pd)
       else if path = ''metadata.name'' then Inr (pod_Name pd)
       else if path = ''metadata.uid'' then Inr (pod_UID pd)
       else if path = ''metadata.labels'' then Inr (labelsToString iter (sp_Labels (pod_Spec pd)))
       else if path = ''metadata.annotations'' then Inr (labelsToString iter (sp_Annotations (pod_Spec pd)))
       else if path = ''spec.serviceAccountName'' then Inr (sp_ServiceAccountName (pod_Spec pd))
       else if path = ''spec.nodeName'' then Inr (sp_NodeName (pod_Spec pd))
       else if path = ''status.podIP'' then Inr (ps_PodIP (pod_Status pd))
       else if path = ''status.hostIP'' then Inr (ps_HostIP (pod_Status pd))
       else Inl (UnsupportedFieldPath path))"

definition write_one :: "file_io \<Rightarrow> string \<Rightarrow> string \<Rightarrow> string \<Rightarrow> files \<Rightarrow> vol_error option \<times> files" where
  "write_one io dir path data fs = write_keys io dir (\<lambda>_. Some data) [(path, path)] fs"

fun write_downward :: "vol_env \<Rightarrow> pod \<Rightarrow> string \<Rightarrow> (string \<times> string option) list \<Rightarrow> files \<Rightarrow> vol_error option \<times> files" where
  "write_downward env pd dir [] fs = (None, fs)"
| "write_downward env pd dir ((path, field) # items) fs = (
     if \<not> io_mkdir (ve_io env) (join_path dir path) then (Some (MkdirFailed (join_path dir path)), fs)
     else case resolveDownwardAPIField (ve_iter env) pd field of
       Inl e \<Rightarrow> (Some e, fs)
     | Inr value \<Rightarrow> (case write_one (ve_io env) dir path value fs of
         (None, fs') \<Rightarrow> write_downward env pd dir items fs'
       | (Some e, fs') \<Rightarrow> (Some e, fs')))"

definition items_or_keys :: "((string \<rightharpoonup> string) \<Rightarrow> string list) \<Rightarrow> key_to_path list \<Rightarrow> (string \<rightharpoonup> string) \<Rightarrow> (string \<times> string) list" where
  "items_or_keys iter items m = (if items = [] then map (\<lambda>(k, _). (k, k)) (map_entries iter m) else map (\<lambda>i. (kp_Key i, kp_Path i)) items)"

text \<open>The data and the binary data of a projected config map; the API server is asked when the lister knows
  no map with data.\<close>

definition projected_data :: "vol_env \<Rightarrow> string \<Rightarrow> string \<Rightarrow> vol_error + (string \<rightharpoonup> string) \<times> (string \<rightharpoonup> string)" where
  "projected_data env ns name = (if ve_cmLister env = None \<and> ve_kube env = None then Inl NoConfigMapSource else
     let listed = (case ve_cmLister env of None \<Rightarrow> None | Some l \<Rightarrow> l ns name);
       found = (case listed of Some cm \<Rightarrow> cm_Data cm | None \<Rightarrow> None)
     in case (found, ve_kube env) of
       (Some d, _) \<Rightarrow> Inr (d, case listed of Some cm \<Rightarrow> cm_BinaryData cm | None \<Rightarrow> Map.empty)
     | (None, None) \<Rightarrow> Inl (ConfigMapMissing name)
     | (None, Some k) \<Rightarrow> (case kc_ConfigMap k ns name of
         None \<Rightarrow> Inl (ConfigMapMissing name)
       | Some cm \<Rightarrow> (case cm_Data cm of Some d \<Rightarrow> Inr (d, cm_BinaryData cm) | None \<Rightarrow> Inl (ConfigMapMissing name))))"

definition write_projection :: "vol_env \<Rightarrow> pod \<Rightarrow> string \<Rightarrow> projection \<Rightarrow> files \<Rightarrow> vol_error option \<times> files" where
  "write_projection env pd dir src fs = (case prj_Token src of
     Some (path, audience) \<Rightarrow> (case requestToken env pd audience of
         Inl e \<Rightarrow> (Some e, fs) | Inr token \<Rightarrow> write_one (ve_io env) dir path token fs)
   | None \<Rightarrow> (case prj_ConfigMap src of
       Some (name, items) \<Rightarrow> (case projected_data env (pod_Namespace pd) name of
           Inl e \<Rightarrow> (Some e, fs)
         | Inr (d, b) \<Rightarrow> write_keys (ve_io env) dir
             (\<lambda>k. Some (case b k of Some x \<Rightarrow> x | None \<Rightarrow> (case d k of Some x \<Rightarrow> x | None \<Rightarrow> []))) (items_or_keys (ve_iter env) items d) fs)
     | None \<Rightarrow> (case prj_DownwardAPI src of
         Some items \<Rightarrow> write_downward env pd dir items fs
       | None \<Rightarrow> (case prj_Secret src of
           None \<Rightarrow> (None, fs)
         | Some (name, items) \<Rightarrow> (case ve_secretLister env of
             None \<Rightarrow> (Some NoSecretLister, fs)
           | Some l \<Rightarrow> (case l (pod_Namespace pd) name of
               None \<Rightarrow> (Some (SecretMissing name), fs)
             | Some sec \<Rightarrow> write_keys (ve_io env) dir (\<lambda>k. Some (case sec_Data sec k of Some x \<Rightarrow> x | None \<Rightarrow> []))
                 (items_or_keys (ve_iter env) items (sec_Data sec)) fs))))))"

fun write_projections :: "vol_env \<Rightarrow> pod \<Rightarrow> string \<Rightarrow> projection list \<Rightarrow> files \<Rightarrow> vol_error option \<times> files" where
  "write_projections env pd dir [] fs = (None, fs)"
| "write_projections env pd dir (src # srcs) fs = (case write_projection env pd dir src fs of
     (None, fs') \<Rightarrow> write_projections env pd dir srcs fs'
   | (Some e, fs') \<Rightarrow> (Some e, fs'))"

definition writeProjected :: "vol_env \<Rightarrow> Resolver \<Rightarrow> pod \<Rightarrow> volume \<Rightarrow> projection list \<Rightarrow> vol_state \<Rightarrow> (vol_error + string) \<times> vol_state" where
  "writeProjected env r pd vol sources st = (let dir = vol_dir r ''projected'' (vol_Name vol) in
     if \<not> io_mkdir (ve_io env) dir then (Inl (MkdirFailed dir), st)
     else written dir (with_files (write_projections env pd dir sources) st))"

section \<open>Persistent volumes\<close>

fun waitForAttachment :: "bool option list \<Rightarrow> bool" where
  "waitForAttachment [] = False"
| "waitForAttachment (None # ticks) = False"
| "waitForAttachment (Some attached # ticks) = (attached \<or> waitForAttachment ticks)"

definition staging_path :: "string \<Rightarrow> string" where
  "staging_path pvName = join_path (join_path ''/var/lib/kubelet/plugins/kubernetes.io/csi'' pvName) ''globalmount''"

definition attachment_name :: "vol_env \<Rightarrow> Resolver \<Rightarrow> string \<Rightarrow> string" where
  "attachment_name env r pvName = ve_hash env (pvName @ ''/'' @ hostNodeName r)"

definition resolveCSI :: "vol_env \<Rightarrow> Resolver \<Rightarrow> kube_client \<Rightarrow> string \<Rightarrow> string \<times> string \<Rightarrow> vol_state \<Rightarrow> (vol_error + string) \<times> vol_state" where
  "resolveCSI env r k pvName csi st = (case csi of (driver, handle) \<Rightarrow>
     if hostNodeName r = [] then (Inl NoHostNodeName, st) else
     let va = attachment_name env r pvName; path = staging_path pvName in
     if \<not> kc_CreateVA k va then (Inl (AttachFailed pvName), st)
     else let st1 = st\<lparr>vs_attached := (vs_attached st)(va := True)\<rparr> in
       if \<not> waitForAttachment (kc_Ticks k va) \<or> \<not> kc_GetVA k va then (Inl (AttachFailed pvName), st1)
       else case ve_csi env driver of
         None \<Rightarrow> (Inl (NoDriver driver), st1)
       | Some cl \<Rightarrow> if \<not> io_mkdir (ve_io env) path then (Inl (MkdirFailed path), st1)
           else if \<not> cs_Stage cl handle path then (Inl (StageFailed pvName), st1)
           else (Inr path, st1\<lparr>vs_staged := (vs_staged st1)(path := True)\<rparr>))"

text \<open>An error for a claim that is not bound tells whether it is transient.\<close>

definition resolvePVC :: "vol_env \<Rightarrow> Resolver \<Rightarrow> string \<Rightarrow> string \<Rightarrow> vol_state \<Rightarrow> (vol_error + string) \<times> vol_state" where
  "resolvePVC env r ns claim st = (case ve_kube env of
     None \<Rightarrow> (Inl NoKubeClient, st)
   | Some k \<Rightarrow> (case kc_PVC k ns claim of
       None \<Rightarrow> (Inl (PVCMissing claim), st)
     | Some c \<Rightarrow> if pvc_Phase c \<noteq> ''Bound'' then (Inl (PVCNotBound claim (pvc_Phase c = ''Pending'')), st)
         else (case kc_PV k (pvc_VolumeName c) of
           None \<Rightarrow> (Inl (PVMissing (pvc_VolumeName c)), st)
         | Some v \<Rightarrow> (case (pv_HostPath v, pv_Local v, pv_CSI v) of
             (Some p, _, _) \<Rightarrow> (Inr p, st)
           | (None, Some p, _) \<Rightarrow> (Inr p, st)
           | (None, None, Some csi) \<Rightarrow> resolveCSI env r k (pvc_VolumeName c) csi st
           | (None, None, None) \<Rightarrow> (Inl (UnsupportedPV (pvc_VolumeName c)), st)))))"

section \<open>Mounts\<close>

definition ensurePath :: "file_io \<Rightarrow> string \<Rightarrow> string option \<Rightarrow> files \<Rightarrow> vol_error option \<times> files" where
  "ensurePath io path t fs = (
     if t = Some ''Directory'' \<or> t = Some ''DirectoryOrCreate'' then (if io_mkdir io path then None else Some (MkdirFailed path), fs)
     else if t = Some ''FileOrCreate'' then
       (if \<not> io_mkdir io path then (Some (MkdirFailed path), fs)
        else if fs path \<noteq> None then (None, fs)
        else if io_write io path = Written then (None, fs(path \<mapsto> []))
        else (Some (WriteFailed path), fs))
     else (None, fs))"

definition mount_of :: "volume_mount \<Rightarrow> bool \<Rightarrow> string \<Rightarrow> BindMount" where
  "mount_of vm forceRO hostPath = \<lparr>bm_HostPath = hostPath, bm_ContainerPath = vmt_MountPath vm, bm_ReadOnly = (forceRO \<or> vmt_ReadOnly vm),
     bm_Propagation = (case vmt_Propagation vm of Some p \<Rightarrow> p | None \<Rightarrow> [])\<rparr>"

definition mounted_at :: "volume_mount \<Rightarrow> bool \<Rightarrow> (vol_error + string) \<times> vol_state \<Rightarrow> (vol_error + BindMount) \<times> vol_state" where
  "mounted_at vm forceRO r = (case r of (Inl e, st) \<Rightarrow> (Inl e, st) | (Inr dir, st) \<Rightarrow> (Inr (mount_of vm forceRO dir), st))"

definition resolveVolume :: "vol_env \<Rightarrow> Resolver \<Rightarrow> pod \<Rightarrow> volume \<Rightarrow> volume_mount \<Rightarrow> vol_state \<Rightarrow> (vol_error + BindMount) \<times> vol_state" where
  "resolveVolume env r pd vol vm st = (case vol_HostPath vol of
     Some (path, t) \<Rightarrow> mounted_at vm False (written path (with_files (ensurePath (ve_io env) path t) st))
   | None \<Rightarrow>
     if vol_EmptyDir vol then (let dir = vol_dir r ''emptydir'' (vol_Name vol) in
       if io_mkdir (ve_io env) dir then (Inr (mount_of vm False dir), st) else (Inl (MkdirFailed dir), st))
     else (case vol_ConfigMap vol of
       Some src \<Rightarrow> mounted_at vm True (writeConfigMap env r (pod_Namespace pd) vol src st)
     | None \<Rightarrow> (case vol_Secret vol of
         Some src \<Rightarrow> mounted_at vm True (writeSecret env r (pod_Namespace pd) vol src st)
       | None \<Rightarrow> (case vol_PVC vol of
           Some (claim, ro) \<Rightarrow> mounted_at vm ro (resolvePVC env r (pod_Namespace pd) claim st)
         | None \<Rightarrow> (case vol_Projected vol of
             Some sources \<Rightarrow> mounted_at vm True (writeProjected env r pd vol sources st)
           | None \<Rightarrow> (Inl (UnsupportedVolume (vol_Name vol)), st))))))"

text \<open>\<open>volByName\<close>: of two volumes with one name the last counts.\<close>

definition vol_by_name :: "volume list \<Rightarrow> string \<rightharpoonup> volume" where
  "vol_by_name vols = map_of (rev (map (\<lambda>v. (vol_Name v, v)) vols))"

fun resolve_mounts :: "vol_env \<Rightarrow> Resolver \<Rightarrow> pod \<Rightarrow> volume_mount list \<Rightarrow> vol_state \<Rightarrow> (vol_error + BindMount list) \<times> vol_state" where
  "resolve_mounts env r pd [] st = (Inr [], st)"
| "resolve_mounts env r pd (vm # vms) st = (case vol_by_name (sp_Volumes (pod_Spec pd)) (vmt_Name vm) of
     None \<Rightarrow> (Inl (NoSuchVolume (vmt_Name vm)), st)
   | Some vol \<Rightarrow> (case resolveVolume env r pd vol vm st of
       (Inl e, st') \<Rightarrow> (Inl e, st')
     | (Inr bm, st') \<Rightarrow> (case resolve_mounts env r pd vms st' of
         (Inl e, st'') \<Rightarrow> (Inl e, st'')
       | (Inr bms, st'') \<Rightarrow> (Inr (bm # bms), st''))))"

definition Resolve :: "vol_env \<Rightarrow> Resolver \<Rightarrow> pod \<Rightarrow> container \<Rightarrow> vol_state \<Rightarrow> (vol_error + BindMount list) \<times> vol_state" where
  "Resolve env r pd c st = resolve_mounts env r pd (c_VolumeMounts c) st"

section \<open>Cleanup\<close>

text \<open>The result of \<open>NodeUnpublishVolume\<close> is ignored, and nothing was published.\<close>

definition vol_Cleanup :: "Resolver \<Rightarrow> vol_state \<Rightarrow> vol_state" where
  "vol_Cleanup r st = st\<lparr>vs_files := remove_all (stateDir r) (vs_files st)\<rparr>"

definition remove_paths :: "Resolver \<Rightarrow> string \<Rightarrow> vol_state \<Rightarrow> vol_state" where
  "remove_paths r pvName st = st\<lparr>vs_files :=
     remove_all (join_path (vol_dir r ''csi'' pvName) ''mount'') (remove_all (staging_path pvName) (vs_files st))\<rparr>"

definition cleanupCSIVolume :: "vol_env \<Rightarrow> Resolver \<Rightarrow> kube_client \<Rightarrow> string \<Rightarrow> string \<times> string \<Rightarrow> vol_state \<Rightarrow> vol_state" where
  "cleanupCSIVolume env r k pvName csi st = (case csi of (driver, handle) \<Rightarrow>
     (case ve_csi env driver of
        None \<Rightarrow> remove_paths r pvName st
      | Some cl \<Rightarrow> let
          st1 = (if cs_Unstage cl handle (staging_path pvName) then st\<lparr>vs_staged := (vs_staged st)(staging_path pvName := False)\<rparr> else st);
          st2 = remove_paths r pvName st1;
          va = attachment_name env r pvName
        in if kc_DeleteVA k va then st2\<lparr>vs_attached := (vs_attached st2)(va := False)\<rparr> else st2))"

definition cleanup_volume :: "vol_env \<Rightarrow> Resolver \<Rightarrow> kube_client \<Rightarrow> string \<Rightarrow> volume \<Rightarrow> vol_state \<Rightarrow> vol_state" where
  "cleanup_volume env r k ns vol st = (case vol_PVC vol of
     None \<Rightarrow> st
   | Some (claim, _) \<Rightarrow> (case kc_PVC k ns claim of
       None \<Rightarrow> st
     | Some c \<Rightarrow> (case kc_PV k (pvc_VolumeName c) of
         None \<Rightarrow> st
       | Some v \<Rightarrow> (case pv_CSI v of None \<Rightarrow> st | Some csi \<Rightarrow> cleanupCSIVolume env r k (pvc_VolumeName c) csi st))))"

definition vol_CleanupCSI :: "vol_env \<Rightarrow> Resolver \<Rightarrow> pod \<Rightarrow> vol_state \<Rightarrow> vol_state" where
  "vol_CleanupCSI env r pd st = (case ve_kube env of
     None \<Rightarrow> st
   | Some k \<Rightarrow> fold (cleanup_volume env r k (pod_Namespace pd)) (sp_Volumes (pod_Spec pd)) st)"

section \<open>Refresh\<close>

text \<open>The destinations that are written are kept; everything else below the directory is stale.\<close>

definition refresh_files :: "file_io \<Rightarrow> string \<Rightarrow> (string \<Rightarrow> string) \<Rightarrow> (string \<times> string) list \<Rightarrow> files \<Rightarrow> vol_error option \<times> files" where
  "refresh_files io hostDir content kps fs = (case write_keys io hostDir (\<lambda>k. Some (content k)) kps fs of
     (Some e, fs') \<Rightarrow> (Some e, fs')
   | (None, fs') \<Rightarrow> removeStaleFiles io hostDir (\<lambda>p. p \<in> (\<lambda>(_, path). join_path hostDir path) ` set kps) fs')"

definition RefreshConfigMapDirect :: "file_io \<Rightarrow> ((string \<rightharpoonup> string) \<Rightarrow> string list) \<Rightarrow> configMap \<Rightarrow> key_to_path list \<Rightarrow> string \<Rightarrow> files
    \<Rightarrow> vol_error option \<times> files" where
  "RefreshConfigMapDirect io iter cm items hostDir fs =
     refresh_files io hostDir (\<lambda>k. case cm_content cm k of Some s \<Rightarrow> s | None \<Rightarrow> []) (map_entries iter (keyToPath items (cm_content cm))) fs"

definition RefreshSecretDirect :: "file_io \<Rightarrow> ((string \<rightharpoonup> string) \<Rightarrow> string list) \<Rightarrow> secret \<Rightarrow> key_to_path list \<Rightarrow> string \<Rightarrow> files
    \<Rightarrow> vol_error option \<times> files" where
  "RefreshSecretDirect io iter sec items hostDir fs =
     refresh_files io hostDir (\<lambda>k. case sec_Data sec k of Some s \<Rightarrow> s | None \<Rightarrow> []) (map_entries iter (keyToPath items (sec_Data sec))) fs"

end
