(* ===== verification/Volume_Tracker.thy ===== *)
theory Volume_Tracker
  imports Volumes "HOL-Library.Char_ord" "HOL-Library.List_Lexorder"
begin

text \<open>
  The volume tracker (\<open>node/voltracker.go\<close>) and the correctness of live updates: the index from config maps and
  secrets to the running pods that mount them, the rewriting of their files, and that what a container
  sees after an update are the keys of the new object and nothing else. The locks make every operation a step.
\<close>

section \<open>State and operations\<close>

record volumeMount =
  vm_podUID :: string
  vm_hostDir :: string
  vm_vol :: volume

text \<open>A key that is absent in a Go map reads as the empty slice.\<close>

record VolumeTracker =
  volRefs :: "string \<Rightarrow> volumeMount list"
  volRefsByPod :: "string \<Rightarrow> string list"
  vt_baseDir :: string
  vt_pawnName :: string

definition NewVolumeTracker :: "string \<Rightarrow> string \<Rightarrow> VolumeTracker" where
  "NewVolumeTracker baseDir pawnName = \<lparr>volRefs = (\<lambda>_. []), volRefsByPod = (\<lambda>_. []), vt_baseDir = baseDir, vt_pawnName = pawnName\<rparr>"

definition vol_ref :: "volume \<Rightarrow> (string \<times> string) option" where
  "vol_ref vol = (case vol_ConfigMap vol of
     Some (name, _) \<Rightarrow> Some (''configmap'', name)
   | None \<Rightarrow> (case vol_Secret vol of Some (name, _) \<Rightarrow> Some (''secret'', name) | None \<Rightarrow> None))"

definition vol_key :: "string \<Rightarrow> string \<Rightarrow> string \<Rightarrow> string" where
  "vol_key kind ns name = kind @ '':'' @ ns @ ''/'' @ name"

definition tracked_mount :: "VolumeTracker \<Rightarrow> string \<Rightarrow> pod \<Rightarrow> volume \<Rightarrow> (string \<times> volumeMount) option" where
  "tracked_mount vt uid pd vol = (case vol_ref vol of
     None \<Rightarrow> None
   | Some (kind, name) \<Rightarrow> Some (vol_key kind (pod_Namespace pd) name,
       \<lparr>vm_podUID = uid,
        vm_hostDir = join_path (join_path (join_path (join_path (pods_dir (vt_baseDir vt) (vt_pawnName vt)) uid) ''volumes'') kind) (vol_Name vol),
        vm_vol = vol\<rparr>))"

definition tracked_mounts :: "VolumeTracker \<Rightarrow> string \<Rightarrow> pod \<Rightarrow> (string \<times> volumeMount) list" where
  "tracked_mounts vt uid pd = List.map_filter (tracked_mount vt uid pd) (sp_Volumes (pod_Spec pd))"

definition add_ref :: "string \<times> volumeMount \<Rightarrow> (string \<Rightarrow> volumeMount list) \<Rightarrow> string \<Rightarrow> volumeMount list" where
  "add_ref m refs = refs(fst m := refs (fst m) @ [snd m])"

definition Track :: "string \<Rightarrow> pod \<Rightarrow> VolumeTracker \<Rightarrow> VolumeTracker" where
  "Track uid pd vt = (let mounts = tracked_mounts vt uid pd in
     if mounts = [] then vt
     else vt\<lparr>volRefs := fold add_ref mounts (volRefs vt), volRefsByPod := (volRefsByPod vt)(uid := map fst mounts)\<rparr>)"

definition drop_refs :: "string \<Rightarrow> string \<Rightarrow> (string \<Rightarrow> volumeMount list) \<Rightarrow> string \<Rightarrow> volumeMount list" where
  "drop_refs uid key refs = refs(key := filter (\<lambda>m. vm_podUID m \<noteq> uid) (refs key))"

definition Untrack :: "string \<Rightarrow> VolumeTracker \<Rightarrow> VolumeTracker" where
  "Untrack uid vt = vt\<lparr>volRefs := fold (drop_refs uid) (volRefsByPod vt uid) (volRefs vt),
     volRefsByPod := (volRefsByPod vt)(uid := [])\<rparr>"

text \<open>An error of one mount is logged and the next one is tried.\<close>

definition RefreshConfigMap :: "file_io \<Rightarrow> ((string \<rightharpoonup> string) \<Rightarrow> string list) \<Rightarrow> VolumeTracker \<Rightarrow> configMap \<Rightarrow> files \<Rightarrow> files" where
  "RefreshConfigMap io iter vt cm fs = fold (\<lambda>m fs. case vol_ConfigMap (vm_vol m) of
       Some (_, items) \<Rightarrow> snd (RefreshConfigMapDirect io iter cm items (vm_hostDir m) fs) | None \<Rightarrow> fs)
     (volRefs vt (vol_key ''configmap'' (cm_Namespace cm) (cm_Name cm))) fs"

definition RefreshSecret :: "file_io \<Rightarrow> ((string \<rightharpoonup> string) \<Rightarrow> string list) \<Rightarrow> VolumeTracker \<Rightarrow> secret \<Rightarrow> files \<Rightarrow> files" where
  "RefreshSecret io iter vt sec fs = fold (\<lambda>m fs. case vol_Secret (vm_vol m) of
       Some (_, items) \<Rightarrow> snd (RefreshSecretDirect io iter sec items (vm_hostDir m) fs) | None \<Rightarrow> fs)
     (volRefs vt (vol_key ''secret'' (sec_Namespace sec) (sec_Name sec))) fs"

section \<open>The index\<close>

text \<open>Every mount of the index is of a pod whose list has its key, and lies below the directory of that pod.\<close>

definition tracker_inv :: "VolumeTracker \<Rightarrow> bool" where
  "tracker_inv vt \<longleftrightarrow> (\<forall>key m. m \<in> set (volRefs vt key) \<longrightarrow> key \<in> set (volRefsByPod vt (vm_podUID m)) \<and>
     (\<exists>kind name ns. vol_ref (vm_vol m) = Some (kind, name) \<and> key = vol_key kind ns name \<and>
        vm_hostDir m = vol_dir (NewResolver (vt_baseDir vt) (vt_pawnName vt) (vm_podUID m) []) kind (vol_Name (vm_vol m))))"

lemma fold_add_ref: "fold add_ref ms refs key = refs key @ map snd (filter (\<lambda>m. fst m = key) ms)"
  by (induction ms arbitrary: refs) (auto simp: add_ref_def)

lemma fold_drop_refs:
  "fold (drop_refs uid) ks refs key = (if key \<in> set ks then filter (\<lambda>m. vm_podUID m \<noteq> uid) (refs key) else refs key)"
  by (induction ks arbitrary: refs) (auto simp: drop_refs_def)

lemma tracked_mounts_set:
  assumes "(key, m) \<in> set (tracked_mounts vt uid pd)"
  shows "vm_podUID m = uid \<and> (\<exists>kind name. vm_vol m \<in> set (sp_Volumes (pod_Spec pd)) \<and> vol_ref (vm_vol m) = Some (kind, name) \<and>
    key = vol_key kind (pod_Namespace pd) name \<and>
    vm_hostDir m = vol_dir (NewResolver (vt_baseDir vt) (vt_pawnName vt) uid []) kind (vol_Name (vm_vol m)))"
  using assms
  by (auto simp: tracked_mounts_def List.map_filter_def tracked_mount_def vol_dir_def NewResolver_def split: option.splits)

lemma track_inv:
  assumes "tracker_inv vt" and "volRefsByPod vt uid = []"
  shows "tracker_inv (Track uid pd vt)"
proof (cases "tracked_mounts vt uid pd = []")
  case False
  have "key \<in> set (volRefsByPod (Track uid pd vt) (vm_podUID m)) \<and> (\<exists>kind name ns. vol_ref (vm_vol m) = Some (kind, name) \<and> key = vol_key kind ns name \<and>
        vm_hostDir m = vol_dir (NewResolver (vt_baseDir vt) (vt_pawnName vt) (vm_podUID m) []) kind (vol_Name (vm_vol m)))"
    if "m \<in> set (volRefs (Track uid pd vt) key)" for key m
  proof -
    from that False consider (old) "m \<in> set (volRefs vt key)" | (new) "(key, m) \<in> set (tracked_mounts vt uid pd)"
      by (auto simp: Track_def Let_def fold_add_ref)
    then show ?thesis
    proof cases
      case old
      with assms have "key \<in> set (volRefsByPod vt (vm_podUID m))" "vm_podUID m \<noteq> uid" by (force simp: tracker_inv_def)+
      with old assms(1) False show ?thesis by (auto simp: tracker_inv_def Track_def Let_def)
    next
      case new
      from tracked_mounts_set [OF this] new False show ?thesis by (force simp: Track_def Let_def)
    qed
  qed
  with False show ?thesis unfolding tracker_inv_def by (simp add: Track_def Let_def)
qed (use assms in \<open>simp add: Track_def\<close>)

lemma untrack_inv: "tracker_inv vt \<Longrightarrow> tracker_inv (Untrack uid vt)"
  by (auto simp: tracker_inv_def Untrack_def fold_drop_refs split: if_splits)

lemma untrack_gone: "tracker_inv vt \<Longrightarrow> m \<in> set (volRefs (Untrack uid vt) key) \<longleftrightarrow> m \<in> set (volRefs vt key) \<and> vm_podUID m \<noteq> uid"
  by (auto simp: tracker_inv_def Untrack_def fold_drop_refs split: if_splits)

text \<open>Names as the API server admits them: no slash, and no two volumes of a pod with one name. A pod is
  tracked once.\<close>

definition valid_volumes :: "string \<Rightarrow> pod \<Rightarrow> bool" where
  "valid_volumes uid pd \<longleftrightarrow> CHR ''/'' \<notin> set uid \<and> (\<forall>v\<in>set (sp_Volumes (pod_Spec pd)). CHR ''/'' \<notin> set (vol_Name v)) \<and>
     distinct (map vol_Name (sp_Volumes (pod_Spec pd)))"

inductive tracker_run :: "string \<Rightarrow> string \<Rightarrow> VolumeTracker \<Rightarrow> bool" for base pawn where
  start: "tracker_run base pawn (NewVolumeTracker base pawn)"
| track: "tracker_run base pawn vt \<Longrightarrow> volRefsByPod vt uid = [] \<Longrightarrow> valid_volumes uid pd \<Longrightarrow> tracker_run base pawn (Track uid pd vt)"
| untrack: "tracker_run base pawn vt \<Longrightarrow> tracker_run base pawn (Untrack uid vt)"

definition mounts_distinct :: "VolumeTracker \<Rightarrow> bool" where
  "mounts_distinct vt \<longleftrightarrow> (\<forall>key m. m \<in> set (volRefs vt key) \<longrightarrow> CHR ''/'' \<notin> set (vm_podUID m) \<and> CHR ''/'' \<notin> set (vol_Name (vm_vol m)) \<and>
     (\<forall>key' m'. m' \<in> set (volRefs vt key') \<longrightarrow> vm_podUID m' = vm_podUID m \<longrightarrow> vol_Name (vm_vol m') = vol_Name (vm_vol m) \<longrightarrow> vm_vol m' = vm_vol m))"

lemma Track_dirs [simp]: "vt_baseDir (Track uid pd vt) = vt_baseDir vt" "vt_pawnName (Track uid pd vt) = vt_pawnName vt"
  by (simp_all add: Track_def Let_def)

lemma Untrack_dirs [simp]: "vt_baseDir (Untrack uid vt) = vt_baseDir vt" "vt_pawnName (Untrack uid vt) = vt_pawnName vt"
  by (simp_all add: Untrack_def)

lemma track_refs: "m \<in> set (volRefs (Track uid pd vt) key) \<longleftrightarrow> m \<in> set (volRefs vt key) \<or> (key, m) \<in> set (tracked_mounts vt uid pd)"
  by (force simp: Track_def Let_def fold_add_ref image_iff)

lemma track_distinct:
  assumes "mounts_distinct vt" "tracker_inv vt" "volRefsByPod vt uid = []" "valid_volumes uid pd"
  shows "mounts_distinct (Track uid pd vt)"
proof -
  have old: "vm_podUID m \<noteq> uid" if "m \<in> set (volRefs vt key)" for m key
    using assms(2,3) that by (force simp: tracker_inv_def)
  have new: "vm_podUID m = uid \<and> vm_vol m \<in> set (sp_Volumes (pod_Spec pd))" if "(key, m) \<in> set (tracked_mounts vt uid pd)" for m key
    using tracked_mounts_set [OF that] by blast
  have eq: "v = w" if "v \<in> set (sp_Volumes (pod_Spec pd))" "w \<in> set (sp_Volumes (pod_Spec pd))" "vol_Name v = vol_Name w" for v w
    using assms(4) that by (auto simp: valid_volumes_def distinct_map inj_on_def)
  show ?thesis
    unfolding mounts_distinct_def track_refs
    using assms(1,4) old new eq unfolding mounts_distinct_def valid_volumes_def by metis
qed

lemma tracker_run_inv: "tracker_run base pawn vt \<Longrightarrow> tracker_inv vt \<and> mounts_distinct vt \<and> vt_baseDir vt = base \<and> vt_pawnName vt = pawn"
proof (induction rule: tracker_run.induct)
  case start
  show ?case by (simp add: tracker_inv_def mounts_distinct_def NewVolumeTracker_def)
next
  case (track vt uid pd)
  then show ?case by (simp add: track_inv track_distinct)
next
  case (untrack vt uid)
  then show ?case by (auto simp: untrack_inv mounts_distinct_def untrack_gone)
qed

text \<open>C36: the index of mounted config maps and secrets in every run. A mount of the index belongs to a pod that
  is tracked and lies in its directory; untracking a pod removes all its mounts and no other; and
  tracking a pod and untracking it again leaves the index as it was.\<close>

theorem tracker_roundtrip:
  assumes "tracker_run base pawn vt"
  shows "(m \<in> set (volRefs vt key) \<longrightarrow> key \<in> set (volRefsByPod vt (vm_podUID m)) \<and> under (join_path (pods_dir base pawn) (vm_podUID m)) (vm_hostDir m)) \<and>
    (m \<in> set (volRefs (Untrack uid vt) key) \<longleftrightarrow> m \<in> set (volRefs vt key) \<and> vm_podUID m \<noteq> uid) \<and>
    (volRefsByPod vt uid = [] \<longrightarrow> Untrack uid (Track uid pd vt) = vt)"
proof -
  from tracker_run_inv [OF assms] have inv: "tracker_inv vt" and d: "vt_baseDir vt = base" "vt_pawnName vt = pawn" by auto
  have "under (join_path (pods_dir base pawn) (vm_podUID m)) (vm_hostDir m)" if "m \<in> set (volRefs vt key)"
    using inv that d by (fastforce simp: tracker_inv_def vol_dir_def NewResolver_def under_def join_path_def)
  moreover have "Untrack uid (Track uid pd vt) = vt" if u: "volRefsByPod vt uid = []"
  proof -
    have old: "filter (\<lambda>m. vm_podUID m \<noteq> uid) (volRefs vt k) = volRefs vt k" for k
      using inv u by (force simp: tracker_inv_def intro!: filter_True)
    have new: "filter (\<lambda>m. vm_podUID m \<noteq> uid) (map snd (filter (\<lambda>m. fst m = k) (tracked_mounts vt uid pd))) = []" for k
      using tracked_mounts_set by (auto simp: filter_empty_conv)
    have "volRefs (Untrack uid (Track uid pd vt)) k = volRefs vt k" for k
    proof (cases "k \<in> fst ` set (tracked_mounts vt uid pd)")
      case True
      then show ?thesis using old new by (auto simp: Untrack_def Track_def Let_def fold_drop_refs fold_add_ref)
    next
      case False
      then have "filter (\<lambda>m. fst m = k) (tracked_mounts vt uid pd) = []" by (force simp: filter_empty_conv)
      with False u show ?thesis by (simp add: Untrack_def Track_def Let_def fold_drop_refs fold_add_ref)
    qed
    moreover have "volRefsByPod (Untrack uid (Track uid pd vt)) = volRefsByPod vt"
      using u by (auto simp: Untrack_def Track_def Let_def)
    ultimately show ?thesis by (intro VolumeTracker.equality) (auto simp: Untrack_def Track_def Let_def)
  qed
  ultimately show ?thesis using inv untrack_gone by (auto simp: tracker_inv_def)
qed

section \<open>Refreshing a directory\<close>

text \<open>A host on which the calls succeed and a walk lists the files below a directory.\<close>

definition io_ok :: "file_io \<Rightarrow> bool" where
  "io_ok io \<longleftrightarrow> (\<forall>p. io_mkdir io p \<and> io_write io p = Written \<and> io_remove io p) \<and>
     (\<forall>dir fs. finite (dom fs) \<longrightarrow> set (io_walk io dir fs) = {p. under dir p \<and> fs p \<noteq> None})"

definition dir_view :: "string \<Rightarrow> files \<Rightarrow> string \<rightharpoonup> string" where
  "dir_view dir fs = (\<lambda>path. fs (join_path dir path))"

lemma under_join [simp]: "under dir (join_path dir path)"
  by (simp add: under_def join_path_def)

lemma join_inj [simp]: "join_path dir p = join_path dir q \<longleftrightarrow> p = q"
  by (simp add: join_path_def)

lemma under_path: "under dir p \<Longrightarrow> \<exists>path. p = join_path dir path"
  by (auto simp: under_def join_path_def prefix_def)

definition put_keys :: "string \<Rightarrow> (string \<Rightarrow> string option) \<Rightarrow> (string \<times> string) list \<Rightarrow> files \<Rightarrow> files" where
  "put_keys dir content kps fs = fold (\<lambda>(k, path) fs. case content k of None \<Rightarrow> fs | Some d \<Rightarrow> fs(join_path dir path \<mapsto> d)) kps fs"

lemma write_keys_ok: "io_ok io \<Longrightarrow> write_keys io dir content kps fs = (None, put_keys dir content kps fs)"
  by (induction io dir content kps fs rule: write_keys.induct)
    (simp_all add: io_ok_def put_keys_def write_file_def Let_def split: option.split)

lemma put_keys_other: "\<not> under dir p \<Longrightarrow> put_keys dir content kps fs p = fs p"
  unfolding put_keys_def
  by (induction kps arbitrary: fs) (auto simp: split: option.splits)

lemma put_keys_view:
  "dir_view dir (put_keys dir content kps fs) =
     dir_view dir fs ++ map_of (rev (List.map_filter (\<lambda>(k, path). map_option (Pair path) (content k)) kps))"
proof (induction kps arbitrary: fs)
  case (Cons x kps)
  obtain k path where x: "x = (k, path)" by (cases x)
  show ?case
  proof (cases "content k")
    case None
    with Cons x show ?thesis by (simp add: put_keys_def List.map_filter_simps)
  next
    case (Some d)
    have "put_keys dir content (x # kps) fs = put_keys dir content kps (fs(join_path dir path \<mapsto> d))"
      by (simp add: put_keys_def x Some)
    moreover have "dir_view dir (fs(join_path dir path \<mapsto> d)) = (dir_view dir fs)(path \<mapsto> d)"
      by (auto simp: dir_view_def)
    ultimately show ?thesis using Cons x Some by (auto simp: List.map_filter_simps map_add_def fun_eq_iff split: option.split)
  qed
qed (simp add: put_keys_def List.map_filter_simps)

lemma remove_stale_ok:
  "io_ok io \<Longrightarrow> remove_stale io keep ps fs = (None, \<lambda>p. if p \<in> set ps \<and> \<not> keep p then None else fs p)"
  by (induction io keep ps fs rule: remove_stale.induct) (auto simp: io_ok_def fun_eq_iff)

definition refreshed :: "(string \<Rightarrow> string) \<Rightarrow> (string \<times> string) list \<Rightarrow> string \<rightharpoonup> string" where
  "refreshed content kps = map_of (rev (map (\<lambda>(k, path). (path, content k)) kps))"

lemma put_keys_finite: "finite (dom fs) \<Longrightarrow> finite (dom (put_keys dir content kps fs))"
  unfolding put_keys_def by (induction kps arbitrary: fs) (auto split: option.splits)

lemma refresh_files_ok:
  assumes "io_ok io" and fin: "finite (dom fs)"
  shows "fst (refresh_files io dir content kps fs) = None"
    and "\<not> under dir p \<Longrightarrow> snd (refresh_files io dir content kps fs) p = fs p"
    and "dir_view dir (snd (refresh_files io dir content kps fs)) = refreshed content kps"
    and "finite (dom (snd (refresh_files io dir content kps fs)))"
proof -
  let ?fs = "put_keys dir (\<lambda>k. Some (content k)) kps fs"
  let ?keep = "\<lambda>p. p \<in> (\<lambda>(_, path). join_path dir path) ` set kps"
  have r: "refresh_files io dir content kps fs = (None, \<lambda>p. if (under dir p \<and> ?fs p \<noteq> None) \<and> \<not> ?keep p then None else ?fs p)"
    using assms put_keys_finite [OF fin] by (simp add: refresh_files_def write_keys_ok removeStaleFiles_def remove_stale_ok) (simp add: io_ok_def)
  have mf: "List.map_filter (\<lambda>(k, path). Some (path, content k)) kps = map (\<lambda>(k, path). (path, content k)) kps"
    by (induction kps) (auto simp: List.map_filter_simps)
  have view: "?fs (join_path dir path) = (dir_view dir fs ++ refreshed content kps) path" for path
    using put_keys_view [of dir "\<lambda>k. Some (content k)" kps fs] by (simp add: mf refreshed_def dir_view_def fun_eq_iff)
  have dom: "refreshed content kps path \<noteq> None \<longleftrightarrow> path \<in> snd ` set kps" for path
    by (force simp: refreshed_def map_of_eq_None_iff image_iff)
  show "fst (refresh_files io dir content kps fs) = None" by (simp add: r)
  show "\<not> under dir p \<Longrightarrow> snd (refresh_files io dir content kps fs) p = fs p" by (simp add: r put_keys_other)
  have "dom (snd (refresh_files io dir content kps fs)) \<subseteq> dom ?fs" by (auto simp: r split: if_splits)
  then show "finite (dom (snd (refresh_files io dir content kps fs)))" using put_keys_finite [OF fin] by (rule finite_subset)
  have keep: "?keep (join_path dir path) \<longleftrightarrow> refreshed content kps path \<noteq> None" for path
    unfolding dom by (force simp: image_iff)
  show "dir_view dir (snd (refresh_files io dir content kps fs)) = refreshed content kps"
  proof
    fix path
    show "dir_view dir (snd (refresh_files io dir content kps fs)) path = refreshed content kps path"
      using keep [of path] view [of path] by (simp add: r dir_view_def map_add_def split: option.splits)
  qed
qed

section \<open>Live updates\<close>

text \<open>A step that makes one directory show \<open>view m\<close> and changes nothing outside, repeated for a list of mounts.\<close>

locale directory_refresh =
  fixes step :: "volumeMount \<Rightarrow> files \<Rightarrow> files" and view :: "volumeMount \<Rightarrow> string \<rightharpoonup> string"
  assumes outside: "finite (dom fs) \<Longrightarrow> \<not> under (vm_hostDir m) p \<Longrightarrow> step m fs p = fs p"
    and shows_view: "finite (dom fs) \<Longrightarrow> dir_view (vm_hostDir m) (step m fs) = view m"
    and step_finite: "finite (dom fs) \<Longrightarrow> finite (dom (step m fs))"
begin

lemma fold_finite: "finite (dom fs) \<Longrightarrow> finite (dom (fold step ms fs))"
  by (induction ms arbitrary: fs) (simp_all add: step_finite)

lemma fold_outside: "finite (dom fs) \<Longrightarrow> \<forall>m\<in>set ms. \<not> under (vm_hostDir m) p \<Longrightarrow> fold step ms fs p = fs p"
  by (induction ms arbitrary: fs) (simp_all add: outside step_finite)

lemma fold_view:
  assumes "finite (dom fs)" and "m \<in> set ms"
    and "\<forall>m'\<in>set ms. view m' = view m \<and> vm_hostDir m' = vm_hostDir m \<or> (\<forall>p. \<not> (under (vm_hostDir m) p \<and> under (vm_hostDir m') p))"
  shows "dir_view (vm_hostDir m) (fold step ms fs) = view m"
  using assms(2,3)
proof (induction ms rule: rev_induct)
  case (snoc x ms)
  from snoc.prems(2) consider (same) "view x = view m" "vm_hostDir x = vm_hostDir m"
    | (apart) "\<forall>p. \<not> (under (vm_hostDir m) p \<and> under (vm_hostDir x) p)" by auto
  then show ?case
  proof cases
    case same
    then show ?thesis using shows_view [OF fold_finite [OF assms(1)], of x ms] by simp
  next
    case apart
    from apart have "x \<noteq> m" using under_join [of "vm_hostDir m" "[]"] by blast
    with snoc.prems(1) have m: "m \<in> set ms" by simp
    have "dir_view (vm_hostDir m) (step x (fold step ms fs)) = dir_view (vm_hostDir m) (fold step ms fs)"
      using apart outside [OF fold_finite [OF assms(1)]] by (auto simp: dir_view_def fun_eq_iff)
    with snoc m show ?thesis by simp
  qed
qed simp

end

definition secret_view :: "((string \<rightharpoonup> string) \<Rightarrow> string list) \<Rightarrow> secret \<Rightarrow> key_to_path list \<Rightarrow> string \<rightharpoonup> string" where
  "secret_view iter sec items = refreshed (\<lambda>k. case sec_Data sec k of Some s \<Rightarrow> s | None \<Rightarrow> []) (map_entries iter (keyToPath items (sec_Data sec)))"

definition cm_view :: "((string \<rightharpoonup> string) \<Rightarrow> string list) \<Rightarrow> configMap \<Rightarrow> key_to_path list \<Rightarrow> string \<rightharpoonup> string" where
  "cm_view iter cm items = refreshed (\<lambda>k. case cm_content cm k of Some s \<Rightarrow> s | None \<Rightarrow> []) (map_entries iter (keyToPath items (cm_content cm)))"

text \<open>The steps of the tracker satisfy the laws whenever the host does.\<close>

lemma cm_refresh: "io_ok io \<Longrightarrow>
  directory_refresh (\<lambda>m fs. snd (RefreshConfigMapDirect io iter cm (its m) (vm_hostDir m) fs)) (\<lambda>m. cm_view iter cm (its m))"
  by unfold_locales (simp_all add: RefreshConfigMapDirect_def cm_view_def refresh_files_ok)

lemma secret_refresh: "io_ok io \<Longrightarrow>
  directory_refresh (\<lambda>m fs. snd (RefreshSecretDirect io iter sec (its m) (vm_hostDir m) fs)) (\<lambda>m. secret_view iter sec (its m))"
  by unfold_locales (simp_all add: RefreshSecretDirect_def secret_view_def refresh_files_ok)

text \<open>A host where nothing fails; \<open>os.ReadDir\<close> lists in lexical order.\<close>

definition sound_host :: file_io where
  "sound_host = \<lparr>io_mkdir = (\<lambda>_. True), io_write = (\<lambda>_. Written), io_remove = (\<lambda>_. True),
     io_walk = (\<lambda>dir fs. sorted_list_of_set {p. under dir p \<and> fs p \<noteq> None})\<rparr>"

lemma sound_host_ok: "io_ok sound_host"
proof -
  have "finite {p. under dir p \<and> fs p \<noteq> None}" if "finite (dom fs)" for dir and fs :: files
    by (rule finite_subset [OF _ that]) auto
  then show ?thesis by (simp add: io_ok_def sound_host_def)
qed

interpretation sound: directory_refresh "\<lambda>m fs. snd (RefreshConfigMapDirect sound_host iter cm (its m) (vm_hostDir m) fs)" "\<lambda>m. cm_view iter cm (its m)"
  by (rule cm_refresh [OF sound_host_ok])

interpretation sound_secret: directory_refresh "\<lambda>m fs. snd (RefreshSecretDirect sound_host iter sec (its m) (vm_hostDir m) fs)" "\<lambda>m. secret_view iter sec (its m)"
  by (rule secret_refresh [OF sound_host_ok])

lemma refreshed_at:
  assumes "distinct (map fst kps)" and "(k, path) \<in> set kps" and "\<And>k'. (k', path) \<in> set kps \<Longrightarrow> k' = k"
  shows "refreshed content kps path = Some (content k)"
proof -
  have "path \<in> fst ` set (map (\<lambda>(k, path). (path, content k)) kps)" using assms(2) by force
  then obtain d where d: "refreshed content kps path = Some d"
    unfolding refreshed_def by (metis map_of_eq_None_iff not_None_eq set_rev)
  then have "(path, d) \<in> set (map (\<lambda>(k, path). (path, content k)) kps)" unfolding refreshed_def by (metis map_of_SomeD set_rev)
  with assms(3) have "d = content k" by auto
  with d show ?thesis by simp
qed

lemma refreshed_none: "path \<notin> snd ` set kps \<Longrightarrow> refreshed content kps path = None"
  by (force simp: refreshed_def map_of_eq_None_iff)

lemma view_of_keys:
  assumes "iterates iter" and "finite (dom c)"
  shows "refreshed (\<lambda>k. case c k of Some s \<Rightarrow> s | None \<Rightarrow> []) (map_entries iter (keyToPath [] c)) = c"
proof
  fix path
  have dom: "dom (keyToPath [] c) = dom c" by (auto simp: keyToPath_def split: if_splits)
  with assms have e: "set (map_entries iter (keyToPath [] c)) = {(k, v). keyToPath [] c k = Some v}"
    and d: "distinct (map fst (map_entries iter (keyToPath [] c)))" by (simp_all add: map_entries_set map_entries_distinct)
  show "refreshed (\<lambda>k. case c k of Some s \<Rightarrow> s | None \<Rightarrow> []) (map_entries iter (keyToPath [] c)) path = c path"
  proof (cases "c path")
    case None
    then have "path \<notin> snd ` set (map_entries iter (keyToPath [] c))" unfolding e by (auto simp: keyToPath_def split: if_splits)
    then show ?thesis by (simp add: None refreshed_none)
  next
    case (Some s)
    have "refreshed (\<lambda>k. case c k of Some s \<Rightarrow> s | None \<Rightarrow> []) (map_entries iter (keyToPath [] c)) path
      = Some (case c path of Some s \<Rightarrow> s | None \<Rightarrow> [])"
    proof (rule refreshed_at [OF d])
      show "(path, path) \<in> set (map_entries iter (keyToPath [] c))" unfolding e using Some by (simp add: keyToPath_def)
      show "k' = path" if "(k', path) \<in> set (map_entries iter (keyToPath [] c))" for k'
        using that unfolding e by (auto simp: keyToPath_def split: if_splits)
    qed
    with Some show ?thesis by simp
  qed
qed

section \<open>Directories of mounts\<close>

lemma cut_inj: "a @ CHR ''/'' # x = b @ CHR ''/'' # y \<Longrightarrow> CHR ''/'' \<notin> set a \<Longrightarrow> CHR ''/'' \<notin> set b \<Longrightarrow> a = b \<and> x = y"
  by (metis cut_at_append option.inject prod.inject)

lemma dirs_apart:
  assumes "under (vol_dir (NewResolver base pawn u []) kind n) p" "under (vol_dir (NewResolver base pawn u' []) kind n') p"
    and "CHR ''/'' \<notin> set u" "CHR ''/'' \<notin> set u'" "CHR ''/'' \<notin> set n" "CHR ''/'' \<notin> set n'"
  shows "u = u' \<and> n = n'"
proof -
  from assms(1,2) obtain x y where
    "pods_dir base pawn @ CHR ''/'' # u @ CHR ''/'' # ''volumes/'' @ kind @ CHR ''/'' # n @ CHR ''/'' # x
     = pods_dir base pawn @ CHR ''/'' # u' @ CHR ''/'' # ''volumes/'' @ kind @ CHR ''/'' # n' @ CHR ''/'' # y"
    by (auto simp: under_def prefix_def vol_dir_def NewResolver_def join_path_def)
  then have "u @ CHR ''/'' # ''volumes/'' @ kind @ CHR ''/'' # n @ CHR ''/'' # x = u' @ CHR ''/'' # ''volumes/'' @ kind @ CHR ''/'' # n' @ CHR ''/'' # y"
    by simp
  from cut_inj [OF this assms(3,4)] have "u = u'" "n @ CHR ''/'' # x = n' @ CHR ''/'' # y" by simp_all
  with cut_inj [OF _ assms(5,6)] show ?thesis by blast
qed

lemma key_kind:
  assumes "vol_ref v = Some (kind, name)" and "vol_key kind ns name = vol_key kind' ns' name'" and "kind' = ''configmap'' \<or> kind' = ''secret''"
  shows "kind = kind'"
  using assms by (auto simp: vol_ref_def vol_key_def split: option.splits)

definition items_of :: "(string \<times> key_to_path list) option \<Rightarrow> key_to_path list" where
  "items_of src = (case src of Some (_, items) \<Rightarrow> items | None \<Rightarrow> [])"

lemma mount_kind:
  assumes "tracker_inv vt" and "m \<in> set (volRefs vt (vol_key kind ns name))" and "kind = ''configmap'' \<or> kind = ''secret''"
  shows "\<exists>n. vol_ref (vm_vol m) = Some (kind, n)"
    and "vm_hostDir m = vol_dir (NewResolver (vt_baseDir vt) (vt_pawnName vt) (vm_podUID m) []) kind (vol_Name (vm_vol m))"
  using assms key_kind [of "vm_vol m"] unfolding tracker_inv_def by metis+

lemma mounts_apart:
  assumes "tracker_inv vt" "mounts_distinct vt" and "kind = ''configmap'' \<or> kind = ''secret''"
    and "m \<in> set (volRefs vt (vol_key kind ns name))" "m' \<in> set (volRefs vt (vol_key kind ns name))"
  shows "vm_vol m' = vm_vol m \<and> vm_hostDir m' = vm_hostDir m \<or> (\<forall>p. \<not> (under (vm_hostDir m) p \<and> under (vm_hostDir m') p))"
proof (cases "\<exists>p. under (vm_hostDir m) p \<and> under (vm_hostDir m') p")
  case True
  from assms(2,4,5) have clean: "CHR ''/'' \<notin> set (vm_podUID m)" "CHR ''/'' \<notin> set (vm_podUID m')" "CHR ''/'' \<notin> set (vol_Name (vm_vol m))"
    "CHR ''/'' \<notin> set (vol_Name (vm_vol m'))" by (auto simp: mounts_distinct_def)
  note h = mount_kind(2) [OF assms(1,4,3)] mount_kind(2) [OF assms(1,5,3)]
  from True dirs_apart [OF _ _ clean] have "vm_podUID m = vm_podUID m'" "vol_Name (vm_vol m) = vol_Name (vm_vol m')" unfolding h by blast+
  with h assms(2,4,5) show ?thesis unfolding mounts_distinct_def by metis
qed blast

lemma projected_entries:
  assumes "iterates iter" and "finite (dom c)"
  shows "set (map_entries iter (keyToPath items c)) = {(k, v). keyToPath items c k = Some v}"
    and "distinct (map fst (map_entries iter (keyToPath items c)))"
proof -
  have "dom (keyToPath items c) \<subseteq> dom c \<union> kp_Key ` set items"
  proof (cases "items = []")
    case False
    have "n \<in> kp_Key ` set items" if "fold (\<lambda>i m. m(kp_Key i \<mapsto> kp_Path i)) items Map.empty n = Some x" for n x
      using that fold_update_other [of n kp_Key items kp_Path Map.empty] by auto
    with False show ?thesis by (auto simp: keyToPath_def)
  qed (auto simp: keyToPath_def split: if_splits)
  then have "finite (dom (keyToPath items c))" by (rule finite_subset) (use assms(2) in simp)
  with assms(1) show "set (map_entries iter (keyToPath items c)) = {(k, v). keyToPath items c k = Some v}"
    "distinct (map fst (map_entries iter (keyToPath items c)))" by (simp_all add: map_entries_set map_entries_distinct)
qed

lemma mounted_config_map:
  assumes "mounted_at vmt ro (writeConfigMap env r ns vol src st) = (Inr bm, st')"
  shows "bm_HostPath bm = vol_dir r ''configmap'' (vol_Name vol) \<and> bm_ReadOnly bm = (ro \<or> vmt_ReadOnly vmt)"
proof -
  obtain res st1 where w: "writeConfigMap env r ns vol src st = (res, st1)" by (cases "writeConfigMap env r ns vol src st")
  with assms obtain d where d: "res = Inr d" "bm = mount_of vmt ro d" by (cases res) (simp_all add: mounted_at_def)
  have "d = vol_dir r ''configmap'' (vol_Name vol)"
    using w unfolding d by (simp add: writeConfigMap_def written_def Let_def split: prod.splits option.splits if_splits)
  with d show ?thesis by (simp add: mount_of_def)
qed


section \<open>Concrete runs\<close>

definition sample_volume :: volume where
  "sample_volume = \<lparr>vol_Name = ''v'', vol_HostPath = None, vol_EmptyDir = False, vol_ConfigMap = Some (''cfg'', []), vol_Secret = None,
     vol_PVC = None, vol_Projected = None\<rparr>"

definition volume_pod :: pod where
  "volume_pod = (sample_pod ''Always'' [''a''])\<lparr>pod_Spec := empty_spec\<lparr>sp_Volumes := [sample_volume]\<rparr>\<rparr>"

definition sample_cm :: configMap where
  "sample_cm = \<lparr>cm_Namespace = ''default'', cm_Name = ''cfg'', cm_Data = Some [''k'' \<mapsto> ''new''], cm_BinaryData = Map.empty\<rparr>"

lemma tracked_volume_pod:
  "tracked_mounts (NewVolumeTracker ''/b'' ''p'') ''u1'' volume_pod = [(''configmap:default/cfg'',
     \<lparr>vm_podUID = ''u1'', vm_hostDir = ''/b/pawns/p/pods/u1/volumes/configmap/v'', vm_vol = sample_volume\<rparr>)]"
  by (simp add: tracked_mounts_def List.map_filter_def tracked_mount_def vol_ref_def vol_key_def volume_pod_def sample_volume_def sample_pod_def
      pods_dir_def join_path_def NewVolumeTracker_def)

lemma sample_run: "tracker_run ''/b'' ''p'' (Track ''u1'' volume_pod (NewVolumeTracker ''/b'' ''p''))"
  by (rule tracker_run.track [OF tracker_run.start])
    (simp_all add: NewVolumeTracker_def valid_volumes_def volume_pod_def sample_volume_def)

lemma sample_refs:
  "volRefs (Track ''u1'' volume_pod (NewVolumeTracker ''/b'' ''p'')) ''configmap:default/cfg'' =
     [\<lparr>vm_podUID = ''u1'', vm_hostDir = ''/b/pawns/p/pods/u1/volumes/configmap/v'', vm_vol = sample_volume\<rparr>]"
  by (simp add: Track_def tracked_volume_pod Let_def add_ref_def) (simp add: NewVolumeTracker_def)

theorem tracker_roundtrip_witness:
  "volRefs (Untrack ''u1'' (Track ''u1'' volume_pod (NewVolumeTracker ''/b'' ''p''))) ''configmap:default/cfg'' = [] \<and>
   Untrack ''u2'' (Track ''u2'' volume_pod (Track ''u1'' volume_pod (NewVolumeTracker ''/b'' ''p''))) = Track ''u1'' volume_pod (NewVolumeTracker ''/b'' ''p'')"
proof -
  let ?vt = "Track ''u1'' volume_pod (NewVolumeTracker ''/b'' ''p'')"
  have "m \<notin> set (volRefs (Untrack ''u1'' ?vt) ''configmap:default/cfg'')" for m
    using tracker_roundtrip [OF sample_run, of m "''configmap:default/cfg''" "''u1''" volume_pod] sample_refs by auto
  then have "volRefs (Untrack ''u1'' ?vt) ''configmap:default/cfg'' = []" by (metis hd_in_set)
  moreover have "volRefsByPod ?vt ''u2'' = []" by (simp add: Track_def tracked_volume_pod Let_def) (simp add: NewVolumeTracker_def)
  then have "Untrack ''u2'' (Track ''u2'' volume_pod ?vt) = ?vt"
    using tracker_roundtrip [OF sample_run, of undefined "[]" "''u2''" volume_pod] by blast
  ultimately show ?thesis ..
qed


text \<open>The clean-up of a CSI volume removes the staging path even if the driver could not unstage it: the files of the
  volume that is still mounted there are deleted.\<close>

lemma cleanup_deletes_mounted_volume:
  assumes "ve_csi env driver = None" and "under (staging_path pvName) p"
  shows "vs_files (cleanupCSIVolume env r k pvName (driver, handle) st) p = None \<and>
    vs_staged (cleanupCSIVolume env r k pvName (driver, handle) st) = vs_staged st"
  using assms by (simp add: cleanupCSIVolume_def remove_paths_def remove_all_def)

text \<open>For a key that is missing, a refresh creates an empty file where the first mount creates none.\<close>

lemma refresh_missing_key:
  "write_keys io dir (\<lambda>k. None) [(k, path)] Map.empty = (if io_mkdir io (join_path dir path) then (None, Map.empty) else (Some (MkdirFailed (join_path dir path)), Map.empty))"
  "io_ok io \<Longrightarrow> dir_view dir (snd (refresh_files io dir (\<lambda>k. []) [(k, path)] Map.empty)) path = Some []"
  by (simp_all add: refresh_files_ok refreshed_def)

end
